theory Spec2Isabelle
  imports Main "HOL-Library.Word"
begin

section \<open>Python strings and library functions\<close>

text \<open>
  A Python \<open>str\<close> is modelled as a \<open>string\<close> whose characters are the code points
  U+0000 .. U+00FF: the record parser decodes its input with \<open>encoding='latin1'\<close>, so
  every string it produces lies in that range. \<open>str.lower\<close>, \<open>str.strip\<close> and
  \<open>str.isspace\<close> are written out for that range.
\<close>

definition is_space :: "char \<Rightarrow> bool" where
  "is_space c =
     (let n = (of_char c :: nat)
      in (9 \<le> n \<and> n \<le> 13) \<or> (28 \<le> n \<and> n \<le> 32) \<or> n = 133 \<or> n = 160)"

definition is_upper :: "char \<Rightarrow> bool" where
  "is_upper c =
     (let n = (of_char c :: nat)
      in (65 \<le> n \<and> n \<le> 90) \<or> (192 \<le> n \<and> n \<le> 214) \<or> (216 \<le> n \<and> n \<le> 222))"

definition lower_char :: "char \<Rightarrow> char" where
  "lower_char c = (if is_upper c then char_of ((of_char c :: nat) + 32) else c)"

definition py_lower :: "string \<Rightarrow> string" where
  "py_lower s = map lower_char s"

text \<open>
  \<open>str.upper\<close> on the letters whose upper-case form is again one Latin-1 character.
  The source applies it to hexadecimal digests only.
\<close>

definition upper_char :: "char \<Rightarrow> char" where
  "upper_char c =
     (let n = (of_char c :: nat)
      in if (97 \<le> n \<and> n \<le> 122) \<or> (224 \<le> n \<and> n \<le> 246) \<or> (248 \<le> n \<and> n \<le> 254)
         then char_of (n - 32) else c)"

definition py_upper :: "string \<Rightarrow> string" where
  "py_upper s = map upper_char s"

definition py_strip :: "string \<Rightarrow> string" where
  "py_strip s = rev (dropWhile is_space (rev (dropWhile is_space s)))"

text \<open>Python exceptions that the modelled code can raise or catch.\<close>

datatype exn =
    ValueError
  | TypeError
  | OverflowError
  | AttributeError
  | FileNotFoundError
  | OSError
  | ConstraintError
  | TransactionError

text \<open>A Python \<open>float\<close> is an IEEE double, kept as its 64 bits.\<close>

type_synonym pyfloat = "64 word"

text \<open>Values held in the sparse \<open>properties\<close> dictionary of an Event.\<close>

datatype propval = PStr string | PInt int

text \<open>
  Library routines the source calls and that are not part of the repository are
  parameters of the model:
  \<^item> \<open>md5_hexdigest s\<close> is \<open>hashlib.md5(s.encode('utf-8')).hexdigest()\<close>;
  \<^item> \<open>int_of_float_str s\<close> is \<open>int(float(s))\<close>, which returns an integer or raises
    \<open>ValueError\<close> (not a number, NaN) or \<open>OverflowError\<close> (infinity);
  \<^item> \<open>float_of_str s\<close> is \<open>float(s)\<close>, \<open>None\<close> when it raises \<open>ValueError\<close>;
  \<^item> \<open>str_of_float x\<close> is \<open>str(x)\<close> for a float;
  \<^item> \<open>json_dumps d\<close> is \<open>json.dumps(d)\<close> for a dictionary of strings and integers.
\<close>

record pylib =
  md5_hexdigest :: "string \<Rightarrow> string"
  int_of_float_str :: "string \<Rightarrow> exn + int"
  float_of_str :: "string \<Rightarrow> pyfloat option"
  str_of_float :: "pyfloat \<Rightarrow> string"
  json_dumps :: "(string \<times> propval) list \<Rightarrow> string"

section \<open>Domain model: actor identifiers (domain/actors.py)\<close>

definition generate_actor_id :: "pylib \<Rightarrow> string \<Rightarrow> string" where
  "generate_actor_id py actor_name =
     (if actor_name = [] then ''ACTOR_UNKNOWN''
      else
        let normalized = py_strip (py_lower actor_name);
            hash_value = py_upper (take 12 (md5_hexdigest py normalized))
        in ''ACTOR_'' @ hash_value)"

text \<open>
  Two names differ only in letter case when they have the same length and, position by
  position, hold the same character or an upper-case letter and its lower-case form.
\<close>

definition case_pair :: "char \<Rightarrow> char \<Rightarrow> bool" where
  "case_pair c d = (c = d \<or> (is_upper c \<and> d = lower_char c) \<or> (is_upper d \<and> c = lower_char d))"

section \<open>Domain model: temporal information (domain/events.py)\<close>

text \<open>
  \<open>datetime.date(year, month, day)\<close>. The constructor first converts its arguments to
  C integers and raises \<open>OverflowError\<close> when one does not fit; it then raises
  \<open>ValueError\<close> unless \<open>1 \<le> year \<le> 9999\<close>, \<open>1 \<le> month \<le> 12\<close> and the day exists in
  that month.
\<close>

record pydate =
  d_year :: int
  d_month :: int
  d_day :: int

definition is_leap :: "int \<Rightarrow> bool" where
  "is_leap y = (y mod 4 = 0 \<and> (y mod 400 = 0 \<or> y mod 100 \<noteq> 0))"

definition days_in_month :: "int \<Rightarrow> int \<Rightarrow> int" where
  "days_in_month y m =
     (if m = 2 then (if is_leap y then 29 else 28)
      else if m = 4 \<or> m = 6 \<or> m = 9 \<or> m = 11 then 30
      else 31)"

definition valid_date :: "int \<Rightarrow> int \<Rightarrow> int \<Rightarrow> bool" where
  "valid_date y m d =
     (1 \<le> y \<and> y \<le> 9999 \<and> 1 \<le> m \<and> m \<le> 12 \<and> 1 \<le> d \<and> d \<le> days_in_month y m)"

definition c_int :: "int \<Rightarrow> bool" where
  "c_int v = (- (2 ^ 31) \<le> v \<and> v < 2 ^ 31)"

definition py_date :: "int \<Rightarrow> int \<Rightarrow> int \<Rightarrow> exn + pydate" where
  "py_date y m d =
     (if c_int y \<and> c_int m \<and> c_int d
      then (if valid_date y m d then Inr \<lparr>d_year = y, d_month = m, d_day = d\<rparr>
            else Inl ValueError)
      else Inl OverflowError)"

text \<open>Truth value of an \<open>Optional[int]\<close>: \<open>None\<close> and \<open>0\<close> are false.\<close>

definition truthy_int :: "int option \<Rightarrow> bool" where
  "truthy_int v = (case v of None \<Rightarrow> False | Some n \<Rightarrow> n \<noteq> 0)"

text \<open>Truth value of an \<open>Optional[str]\<close>: \<open>None\<close> and the empty string are false.\<close>

definition truthy_str :: "string option \<Rightarrow> bool" where
  "truthy_str v = (case v of None \<Rightarrow> False | Some s \<Rightarrow> s \<noteq> [])"

record temporal_info =
  year :: "int option"
  month :: "int option"
  day :: "int option"
  date_type :: "int option"
  julian_possible_start :: "int option"
  julian_possible_end :: "int option"
  julian_earliest :: "int option"
  julian_latest :: "int option"
  julian_start_date :: "int option"
  julian_end_date :: "int option"
  day_span :: "int option"
  publication_date :: "pydate option"
  code_date :: "pydate option"

definition precision :: "temporal_info \<Rightarrow> string" where
  "precision t =
     (if truthy_int (day t) then ''day''
      else if truthy_int (month t) then ''month''
      else if truthy_int (year t) then ''year''
      else ''unknown'')"

text \<open>
  \<open>calendar_date\<close> catches \<open>ValueError\<close> only; any other exception of the constructor
  propagates (\<open>Inl\<close>).
\<close>

definition calendar_date :: "temporal_info \<Rightarrow> exn + pydate option" where
  "calendar_date t =
     (if truthy_int (year t) \<and> truthy_int (month t) \<and> truthy_int (day t)
      then (case py_date (the (year t)) (the (month t)) (the (day t)) of
              Inr dt \<Rightarrow> Inr (Some dt)
            | Inl e \<Rightarrow> (if e = ValueError then Inr None else Inl e))
      else Inr None)"

section \<open>CAMEO event types (domain/cameo.py, ingestion/cameo_parser.py)\<close>

definition is_digit :: "char \<Rightarrow> bool" where
  "is_digit c = (let n = (of_char c :: nat) in 48 \<le> n \<and> n \<le> 57)"

definition digit_val :: "char \<Rightarrow> int" where
  "digit_val c = int (of_char c) - 48"

text \<open>
  \<open>int(s)\<close> for a string: surrounding whitespace is ignored, one sign is allowed, and
  the digits may be grouped by single underscores. \<open>None\<close> stands for \<open>ValueError\<close>.
\<close>

fun digit_groups :: "string \<Rightarrow> bool" where
  "digit_groups [] = False"
| "digit_groups [c] = is_digit c"
| "digit_groups (c # d # cs) =
     (is_digit c \<and> (if d = CHR ''_'' then digit_groups cs else digit_groups (d # cs)))"

definition digits_value :: "string \<Rightarrow> int" where
  "digits_value s = foldl (\<lambda>acc c. 10 * acc + digit_val c) 0 (filter is_digit s)"

definition py_int :: "string \<Rightarrow> int option" where
  "py_int s =
     (let t = py_strip s;
          neg = (t \<noteq> [] \<and> hd t = CHR ''-'');
          body = (if t \<noteq> [] \<and> (hd t = CHR ''-'' \<or> hd t = CHR ''+'') then tl t else t)
      in if digit_groups body
         then Some (if neg then - digits_value body else digits_value body)
         else None)"

record cameo_event_type =
  et_code :: string
  et_label :: string
  et_level :: int
  et_category :: "string option"

definition parent_code :: "cameo_event_type \<Rightarrow> string option" where
  "parent_code et =
     (if et_level et > 1 \<and> length (et_code et) > 2 then Some (butlast (et_code et)) else None)"

definition root_category :: "cameo_event_type \<Rightarrow> string" where
  "root_category et = (if length (et_code et) \<ge> 2 then take 2 (et_code et) else et_code et)"

definition is_cooperation :: "cameo_event_type \<Rightarrow> bool" where
  "is_cooperation et =
     (case py_int (root_category et) of None \<Rightarrow> False | Some cat \<Rightarrow> 1 \<le> cat \<and> cat \<le> 9)"

definition is_conflict :: "cameo_event_type \<Rightarrow> bool" where
  "is_conflict et =
     (case py_int (root_category et) of None \<Rightarrow> False | Some cat \<Rightarrow> 10 \<le> cat \<and> cat \<le> 20)"

definition is_material :: "cameo_event_type \<Rightarrow> bool" where
  "is_material et =
     (case py_int (root_category et) of None \<Rightarrow> False | Some cat \<Rightarrow> 15 \<le> cat \<and> cat \<le> 20)"

definition is_verbal :: "cameo_event_type \<Rightarrow> bool" where
  "is_verbal et =
     (case py_int (root_category et) of None \<Rightarrow> False | Some cat \<Rightarrow> 1 \<le> cat \<and> cat \<le> 14)"

definition startswith :: "string \<Rightarrow> string \<Rightarrow> bool" where
  "startswith s p = (take (length p) s = p)"

text \<open>
  \<open>re.match(r'LABEL:\s*(\d+)\s*=\s*(.+)', line)\<close> on a stripped line, returning the
  two groups. The line has no trailing whitespace, so after the greedy \<open>\s*\<close> that
  follows the equals sign the rest is either empty (no match) or starts with a character
  that is not whitespace; \<open>.\<close> stops at a line feed.
\<close>

definition match_label :: "string \<Rightarrow> (string \<times> string) option" where
  "match_label line =
     (if \<not> startswith line ''LABEL:'' then None
      else
        let r1 = dropWhile is_space (drop 6 line);
            code = takeWhile is_digit r1;
            r2 = dropWhile is_space (dropWhile is_digit r1)
        in if code = [] then None
           else (case r2 of
                   [] \<Rightarrow> None
                 | c # r3 \<Rightarrow>
                     if c \<noteq> CHR ''='' then None
                     else
                       let lab = takeWhile (\<lambda>x. x \<noteq> CHR 0x0A) (dropWhile is_space r3)
                       in if lab = [] then None else Some (code, lab)))"

text \<open>
  \<open>parse_event_types\<close> on the lines of a file that could be opened, in file order.
\<close>

fun parse_event_types :: "string list \<Rightarrow> cameo_event_type list" where
  "parse_event_types [] = []"
| "parse_event_types (raw # rest) =
     (let line = py_strip raw
      in if \<not> startswith line ''LABEL:'' then parse_event_types rest
         else (case match_label line of
                 None \<Rightarrow> parse_event_types rest
               | Some (code, lab) \<Rightarrow>
                   \<lparr>et_code = py_strip code,
                    et_label = py_strip lab,
                    et_level = int (length (py_strip code)),
                    et_category = Some (if length (py_strip code) \<ge> 2
                                        then take 2 (py_strip code) else py_strip code)\<rparr>
                   # parse_event_types rest))"

text \<open>
  The hierarchy dictionary keeps its keys in insertion order; it is an association list
  with one entry per key.
\<close>

definition hierarchy_append ::
  "(string \<times> string list) list \<Rightarrow> string \<Rightarrow> string \<Rightarrow> (string \<times> string list) list" where
  "hierarchy_append h p c =
     (if p \<in> set (map fst h)
      then map (\<lambda>(k, v). if k = p then (k, v @ [c]) else (k, v)) h
      else h @ [(p, [c])])"

definition build_event_type_hierarchy ::
  "cameo_event_type list \<Rightarrow> (string \<times> string list) list" where
  "build_event_type_hierarchy event_types =
     foldl (\<lambda>h et. if truthy_str (parent_code et)
                    then hierarchy_append h (the (parent_code et)) (et_code et)
                    else h)
       [] event_types"

section \<open>Domain model: events (domain/events.py)\<close>

datatype actor_role = INITIATOR | TARGET | VICTIM

record actor =
  role :: actor_role
  identity_group :: "string option"
  sector_group :: "string option"
  political_group :: "string option"
  actor_type :: "int option"
  government_type :: "int option"
  government_level :: "int option"
  non_gov_type :: "int option"
  is_known :: "int option"
  ambiguity :: "pyfloat option"
  human_indicator :: "int option"
  num_participants :: "int option"
  num_armed :: "int option"

text \<open>\<open>a or b or c\<close>: the first operand that is true, else the last one.\<close>

definition primary_name :: "actor \<Rightarrow> string option" where
  "primary_name a =
     (if truthy_str (political_group a) then political_group a
      else if truthy_str (sector_group a) then sector_group a
      else identity_group a)"

definition is_government :: "actor \<Rightarrow> bool" where
  "is_government a = (case government_type a of None \<Rightarrow> False | Some n \<Rightarrow> n > 0)"

definition is_non_government :: "actor \<Rightarrow> bool" where
  "is_non_government a = (case non_gov_type a of None \<Rightarrow> False | Some n \<Rightarrow> n > 0)"

definition is_human :: "actor \<Rightarrow> bool" where
  "is_human a = (human_indicator a = Some 1)"

record location =
  loc_name :: "string option"
  loc_country :: "string option"
  latitude :: "pyfloat option"
  longitude :: "pyfloat option"
  location_type :: "int option"
  region :: "int option"
  cow_code :: "int option"
  pinpoint :: "int option"

record impact =
  killed_participants :: "int option"
  killed_armed :: "int option"
  injured :: "int option"
  injured_detailed :: "int option"
  arrests :: "int option"
  property_damaged :: "int option"
  property_owner :: "string option"
  victim_effect :: "string option"

text \<open>
  The \<open>properties\<close> dictionary keeps insertion order; assigning to an existing key
  keeps the key's position.
\<close>

type_synonym props = "(string \<times> propval) list"

fun dict_set :: "(string \<times> 'v) list \<Rightarrow> string \<Rightarrow> 'v \<Rightarrow> (string \<times> 'v) list" where
  "dict_set [] k v = [(k, v)]"
| "dict_set ((k', v') # d) k v = (if k' = k then (k, v) # d else (k', v') # dict_set d k v)"

record event =
  event_id :: string
  temporal :: "temporal_info option"
  event_type :: "int option"
  pe_type :: "int option"
  atk_type :: "int option"
  dsa_type :: "int option"
  news_source :: "string option"
  article_id :: "string option"
  initiator :: "actor option"
  target :: "actor option"
  victim :: "actor option"
  location :: "location option"
  impact :: "impact option"
  is_quasi_event :: bool
  is_state_action :: bool
  is_coup :: bool
  is_coup_failed :: bool
  is_linked :: bool
  link_type :: "int option"
  linked_from :: "string list"
  linked_to :: "string list"
  is_posthoc :: bool
  properties :: props

section \<open>Record parser (ingestion/csv_parser.py)\<close>

text \<open>
  A row is a pandas Series: an index of column names with one scalar each. A scalar is
  either missing (\<open>NA\<close>: NaN or \<open>None\<close>) or a value, kept as \<open>Text s\<close> where \<open>s\<close> is what
  Python's \<open>str\<close> gives for it (the string itself for a string cell). That is all the
  parser reads of a cell: \<open>pd.isna(value)\<close>, \<open>value in MISSING_VALUES\<close> and
  \<open>str(value).strip()\<close>.
\<close>

datatype cell = NA | Text string

type_synonym row = "(string \<times> cell) list"

definition MISSING_VALUES :: "string list" where
  "MISSING_VALUES = [''.'', '''', ''nan'', ''NaN'']"

definition safe_get :: "row \<Rightarrow> string \<Rightarrow> string option" where
  "safe_get r field =
     (case map_of r field of
        None \<Rightarrow> None
      | Some NA \<Rightarrow> None
      | Some (Text s) \<Rightarrow> if s \<in> set MISSING_VALUES then None else Some (py_strip s))"

text \<open>Sequencing of steps that may raise: the first exception ends the computation.\<close>

definition bindE :: "exn + 'a \<Rightarrow> ('a \<Rightarrow> exn + 'b) \<Rightarrow> exn + 'b" where
  "bindE m f = (case m of Inl e \<Rightarrow> Inl e | Inr v \<Rightarrow> f v)"

text \<open>\<open>_safe_int\<close> catches \<open>ValueError\<close> and \<open>TypeError\<close>; anything else propagates.\<close>

definition safe_int :: "pylib \<Rightarrow> row \<Rightarrow> string \<Rightarrow> exn + int option" where
  "safe_int py r field =
     (case safe_get r field of
        None \<Rightarrow> Inr None
      | Some v \<Rightarrow>
          (case int_of_float_str py v of
             Inr n \<Rightarrow> Inr (Some n)
           | Inl e \<Rightarrow> if e = ValueError \<or> e = TypeError then Inr None else Inl e))"

definition safe_float :: "pylib \<Rightarrow> row \<Rightarrow> string \<Rightarrow> pyfloat option" where
  "safe_float py r field =
     (case safe_get r field of None \<Rightarrow> None | Some v \<Rightarrow> float_of_str py v)"

text \<open>The guarded construction \<open>try: date(y, m, d) except ValueError: pass\<close>.\<close>

definition try_date :: "int option \<Rightarrow> int option \<Rightarrow> int option \<Rightarrow> exn + pydate option" where
  "try_date y m d =
     (if truthy_int y \<and> truthy_int m \<and> truthy_int d
      then (case py_date (the y) (the m) (the d) of
              Inr dt \<Rightarrow> Inr (Some dt)
            | Inl e \<Rightarrow> (if e = ValueError then Inr None else Inl e))
      else Inr None)"

definition parse_temporal :: "pylib \<Rightarrow> row \<Rightarrow> exn + temporal_info" where
  "parse_temporal py r =
     bindE (safe_int py r ''PUB_YEAR'') (\<lambda>pub_year.
     bindE (safe_int py r ''PUB_MON'') (\<lambda>pub_mon.
     bindE (safe_int py r ''PUB_DATE'') (\<lambda>pub_day.
     bindE (try_date pub_year pub_mon pub_day) (\<lambda>pub_date.
     bindE (safe_int py r ''CODE_YEAR'') (\<lambda>code_year.
     bindE (safe_int py r ''CODE_MONTH'') (\<lambda>code_mon.
     bindE (safe_int py r ''CODE_DAY'') (\<lambda>code_day.
     bindE (try_date code_year code_mon code_day) (\<lambda>cdate.
     bindE (safe_int py r ''year'') (\<lambda>v_year.
     bindE (safe_int py r ''month'') (\<lambda>v_month.
     bindE (safe_int py r ''day'') (\<lambda>v_day.
     bindE (safe_int py r ''DATE_TYP'') (\<lambda>v_date_type.
     bindE (safe_int py r ''JUL_PSD'') (\<lambda>v_psd.
     bindE (safe_int py r ''JUL_PED'') (\<lambda>v_ped.
     bindE (safe_int py r ''JUL_EED'') (\<lambda>v_eed.
     bindE (safe_int py r ''JUL_LED'') (\<lambda>v_led.
     bindE (safe_int py r ''JUL_START_DATE'') (\<lambda>v_start.
     bindE (safe_int py r ''JUL_END_DATE'') (\<lambda>v_end.
     bindE (safe_int py r ''DAY_SPAN'') (\<lambda>v_span.
     Inr \<lparr>year = v_year, month = v_month, day = v_day, date_type = v_date_type,
          julian_possible_start = v_psd, julian_possible_end = v_ped,
          julian_earliest = v_eed, julian_latest = v_led,
          julian_start_date = v_start, julian_end_date = v_end, day_span = v_span,
          publication_date = pub_date, code_date = cdate\<rparr>)))))))))))))))))))"

text \<open>
  \<open>_parse_actor(row, prefix, role)\<close>; the column names are built from the prefix
  (\<open>INI\<close>, \<open>TAR\<close> or \<open>VIC\<close>) and from its first letter.
\<close>

definition parse_actor :: "pylib \<Rightarrow> row \<Rightarrow> string \<Rightarrow> actor_role \<Rightarrow> exn + actor option" where
  "parse_actor py r prefix rl =
     (let igrp = safe_get r (prefix @ ''_IGRP1'');
          sgrp = safe_get r (prefix @ ''_SGRP1'');
          pgrp = safe_get r (prefix @ ''_PGRP1'')
      in if \<not> (truthy_str igrp \<or> truthy_str sgrp \<or> truthy_str pgrp) then Inr None
         else
           bindE (safe_int py r (prefix @ ''_TYPE'')) (\<lambda>v_type.
           bindE (safe_int py r (''GOV_'' @ take 1 prefix @ ''1'')) (\<lambda>v_gov.
           bindE (safe_int py r (''G_LVL_'' @ take 1 prefix)) (\<lambda>v_lvl.
           bindE (safe_int py r (''NGOV_'' @ take 1 prefix @ ''1'')) (\<lambda>v_ngov.
           bindE (if prefix = ''INI'' then safe_int py r ''KNOW_INI'' else Inr None) (\<lambda>v_known.
           bindE (if prefix = ''INI'' then safe_int py r ''N_OF_INI_P'' else Inr None) (\<lambda>v_np.
           bindE (if prefix = ''INI'' then safe_int py r ''N_OF_INI_A'' else Inr None) (\<lambda>v_na.
           bindE (if prefix = ''TAR'' then safe_int py r ''HUMAN_T1''
                  else if prefix = ''VIC'' then safe_int py r ''HUMAN_V1''
                  else Inr None) (\<lambda>v_human.
           Inr (Some \<lparr>role = rl, identity_group = igrp, sector_group = sgrp,
                      political_group = pgrp, actor_type = v_type, government_type = v_gov,
                      government_level = v_lvl, non_gov_type = v_ngov, is_known = v_known,
                      ambiguity = (if prefix = ''INI'' then safe_float py r ''AMBIG_INI''
                                   else None),
                      human_indicator = v_human, num_participants = v_np,
                      num_armed = v_na\<rparr>))))))))))"

definition parse_location :: "pylib \<Rightarrow> row \<Rightarrow> exn + location option" where
  "parse_location py r =
     (let gp3 = safe_get r ''GP3'';
          country = safe_get r ''country''
      in if \<not> truthy_str gp3 \<and> \<not> truthy_str country then Inr None
         else
           bindE (safe_int py r ''LOC_TYPE'') (\<lambda>v_type.
           bindE (safe_int py r ''region'') (\<lambda>v_region.
           bindE (safe_int py r ''cowcode'') (\<lambda>v_cow.
           bindE (safe_int py r ''pinpoint'') (\<lambda>v_pin.
           Inr (Some \<lparr>loc_name = gp3, loc_country = country,
                      latitude = safe_float py r ''GP7'', longitude = safe_float py r ''GP8'',
                      location_type = v_type, region = v_region, cow_code = v_cow,
                      pinpoint = v_pin\<rparr>))))))"

definition parse_impact :: "pylib \<Rightarrow> row \<Rightarrow> exn + impact option" where
  "parse_impact py r =
     bindE (safe_int py r ''N_KILLED_P'') (\<lambda>a1.
     bindE (safe_int py r ''N_KILLED_A'') (\<lambda>a2.
     bindE (safe_int py r ''N_INJURD'') (\<lambda>a3.
     bindE (safe_int py r ''arrests'') (\<lambda>a4.
     bindE (safe_int py r ''property_damaged'') (\<lambda>a5.
     if \<not> (truthy_int a1 \<or> truthy_int a2 \<or> truthy_int a3 \<or> truthy_int a4 \<or> truthy_int a5)
     then Inr None
     else
       bindE (safe_int py r ''N_KILLED_P'') (\<lambda>v_kp.
       bindE (safe_int py r ''N_KILLED_A'') (\<lambda>v_ka.
       bindE (safe_int py r ''N_INJURD'') (\<lambda>v_inj.
       bindE (safe_int py r ''N_INJURD_D'') (\<lambda>v_injd.
       bindE (safe_int py r ''arrests'') (\<lambda>v_arr.
       bindE (safe_int py r ''property_damaged'') (\<lambda>v_pd.
       Inr (Some \<lparr>killed_participants = v_kp, killed_armed = v_ka, injured = v_inj,
                  injured_detailed = v_injd, arrests = v_arr, property_damaged = v_pd,
                  property_owner = safe_get r ''property_owner'',
                  victim_effect = safe_get r ''victim_effect''\<rparr>))))))))))))"

definition sparse_fields :: "string list" where
  "sparse_fields =
     [''AD_VIOL'', ''AD_TACT'', ''weapon'', ''WEAP_GRD'',
      ''E_LENGTH'', ''SYM_TYPE'',
      ''SC_ANIMOSITY'', ''ANTI_GOV_SENTMNTS'', ''CLASS_CONFLICT'',
      ''POL_DESIRES'', ''RETAIN_POWER'', ''ECO_SCARCITY'',
      ''PERS_SECURITY'', ''retribution'', ''POL_EXPRESS'',
      ''MASS_EXPRESS'', ''POL_VIOL'', ''STAT_VIOL'',
      ''ST_REPRESS'', ''PUB_ORDER'',
      ''INTANG_REP'', ''recap'', ''AMBIG_WGT'',
      ''ctry_bias'', ''TAR_GPOL'', ''GP_TYPE'', ''GP4'']"

definition numeric_fields :: "string list" where
  "numeric_fields =
     [''N_INJURD'', ''N_KILLED_P'', ''N_KILLED_A'',
      ''N_OF_INI_P'', ''N_OF_INI_A'', ''WEAP_GRD'', ''E_LENGTH'']"

fun extract_sparse :: "row \<Rightarrow> string list \<Rightarrow> props \<Rightarrow> props" where
  "extract_sparse r [] d = d"
| "extract_sparse r (f # fs) d =
     extract_sparse r fs (case safe_get r f of None \<Rightarrow> d | Some v \<Rightarrow> dict_set d f (PStr v))"

fun extract_numeric :: "pylib \<Rightarrow> row \<Rightarrow> string list \<Rightarrow> props \<Rightarrow> exn + props" where
  "extract_numeric py r [] d = Inr d"
| "extract_numeric py r (f # fs) d =
     bindE (safe_int py r f) (\<lambda>v.
       extract_numeric py r fs (case v of None \<Rightarrow> d | Some n \<Rightarrow> dict_set d f (PInt n)))"

definition extract_properties :: "pylib \<Rightarrow> row \<Rightarrow> event \<Rightarrow> exn + event" where
  "extract_properties py r ev =
     bindE (extract_numeric py r numeric_fields (extract_sparse r sparse_fields (properties ev)))
       (\<lambda>d. Inr (ev\<lparr>properties := d\<rparr>))"

text \<open>
  The part of \<open>_parse_row\<close> after the identifier check, for the identifier \<open>eid\<close>.
\<close>

definition build_event :: "pylib \<Rightarrow> row \<Rightarrow> string \<Rightarrow> exn + event" where
  "build_event py r eid =
     bindE (parse_temporal py r) (\<lambda>v_temporal.
     bindE (parse_actor py r ''INI'' INITIATOR) (\<lambda>v_initiator.
     bindE (parse_actor py r ''TAR'' TARGET) (\<lambda>v_target.
     bindE (parse_actor py r ''VIC'' VICTIM) (\<lambda>v_victim.
     bindE (parse_location py r) (\<lambda>v_location.
     bindE (parse_impact py r) (\<lambda>v_impact.
     bindE (safe_int py r ''linked'') (\<lambda>v_linked.
     let v_is_linked = (v_linked = Some 1);
         from_eid = safe_get r ''FROM_EID'';
         to_eid = safe_get r ''TO_EID'';
         v_from = (if v_is_linked \<and> truthy_str from_eid then [the from_eid] else []);
         v_to = (if v_is_linked \<and> truthy_str to_eid then [the to_eid] else [])
     in
     bindE (safe_int py r ''EV_TYPE'') (\<lambda>v_ev.
     bindE (safe_int py r ''PE_TYPE'') (\<lambda>v_pe.
     bindE (safe_int py r ''ATK_TYPE'') (\<lambda>v_atk.
     bindE (safe_int py r ''DSA_TYPE'') (\<lambda>v_dsa.
     bindE (safe_int py r ''QUASI_EVENT'') (\<lambda>v_quasi.
     bindE (safe_int py r ''STAT_ACT'') (\<lambda>v_stat.
     bindE (safe_int py r ''coup'') (\<lambda>v_coup.
     bindE (safe_int py r ''COUP_FAILED'') (\<lambda>v_failed.
     bindE (safe_int py r ''LINK_TYPE'') (\<lambda>v_link_type.
     bindE (safe_int py r ''posthoc'') (\<lambda>v_posthoc.
     extract_properties py r
       \<lparr>event_id = eid, temporal = Some v_temporal, event_type = v_ev, pe_type = v_pe,
        atk_type = v_atk, dsa_type = v_dsa,
        news_source = safe_get r ''NEWS_SOURCE'', article_id = safe_get r ''aid'',
        initiator = v_initiator, target = v_target, victim = v_victim,
        location = v_location, impact = v_impact,
        is_quasi_event = (v_quasi = Some 1), is_state_action = (v_stat = Some 1),
        is_coup = (v_coup = Some 1), is_coup_failed = (v_failed = Some 1),
        is_linked = v_is_linked, link_type = v_link_type,
        linked_from = v_from, linked_to = v_to,
        is_posthoc = (v_posthoc = Some 1), properties = []\<rparr>)))))))))))))))))"

text \<open>
  \<open>_parse_row\<close>: \<open>Inr None\<close> is the return value \<open>None\<close> (the identifier is missing or
  empty), \<open>Inl e\<close> an exception that leaves the function.
\<close>

definition parse_row :: "pylib \<Rightarrow> row \<Rightarrow> exn + event option" where
  "parse_row py r =
     (let eid = safe_get r ''eventid''
      in if \<not> truthy_str eid then Inr None
         else bindE (build_event py r (the eid)) (\<lambda>ev. Inr (Some ev)))"

text \<open>
  The parser object: its error log and its two counters. An entry of the error log
  keeps the row index, the identifier if it can be read, and the exception's class.
\<close>

record error_info =
  row_index :: "int option"
  err_event_id :: "string option"
  error_type :: exn

record parser_state =
  errors :: "error_info list"
  parsed_count :: nat
  skipped_count :: nat

definition init_parser :: parser_state where
  "init_parser = \<lparr>errors = [], parsed_count = 0, skipped_count = 0\<rparr>"

definition log_error :: "parser_state \<Rightarrow> int \<Rightarrow> row \<Rightarrow> exn \<Rightarrow> parser_state" where
  "log_error ps idx r e =
     ps\<lparr>errors := errors ps @
          [\<lparr>row_index = Some idx, err_event_id = safe_get r ''eventid'', error_type = e\<rparr>]\<rparr>"

text \<open>
  One pass of the inner loop of \<open>parse\<close>: the parser state and the events yielded so
  far, before and after one row.
\<close>

definition parse_step ::
  "pylib \<Rightarrow> parser_state \<times> event list \<Rightarrow> int \<times> row \<Rightarrow> parser_state \<times> event list" where
  "parse_step py st ir =
     (case parse_row py (snd ir) of
        Inr (Some ev) \<Rightarrow> ((fst st)\<lparr>parsed_count := parsed_count (fst st) + 1\<rparr>, snd st @ [ev])
      | Inr None \<Rightarrow> ((fst st)\<lparr>skipped_count := skipped_count (fst st) + 1\<rparr>, snd st)
      | Inl e \<Rightarrow>
          ((log_error (fst st) (fst ir) (snd ir) e)
             \<lparr>skipped_count := skipped_count (fst st) + 1\<rparr>, snd st))"

text \<open>
  \<open>parse\<close> on the chunks that \<open>pd.read_csv\<close> delivers, each a list of indexed rows.
  The generator may be abandoned by its consumer, or the stream may fail, after any
  number of rows; what has happened up to then is the run on a prefix of the rows.
\<close>

definition parse_chunk ::
  "pylib \<Rightarrow> parser_state \<times> event list \<Rightarrow> (int \<times> row) list \<Rightarrow> parser_state \<times> event list" where
  "parse_chunk py st chunk = foldl (parse_step py) st chunk"

definition parse :: "pylib \<Rightarrow> parser_state \<Rightarrow> (int \<times> row) list list \<Rightarrow> parser_state \<times> event list" where
  "parse py ps chunks = foldl (parse_chunk py) (ps, []) chunks"

section \<open>The graph store\<close>

text \<open>
  The loader drives the store through Cypher statements. The store is modelled as a
  property graph: a list of nodes (a node's position is its identity; no statement of
  the loader deletes or relabels a node), a list of relationships between node
  positions, and the uniqueness constraints that have been provisioned. Only the
  clauses the loader uses are modelled, with the semantics Cypher gives them:
  \<^item> a property that is set to \<open>null\<close> is not stored, and reading a property that is not
    stored gives \<open>null\<close>;
  \<^item> \<open>CREATE\<close> adds a node and fails when a uniqueness constraint on the node's label
    would be violated;
  \<^item> \<open>MERGE\<close> of a node pattern binds every node that matches the pattern, and creates
    one node (then applying \<open>ON CREATE SET\<close>) only when none matches;
  \<^item> \<open>MERGE\<close> of a relationship pattern between two bound nodes binds every relationship
    of that type between them, and creates one only when there is none;
  \<^item> a statement that fails changes nothing.
\<close>

datatype val = Null | S string | I int | B bool | F pyfloat

type_synonym pmap = "(string \<times> val) list"

record node =
  nlabel :: string
  nprops :: pmap

record rel =
  rtype :: string
  rsrc :: nat
  rdst :: nat
  rprops :: pmap

record graph =
  nodes :: "node list"
  rels :: "rel list"
  constraints :: "(string \<times> string) list"

definition get_prop :: "pmap \<Rightarrow> string \<Rightarrow> val" where
  "get_prop ps k = (case map_of ps k of None \<Rightarrow> Null | Some v \<Rightarrow> v)"

definition set_prop :: "pmap \<Rightarrow> string \<times> val \<Rightarrow> pmap" where
  "set_prop ps kv =
     (if snd kv = Null then filter (\<lambda>p. fst p \<noteq> fst kv) ps else dict_set ps (fst kv) (snd kv))"

definition set_props :: "pmap \<Rightarrow> pmap \<Rightarrow> pmap" where
  "set_props ps kvs = foldl set_prop ps kvs"

text \<open>The node pattern \<open>(n:lbl {k: v})\<close>; \<open>null\<close> equals nothing.\<close>

definition node_matches :: "string \<Rightarrow> string \<Rightarrow> val \<Rightarrow> node \<Rightarrow> bool" where
  "node_matches lbl k v n = (nlabel n = lbl \<and> v \<noteq> Null \<and> get_prop (nprops n) k = v)"

definition match_nodes :: "graph \<Rightarrow> string \<Rightarrow> string \<Rightarrow> val \<Rightarrow> nat list" where
  "match_nodes g lbl k v =
     filter (\<lambda>i. node_matches lbl k v (nodes g ! i)) [0..<length (nodes g)]"

definition count_nodes :: "graph \<Rightarrow> string \<Rightarrow> string \<Rightarrow> val \<Rightarrow> nat" where
  "count_nodes g lbl k v = length (filter (node_matches lbl k v) (nodes g))"

text \<open>
  A new node violates a uniqueness constraint \<open>(lbl, k)\<close> when it has the label, holds
  a value for \<open>k\<close>, and a node with that label and value exists.
\<close>

definition violates :: "graph \<Rightarrow> node \<Rightarrow> bool" where
  "violates g n =
     list_ex (\<lambda>c. fst c = nlabel n \<and> get_prop (nprops n) (snd c) \<noteq> Null
                 \<and> 0 < count_nodes g (fst c) (snd c) (get_prop (nprops n) (snd c)))
       (constraints g)"

text \<open>\<open>CREATE (n:lbl {k1: v1, ...})\<close>, for the node the statement describes.\<close>

definition create_node :: "graph \<Rightarrow> node \<Rightarrow> exn + graph" where
  "create_node g n =
     (if violates g n then Inl ConstraintError else Inr (g\<lparr>nodes := nodes g @ [n]\<rparr>))"

text \<open>
  \<open>MERGE (n:lbl {k: v}) ON CREATE SET n.k1 = v1, ...\<close>: the graph and the positions
  bound to \<open>n\<close>.
\<close>

definition merge_node :: "graph \<Rightarrow> string \<Rightarrow> string \<Rightarrow> val \<Rightarrow> pmap \<Rightarrow> graph \<times> nat list" where
  "merge_node g lbl k v on_create =
     (if match_nodes g lbl k v = []
      then (g\<lparr>nodes := nodes g @ [\<lparr>nlabel = lbl, nprops = set_props [(k, v)] on_create\<rparr>]\<rparr>,
            [length (nodes g)])
      else (g, match_nodes g lbl k v))"

text \<open>
  \<open>MERGE (s)-[r:t]->(d) SET r.k1 = v1, ...\<close> for one bound pair of nodes.
\<close>

definition rel_between :: "string \<Rightarrow> nat \<Rightarrow> nat \<Rightarrow> rel \<Rightarrow> bool" where
  "rel_between t s d r = (rtype r = t \<and> rsrc r = s \<and> rdst r = d)"

definition merge_rel :: "string \<Rightarrow> pmap \<Rightarrow> graph \<Rightarrow> nat \<times> nat \<Rightarrow> graph" where
  "merge_rel t sets g sd =
     (if list_ex (rel_between t (fst sd) (snd sd)) (rels g)
      then g\<lparr>rels := map (\<lambda>r. if rel_between t (fst sd) (snd sd) r
                                then r\<lparr>rprops := set_props (rprops r) sets\<rparr> else r) (rels g)\<rparr>
      else g\<lparr>rels := rels g @
             [\<lparr>rtype = t, rsrc = fst sd, rdst = snd sd, rprops = set_props [] sets\<rparr>]\<rparr>)"

definition count_rels :: "graph \<Rightarrow> string \<Rightarrow> nat \<Rightarrow> nat \<Rightarrow> nat" where
  "count_rels g t s d = length (filter (rel_between t s d) (rels g))"

text \<open>
  The statement shared by the actor and location steps:

  \<^verbatim>\<open>MERGE (a:lbl {k: v}) ON CREATE SET ... WITH a
  MATCH (e:Event {eventId: $event_id})
  MERGE (e)-[r:t]->(a) SET r... \<close>

  One row per pair of a bound node \<open>a\<close> and a matching Event \<open>e\<close>.
\<close>

definition merge_and_link ::
  "graph \<Rightarrow> string \<Rightarrow> string \<Rightarrow> val \<Rightarrow> pmap \<Rightarrow> val \<Rightarrow> string \<Rightarrow> pmap \<Rightarrow> graph" where
  "merge_and_link g lbl k v on_create eid t sets =
     (let (g1, bound) = merge_node g lbl k v on_create;
          evs = match_nodes g1 ''Event'' ''eventId'' eid
      in foldl (merge_rel t sets) g1 (concat (map (\<lambda>a. map (\<lambda>e. (e, a)) evs) bound)))"

text \<open>Python values as Cypher parameters.\<close>

definition oi :: "int option \<Rightarrow> val" where
  "oi v = (case v of None \<Rightarrow> Null | Some n \<Rightarrow> I n)"

definition os :: "string option \<Rightarrow> val" where
  "os v = (case v of None \<Rightarrow> Null | Some s \<Rightarrow> S s)"

definition ofl :: "pyfloat option \<Rightarrow> val" where
  "ofl v = (case v of None \<Rightarrow> Null | Some x \<Rightarrow> F x)"

text \<open>Truth value of a property value read back into Python.\<close>

definition truthy_val :: "val \<Rightarrow> bool" where
  "truthy_val v =
     (case v of
        Null \<Rightarrow> False
      | S s \<Rightarrow> s \<noteq> []
      | I n \<Rightarrow> n \<noteq> 0
      | B b \<Rightarrow> b
      | F x \<Rightarrow> x \<noteq> 0 \<and> x \<noteq> 0x8000000000000000)"

text \<open>\<open>str(n)\<close> for an integer.\<close>

fun nat_digits :: "nat \<Rightarrow> string" where
  "nat_digits n =
     (if n < 10 then [''0123456789'' ! n]
      else nat_digits (n div 10) @ [''0123456789'' ! (n mod 10)])"

declare nat_digits.simps [simp del]

definition str_int :: "int \<Rightarrow> string" where
  "str_int i = (if i < 0 then CHR ''-'' # nat_digits (nat (- i)) else nat_digits (nat i))"

section \<open>Graph loader (ingestion/neo4j_loader.py)\<close>

definition create_schema :: "graph \<Rightarrow> graph" where
  "create_schema g =
     g\<lparr>constraints := List.union (constraints g)
          [(''Event'', ''eventId''), (''Actor'', ''actorId''), (''EventType'', ''cameoCode''),
           (''Location'', ''locationId''), (''CAMEOActorType'', ''code'')]\<rparr>"

text \<open>
  \<open>_generate_location_id\<close>: \<open>f"{name}_{lat}_{lon}".lower()\<close>, hashed; a missing
  coordinate is formatted as \<open>None\<close>.
\<close>

definition fmt_float :: "pylib \<Rightarrow> pyfloat option \<Rightarrow> string" where
  "fmt_float py v = (case v of None \<Rightarrow> ''None'' | Some x \<Rightarrow> str_of_float py x)"

definition generate_location_id ::
  "pylib \<Rightarrow> string \<Rightarrow> pyfloat option \<Rightarrow> pyfloat option \<Rightarrow> string" where
  "generate_location_id py name lat lon =
     (let key = py_lower (name @ ''_'' @ fmt_float py lat @ ''_'' @ fmt_float py lon)
      in ''LOC_'' @ py_upper (take 12 (md5_hexdigest py key)))"

text \<open>The node that the \<open>CREATE\<close> statement of \<open>_create_event_node\<close> describes.\<close>

definition event_node :: "pylib \<Rightarrow> event \<Rightarrow> node" where
  "event_node py ev =
     \<lparr>nlabel = ''Event'',
      nprops = set_props []
        [(''eventId'', S (event_id ev)),
         (''year'', case temporal ev of None \<Rightarrow> Null | Some t \<Rightarrow> oi (year t)),
         (''month'', case temporal ev of None \<Rightarrow> Null | Some t \<Rightarrow> oi (month t)),
         (''day'', case temporal ev of None \<Rightarrow> Null | Some t \<Rightarrow> oi (day t)),
         (''dateType'', case temporal ev of None \<Rightarrow> Null | Some t \<Rightarrow> oi (date_type t)),
         (''julianStartDate'',
            case temporal ev of None \<Rightarrow> Null | Some t \<Rightarrow> oi (julian_start_date t)),
         (''julianEndDate'',
            case temporal ev of None \<Rightarrow> Null | Some t \<Rightarrow> oi (julian_end_date t)),
         (''daySpan'', case temporal ev of None \<Rightarrow> Null | Some t \<Rightarrow> oi (day_span t)),
         (''eventType'', oi (event_type ev)),
         (''peType'', oi (pe_type ev)),
         (''atkType'', oi (atk_type ev)),
         (''dsaType'', oi (dsa_type ev)),
         (''newsSource'', os (news_source ev)),
         (''articleId'', os (article_id ev)),
         (''isQuasiEvent'', B (is_quasi_event ev)),
         (''isStateAction'', B (is_state_action ev)),
         (''isCoup'', B (is_coup ev)),
         (''isCoupFailed'', B (is_coup_failed ev)),
         (''isLinked'', B (is_linked ev)),
         (''linkType'', oi (link_type ev)),
         (''isPosthoc'', B (is_posthoc ev)),
         (''propertiesJson'',
            if properties ev \<noteq> [] then S (json_dumps py (properties ev)) else Null)]\<rparr>"

definition create_event_node :: "pylib \<Rightarrow> graph \<Rightarrow> event \<Rightarrow> exn + graph" where
  "create_event_node py g ev = create_node g (event_node py ev)"

text \<open>
  \<open>_create_actor_relationships\<close>: one statement per role whose actor is present with a
  non-empty primary name. The relationship to the Actor is merged.
\<close>

definition actor_present :: "actor option \<Rightarrow> bool" where
  "actor_present a = (case a of None \<Rightarrow> False | Some x \<Rightarrow> truthy_str (primary_name x))"

definition actor_on_create :: "actor \<Rightarrow> pmap" where
  "actor_on_create a =
     [(''name'', os (primary_name a)),
      (''cameoCode'', os (identity_group a)),
      (''isGovernment'', B (is_government a))]"

definition initiator_sets :: "actor \<Rightarrow> pmap" where
  "initiator_sets a =
     [(''actorType'', oi (actor_type a)),
      (''governmentType'', oi (government_type a)),
      (''governmentLevel'', oi (government_level a)),
      (''ambiguity'', ofl (ambiguity a)),
      (''numParticipants'', oi (num_participants a)),
      (''numArmed'', oi (num_armed a))]"

definition target_sets :: "actor \<Rightarrow> pmap" where
  "target_sets a =
     [(''actorType'', oi (actor_type a)),
      (''governmentType'', oi (government_type a)),
      (''governmentLevel'', oi (government_level a)),
      (''isHuman'', B (is_human a))]"

definition link_actor :: "pylib \<Rightarrow> graph \<Rightarrow> event \<Rightarrow> actor \<Rightarrow> string \<Rightarrow> pmap \<Rightarrow> graph" where
  "link_actor py g ev a t sets =
     merge_and_link g ''Actor'' ''actorId'' (S (generate_actor_id py (the (primary_name a))))
       (actor_on_create a) (S (event_id ev)) t sets"

definition create_actor_relationships :: "pylib \<Rightarrow> graph \<Rightarrow> event \<Rightarrow> graph" where
  "create_actor_relationships py g ev =
     (let g1 = (if actor_present (initiator ev)
                then link_actor py g ev (the (initiator ev)) ''INITIATED_BY''
                       (initiator_sets (the (initiator ev)))
                else g);
          g2 = (if actor_present (target ev)
                then link_actor py g1 ev (the (target ev)) ''TARGETED''
                       (target_sets (the (target ev)))
                else g1)
      in if actor_present (victim ev)
         then link_actor py g2 ev (the (victim ev)) ''VICTIMIZED''
                (target_sets (the (victim ev)))
         else g2)"

definition location_present :: "location option \<Rightarrow> bool" where
  "location_present l =
     (case l of None \<Rightarrow> False | Some x \<Rightarrow> truthy_str (loc_name x) \<or> truthy_str (loc_country x))"

definition name_or_country :: "location \<Rightarrow> string" where
  "name_or_country l = (if truthy_str (loc_name l) then the (loc_name l) else the (loc_country l))"

definition location_on_create :: "location \<Rightarrow> pmap" where
  "location_on_create l =
     [(''name'', os (loc_name l)),
      (''country'', os (loc_country l)),
      (''latitude'', ofl (latitude l)),
      (''longitude'', ofl (longitude l)),
      (''locationType'', oi (location_type l)),
      (''region'', oi (region l))]"

definition create_location_relationship :: "pylib \<Rightarrow> graph \<Rightarrow> event \<Rightarrow> graph" where
  "create_location_relationship py g ev =
     (if location_present (location ev)
      then let l = the (location ev);
               location_id = generate_location_id py (name_or_country l) (latitude l) (longitude l)
           in merge_and_link g ''Location'' ''locationId'' (S location_id)
                (location_on_create l) (S (event_id ev)) ''OCCURRED_AT'' []
      else g)"

text \<open>
  \<open>_link_event_type\<close>: the Event is linked to every EventType node whose code is the
  decimal text of the event type; with no such node nothing is created.
\<close>

definition link_event_type :: "graph \<Rightarrow> event \<Rightarrow> graph" where
  "link_event_type g ev =
     (if truthy_int (event_type ev)
      then let evs = match_nodes g ''Event'' ''eventId'' (S (event_id ev));
               ets = match_nodes g ''EventType'' ''cameoCode'' (S (str_int (the (event_type ev))))
           in foldl (merge_rel ''OF_TYPE'' []) g (concat (map (\<lambda>e. map (\<lambda>et. (e, et)) ets) evs))
      else g)"

text \<open>
  \<open>_load_event_batch\<close>: one transaction for the whole batch. The four steps of an Event
  run inside a \<open>try\<close> block; \<open>tx.commit()\<close> follows the loop, outside every \<open>try\<close>.

  The driver's transaction is modelled as follows. A statement that fails raises its
  error from \<open>tx.run\<close> and makes the transaction fail. On a failed transaction every
  further \<open>tx.run\<close> raises \<open>TransactionError\<close> without executing anything, and so does
  \<open>tx.commit()\<close>; leaving the \<open>with\<close> block then rolls the transaction back, so that
  nothing the batch did is stored.

  \<open>run_event\<close> is the body of the \<open>try\<close> block on a transaction that has not failed:
  of its statements only the \<open>CREATE\<close> can fail.
\<close>

definition run_event :: "pylib \<Rightarrow> graph \<Rightarrow> event \<Rightarrow> exn + graph" where
  "run_event py g ev =
     bindE (create_event_node py g ev) (\<lambda>g1.
     Inr (link_event_type
            (create_location_relationship py (create_actor_relationships py g1 ev) ev) ev))"

text \<open>
  One iteration of the loop. The state is the graph as the transaction sees it, the
  error that made the transaction fail (if it has), and the log. The handler logs the
  exception with the Event's identifier and the loop goes on.
\<close>

definition load_event ::
  "pylib \<Rightarrow> graph \<times> exn option \<times> (string \<times> exn) list \<Rightarrow> event
     \<Rightarrow> graph \<times> exn option \<times> (string \<times> exn) list" where
  "load_event py st ev =
     (case fst (snd st) of
        Some e0 \<Rightarrow> (fst st, Some e0, snd (snd st) @ [(event_id ev, TransactionError)])
      | None \<Rightarrow>
          (case run_event py (fst st) ev of
             Inl e \<Rightarrow> (fst st, Some e, snd (snd st) @ [(event_id ev, e)])
           | Inr g1 \<Rightarrow> (g1, None, snd (snd st))))"

text \<open>
  The whole call: the store after it, the log, and the exception the call raises, if
  any. When the transaction has failed, \<open>tx.commit()\<close> raises and the store is left as
  it was before the call.
\<close>

definition load_event_batch ::
  "pylib \<Rightarrow> graph \<Rightarrow> event list \<Rightarrow> graph \<times> (string \<times> exn) list \<times> exn option" where
  "load_event_batch py g events =
     (let st = foldl (load_event py) (g, None, []) events
      in case fst (snd st) of
           None \<Rightarrow> (fst st, snd (snd st), None)
         | Some e \<Rightarrow> (g, snd (snd st), Some TransactionError))"

text \<open>
  \<open>_create_event_links\<close> (Pass 2). The query returns, for every Event whose
  \<open>isLinked\<close> is true, its \<open>eventId\<close> and its property \<open>properties\<close>. What Python then
  holds in \<open>props\<close> is that property value if it is true, else an empty dictionary;
  \<open>props.get\<close> exists only on the dictionary.
\<close>

datatype pyobj = Obj val | Dict pmap

definition or_empty_dict :: "val \<Rightarrow> pyobj" where
  "or_empty_dict v = (if truthy_val v then Obj v else Dict [])"

definition obj_get :: "pyobj \<Rightarrow> string \<Rightarrow> exn + val" where
  "obj_get ob k = (case ob of Dict d \<Rightarrow> Inr (get_prop d k) | Obj v \<Rightarrow> Inl AttributeError)"

definition linked_records :: "graph \<Rightarrow> (val \<times> val) list" where
  "linked_records g =
     map (\<lambda>n. (get_prop (nprops n) ''eventId'', get_prop (nprops n) ''properties''))
       (filter (\<lambda>n. nlabel n = ''Event'' \<and> get_prop (nprops n) ''isLinked'' = B True) (nodes g))"

text \<open>
  \<^verbatim>\<open>MATCH (e1:Event {eventId: $from_eid}) MATCH (e2:Event {eventId: $to_eid})
  MERGE (e1)-[r:LINKED_TO]->(e2) SET r.direction = ...\<close>
\<close>

definition link_events :: "graph \<Rightarrow> val \<Rightarrow> val \<Rightarrow> string \<Rightarrow> graph" where
  "link_events g from_eid to_eid direction =
     (let e1s = match_nodes g ''Event'' ''eventId'' from_eid;
          e2s = match_nodes g ''Event'' ''eventId'' to_eid
      in foldl (merge_rel ''LINKED_TO'' [(''direction'', S direction)]) g
           (concat (map (\<lambda>e1. map (\<lambda>e2. (e1, e2)) e2s) e1s)))"

text \<open>
  The loop over the records: the graph reached, the number of links counted, and the
  exception that ended the loop, if any.
\<close>

fun links_loop :: "graph \<Rightarrow> nat \<Rightarrow> (val \<times> val) list \<Rightarrow> graph \<times> nat \<times> exn option" where
  "links_loop g link_count [] = (g, link_count, None)"
| "links_loop g link_count (record # rest) =
     (let props = or_empty_dict (snd record)
      in case obj_get props ''FROM_EID'' of
           Inl e \<Rightarrow> (g, link_count, Some e)
         | Inr from_eid \<Rightarrow>
             let g1 = (if truthy_val from_eid
                       then link_events g from_eid (fst record) ''from'' else g);
                 c1 = (if truthy_val from_eid then link_count + 1 else link_count)
             in case obj_get props ''TO_EID'' of
                  Inl e \<Rightarrow> (g1, c1, Some e)
                | Inr to_eid \<Rightarrow>
                    let g2 = (if truthy_val to_eid
                              then link_events g1 (fst record) to_eid ''to'' else g1);
                        c2 = (if truthy_val to_eid then c1 + 1 else c1)
                    in links_loop g2 c2 rest)"

definition create_event_links :: "graph \<Rightarrow> graph \<times> nat \<times> exn option" where
  "create_event_links g = links_loop g 0 (linked_records g)"

text \<open>
  One attempt of \<open>load_events\<close> on the Events the parser yields: Pass 1 in batches of
  \<open>batch_size\<close> (a batch is loaded as soon as it holds at least that many Events),
  then Pass 2. An exception raised by a batch ends the attempt: the later batches
  and Pass 2 do not run.
\<close>

fun batches :: "nat \<Rightarrow> event list \<Rightarrow> event list \<Rightarrow> event list list" where
  "batches batch_size batch [] = (if batch = [] then [] else [batch])"
| "batches batch_size batch (ev # rest) =
     (if length (batch @ [ev]) \<ge> batch_size
      then (batch @ [ev]) # batches batch_size [] rest
      else batches batch_size (batch @ [ev]) rest)"

fun load_batches :: "pylib \<Rightarrow> graph \<Rightarrow> event list list \<Rightarrow> graph \<times> exn option" where
  "load_batches py g [] = (g, None)"
| "load_batches py g (batch # rest) =
     (case snd (snd (load_event_batch py g batch)) of
        Some e \<Rightarrow> (fst (load_event_batch py g batch), Some e)
      | None \<Rightarrow> load_batches py (fst (load_event_batch py g batch)) rest)"

definition load_events ::
  "pylib \<Rightarrow> graph \<Rightarrow> (int \<times> row) list list \<Rightarrow> nat \<Rightarrow> graph \<times> nat \<times> exn option" where
  "load_events py g chunks batch_size =
     (let events = snd (parse py init_parser chunks)
      in case load_batches py g (batches batch_size [] events) of
           (g1, Some e) \<Rightarrow> (g1, 0, Some e)
         | (g1, None) \<Rightarrow> create_event_links g1)"

section \<open>Predicates on stores used in the statements\<close>

text \<open>
  \<open>extends g g'\<close>: the store \<open>g'\<close> holds every node of \<open>g\<close>, unchanged and at the same
  position, and has the same constraints.
\<close>

definition extends :: "graph \<Rightarrow> graph \<Rightarrow> bool" where
  "extends g g' = (take (length (nodes g)) (nodes g') = nodes g
                   \<and> length (nodes g) \<le> length (nodes g')
                   \<and> constraints g' = constraints g)"

text \<open>
  \<open>linked g l k v t eid\<close>: a node \<open>(:l {k: v})\<close> exists, and every Event with
  \<open>eventId = eid\<close> has a relationship of type \<open>t\<close> to every such node.
\<close>

definition linked :: "graph \<Rightarrow> string \<Rightarrow> string \<Rightarrow> val \<Rightarrow> string \<Rightarrow> val \<Rightarrow> bool" where
  "linked g l k v t eid =
     (0 < count_nodes g l k v
      \<and> list_all (\<lambda>e. list_all (\<lambda>a. 0 < count_rels g t e a) (match_nodes g l k v))
          (match_nodes g ''Event'' ''eventId'' eid))"

text \<open>
  The number of Actor nodes that carry the identifier of an Event's actor, and of
  Location nodes that carry the identifier of its location.
\<close>

definition actor_count :: "pylib \<Rightarrow> graph \<Rightarrow> actor option \<Rightarrow> nat" where
  "actor_count py g a =
     count_nodes g ''Actor'' ''actorId'' (S (generate_actor_id py (the (primary_name (the a)))))"

definition location_count :: "pylib \<Rightarrow> graph \<Rightarrow> location option \<Rightarrow> nat" where
  "location_count py g l =
     count_nodes g ''Location'' ''locationId''
       (S (generate_location_id py (name_or_country (the l)) (latitude (the l))
             (longitude (the l))))"

text \<open>Hexadecimal digits, as \<open>hexdigest\<close> writes them and in upper case.\<close>

definition is_hex_lower :: "char \<Rightarrow> bool" where
  "is_hex_lower c = (c \<in> set ''0123456789abcdef'')"

definition is_hex_upper :: "char \<Rightarrow> bool" where
  "is_hex_upper c = (c \<in> set ''0123456789ABCDEF'')"

text \<open>
  Python's \<open>==\<close> on floats, as IEEE 754 has it: a NaN equals nothing, the two zeros are
  equal, any other two floats are equal when they are the same; and on coordinates,
  which may be \<open>None\<close>.
\<close>

definition float_is_nan :: "pyfloat \<Rightarrow> bool" where
  "float_is_nan x = (0x7FF0000000000000 < unat x mod 2 ^ 63)"

definition float_eq :: "pyfloat \<Rightarrow> pyfloat \<Rightarrow> bool" where
  "float_eq x y =
     (\<not> float_is_nan x \<and> \<not> float_is_nan y
      \<and> (x = y \<or> (unat x mod 2 ^ 63 = 0 \<and> unat y mod 2 ^ 63 = 0)))"

definition coord_eq :: "pyfloat option \<Rightarrow> pyfloat option \<Rightarrow> bool" where
  "coord_eq a b =
     (case a of
        None \<Rightarrow> b = None
      | Some x \<Rightarrow> (case b of None \<Rightarrow> False | Some y \<Rightarrow> float_eq x y))"

section \<open>Schema validator (ingestion/schema_validator.py)\<close>

text \<open>
  The validator works on what \<open>pandas.read_csv\<close> returns. A cell of a frame is missing
  (\<open>NaN\<close>), a number, or text; numbers are modelled by the integers. A frame is the list
  of its columns, each with its name and its cells, all of the same length. Only the
  operations the validator uses are modelled, with the behaviour pandas gives them:
  \<^item> \<open>series < bound\<close> and \<open>series > bound\<close> are false at a missing cell, and raise
    \<open>TypeError\<close> when the column holds text;
  \<^item> \<open>duplicated()\<close> marks every cell that equals an earlier one (missing cells count
    as equal);
  \<^item> \<open>isna()\<close>, \<open>count()\<close> and \<open>isin\<close> raise nothing.
\<close>

datatype vcell = VNA | VNum int | VStr string

type_synonym dataframe = "(string \<times> vcell list) list"

definition is_text :: "vcell \<Rightarrow> bool" where
  "is_text c = (case c of VStr s \<Rightarrow> True | _ \<Rightarrow> False)"

definition df_col :: "dataframe \<Rightarrow> string \<Rightarrow> vcell list" where
  "df_col df name = (case map_of df name of None \<Rightarrow> [] | Some xs \<Rightarrow> xs)"

definition df_len :: "dataframe \<Rightarrow> nat" where
  "df_len df = (case df of [] \<Rightarrow> 0 | c # cs \<Rightarrow> length (snd c))"

definition series_cmp :: "(int \<Rightarrow> int \<Rightarrow> bool) \<Rightarrow> vcell list \<Rightarrow> int \<Rightarrow> exn + bool list" where
  "series_cmp cmp xs bound =
     (if list_ex is_text xs then Inl TypeError
      else Inr (map (\<lambda>c. case c of VNum x \<Rightarrow> cmp x bound | _ \<Rightarrow> False) xs))"

text \<open>\<open>len(df[(df[c] < lo) | (df[c] > hi)])\<close> for the column \<open>xs\<close>.\<close>

definition outside :: "vcell list \<Rightarrow> int \<Rightarrow> int \<Rightarrow> exn + nat" where
  "outside xs lo hi =
     bindE (series_cmp (<) xs lo) (\<lambda>below.
     bindE (series_cmp (>) xs hi) (\<lambda>above.
     Inr (length (filter (\<lambda>p. fst p \<or> snd p) (zip below above)))))"

definition duplicated :: "vcell list \<Rightarrow> bool list" where
  "duplicated xs = map (\<lambda>i. xs ! i \<in> set (take i xs)) [0..<length xs]"

definition isna_sum :: "vcell list \<Rightarrow> nat" where
  "isna_sum xs = length (filter (\<lambda>c. c = VNA) xs)"

definition series_count :: "vcell list \<Rightarrow> nat" where
  "series_count xs = length (filter (\<lambda>c. c \<noteq> VNA) xs)"

text \<open>
  The error strings. Where a string is formatted from numbers, the numbers are kept:
  a ratio as numerator and denominator. The order in which the message for duplicate
  columns lists the names is that of a Python set; the model lists each name once, in
  the order of the header.
\<close>

datatype verror =
    FieldCount nat nat
  | MissingFields "string list"
  | DuplicateColumns "string list"
  | DuplicateEventIds nat
  | InvalidYear nat
  | InvalidMonth nat
  | InvalidDay nat
  | InvalidEvType nat
  | LowCompleteness nat nat
  | CriticalMissing string nat nat
  | FileNotFound
  | ValidationException exn

definition REQUIRED_FIELDS :: "string list" where
  "REQUIRED_FIELDS = [''eventid'', ''year'', ''month'', ''day'', ''EV_TYPE'', ''NEWS_SOURCE'']"

definition EXPECTED_FIELD_COUNT :: nat where
  "EXPECTED_FIELD_COUNT = 106"

definition MIN_YEAR :: int where "MIN_YEAR = 1900"
definition MAX_YEAR :: int where "MAX_YEAR = 2100"
definition MIN_MONTH :: int where "MIN_MONTH = 1"
definition MAX_MONTH :: int where "MAX_MONTH = 12"
definition MIN_DAY :: int where "MIN_DAY = 1"
definition MAX_DAY :: int where "MAX_DAY = 31"

text \<open>Check 1: field count.\<close>

definition check_field_count :: "string list \<Rightarrow> verror list" where
  "check_field_count columns =
     (if length columns \<noteq> EXPECTED_FIELD_COUNT
      then [FieldCount EXPECTED_FIELD_COUNT (length columns)] else [])"

text \<open>Check 2: required fields.\<close>

definition check_required_fields :: "string list \<Rightarrow> verror list" where
  "check_required_fields columns =
     (let missing_fields = filter (\<lambda>f. f \<notin> set columns) REQUIRED_FIELDS
      in if missing_fields \<noteq> [] then [MissingFields missing_fields] else [])"

text \<open>Check 3: duplicate columns.\<close>

definition check_duplicate_columns :: "string list \<Rightarrow> verror list" where
  "check_duplicate_columns columns =
     (let duplicates = filter (\<lambda>col. 1 < count_list columns col) columns
      in if duplicates \<noteq> [] then [DuplicateColumns (remdups duplicates)] else [])"

text \<open>Check 4: event identifiers unique in the sample.\<close>

definition check_event_ids :: "dataframe \<Rightarrow> verror list" where
  "check_event_ids df_sample =
     (if ''eventid'' \<in> set (map fst df_sample)
      then let dup_count = length (filter id (duplicated (df_col df_sample ''eventid'')))
           in if 0 < dup_count then [DuplicateEventIds dup_count] else []
      else [])"

text \<open>Check 5: one range check, for the year, the month or the day.\<close>

definition check_range ::
  "dataframe \<Rightarrow> string \<Rightarrow> int \<Rightarrow> int \<Rightarrow> (nat \<Rightarrow> verror) \<Rightarrow> exn + verror list" where
  "check_range df_sample field lo hi message =
     (if field \<in> set (map fst df_sample)
      then bindE (outside (df_col df_sample field) lo hi) (\<lambda>invalid.
             Inr (if 0 < invalid then [message invalid] else []))
      else Inr [])"

text \<open>Check 6: event type values.\<close>

definition check_ev_type :: "dataframe \<Rightarrow> verror list" where
  "check_ev_type df_sample =
     (if ''EV_TYPE'' \<in> set (map fst df_sample)
      then let invalid_types =
                 filter (\<lambda>c. c \<noteq> VNA \<and> c \<notin> set [VNum 1, VNum 2, VNum 4, VNum 5])
                   (df_col df_sample ''EV_TYPE'')
           in if 0 < length invalid_types then [InvalidEvType (length invalid_types)] else []
      else [])"

text \<open>
  Check 7: \<open>_check_completeness\<close> gives the non-null cells and the total; the overall
  completeness is their ratio, or 0 when the frame has no cell, and is compared with
  0.01.
\<close>

definition check_completeness :: "dataframe \<Rightarrow> nat \<times> nat" where
  "check_completeness df =
     (sum_list (map (\<lambda>c. series_count (snd c)) df), df_len df * length df)"

definition check_low_completeness :: "dataframe \<Rightarrow> verror list" where
  "check_low_completeness df_sample =
     (let non_null_cells = fst (check_completeness df_sample);
          total_cells = snd (check_completeness df_sample)
      in if (if 0 < total_cells then 100 * non_null_cells < total_cells else True)
         then [LowCompleteness non_null_cells total_cells] else [])"

text \<open>
  Check 8: critical fields. The missing share is compared with 0.5; on an empty sample
  the division gives \<open>nan\<close>, which is not greater.
\<close>

definition check_critical_fields :: "dataframe \<Rightarrow> verror list" where
  "check_critical_fields df_sample =
     concat (map (\<lambda>field.
        if field \<in> set (map fst df_sample)
           \<and> df_len df_sample < 2 * isna_sum (df_col df_sample field)
        then [CriticalMissing field (isna_sum (df_col df_sample field)) (df_len df_sample)]
        else [])
       [''eventid'', ''year'', ''EV_TYPE''])"

text \<open>
  The body of \<open>validate\<close> once both reads have succeeded. An exception raised by a
  check is caught by the handler, which appends its message to the errors collected so
  far and returns.
\<close>

definition validate_frame :: "dataframe \<Rightarrow> bool \<times> verror list" where
  "validate_frame df_sample =
     (let columns = map fst df_sample;
          errors = check_field_count columns @ check_required_fields columns
                     @ check_duplicate_columns columns @ check_event_ids df_sample
      in case check_range df_sample ''year'' MIN_YEAR MAX_YEAR InvalidYear of
           Inl e \<Rightarrow> (False, errors @ [ValidationException e])
         | Inr years \<Rightarrow>
      (case check_range df_sample ''month'' MIN_MONTH MAX_MONTH InvalidMonth of
           Inl e \<Rightarrow> (False, errors @ years @ [ValidationException e])
         | Inr months \<Rightarrow>
      (case check_range df_sample ''day'' MIN_DAY MAX_DAY InvalidDay of
           Inl e \<Rightarrow> (False, errors @ years @ months @ [ValidationException e])
         | Inr days \<Rightarrow>
             let errors = errors @ years @ months @ days @ check_ev_type df_sample
                            @ check_low_completeness df_sample
                            @ check_critical_fields df_sample
             in if errors \<noteq> [] then (False, errors) else (True, []))))"

text \<open>
  \<open>validate\<close>. The file is given by what \<open>read_csv\<close> does with it: it raises, or it
  returns the frame, of which the sample is the first \<open>sample_size\<close> rows.
\<close>

definition validate :: "exn + dataframe \<Rightarrow> nat \<Rightarrow> bool \<times> verror list" where
  "validate csv sample_size =
     (case csv of
        Inl e \<Rightarrow> (False, [if e = FileNotFoundError then FileNotFound else ValidationException e])
      | Inr df \<Rightarrow> validate_frame (map (\<lambda>c. (fst c, take sample_size (snd c))) df))"

text \<open>Whether the column \<open>field\<close> of a frame is there and holds text.\<close>

definition holds_text :: "dataframe \<Rightarrow> string \<Rightarrow> bool" where
  "holds_text df field = (field \<in> set (map fst df) \<and> list_ex is_text (df_col df field))"

text \<open>The errors of a range check on a column without text.\<close>

definition range_errors :: "dataframe \<Rightarrow> string \<Rightarrow> int \<Rightarrow> int \<Rightarrow> (nat \<Rightarrow> verror) \<Rightarrow> verror list" where
  "range_errors df field lo hi message =
     (let invalid = length (filter (\<lambda>c. case c of VNum x \<Rightarrow> x < lo \<or> hi < x | _ \<Rightarrow> False)
                             (df_col df field))
      in if field \<in> set (map fst df) \<and> 0 < invalid then [message invalid] else [])"

definition is_field_count :: "verror \<Rightarrow> bool" where
  "is_field_count e = (case e of FieldCount a b \<Rightarrow> True | _ \<Rightarrow> False)"

section \<open>Properties of actor identifiers\<close>

subsection \<open>Facts about lower-casing and stripping\<close>

lemma of_char_lt: "(of_char c :: nat) < 256"
  by (metis of_char_mod_256 mod_less_divisor zero_less_numeral)

lemma is_upper_lower_char: "\<not> is_upper (lower_char c)"
  using of_char_lt[of c]
  by (auto simp: is_upper_def lower_char_def Let_def of_char_of)

lemma is_space_lower_char: "is_space (lower_char c) = is_space c"
  using of_char_lt[of c]
  by (auto simp: is_upper_def is_space_def lower_char_def Let_def of_char_of)

lemma lower_char_idem: "lower_char (lower_char c) = lower_char c"
  using is_upper_lower_char[of c] by (simp add: lower_char_def)

lemma lower_char_space: "is_space c \<Longrightarrow> lower_char c = c"
  by (auto simp: is_space_def is_upper_def lower_char_def Let_def)

lemma py_lower_idem: "py_lower (py_lower s) = py_lower s"
  by (simp add: py_lower_def lower_char_idem)

lemma py_lower_append: "py_lower (xs @ ys) = py_lower xs @ py_lower ys"
  by (simp add: py_lower_def)

lemma py_lower_spaces: "list_all is_space ws \<Longrightarrow> py_lower ws = ws"
  by (induction ws) (simp_all add: py_lower_def lower_char_space)

lemma py_lower_rev: "py_lower (rev s) = rev (py_lower s)"
  by (simp add: py_lower_def rev_map)

lemma dropWhile_space_lower:
  "dropWhile is_space (py_lower s) = py_lower (dropWhile is_space s)"
  by (induction s) (simp_all add: py_lower_def is_space_lower_char)

lemma py_strip_lower: "py_strip (py_lower s) = py_lower (py_strip s)"
  by (simp add: py_strip_def dropWhile_space_lower py_lower_rev[symmetric])

lemma dropWhile_idem: "dropWhile P (dropWhile P xs) = dropWhile P xs"
  by (induction xs) simp_all

text \<open>
  Trimming the right end of a left-trimmed string leaves a string that still starts with
  a non-space character, so trimming is idempotent.
\<close>

lemma dropWhile_rev_dropWhile:
  "dropWhile P (rev (dropWhile Q (rev (dropWhile P xs)))) = rev (dropWhile Q (rev (dropWhile P xs)))"
proof (cases "dropWhile Q (rev (dropWhile P xs))")
  case Nil
  show ?thesis unfolding Nil by simp
next
  case (Cons y ys)
  define zs where "zs = dropWhile P xs"
  have C: "dropWhile Q (rev zs) = y # ys" using Cons by (simp only: zs_def)
  have nonempty: "zs \<noteq> []" using C by auto
  then have "\<not> P (hd zs)" unfolding zs_def by (metis hd_dropWhile)
  moreover have kept: "rev (dropWhile Q (rev zs)) \<noteq> []" using C by simp
  moreover have "hd (rev (dropWhile Q (rev zs))) = hd zs"
  proof -
    obtain us where "rev zs = us @ dropWhile Q (rev zs)"
      by (metis takeWhile_dropWhile_id)
    then have "zs = rev (dropWhile Q (rev zs)) @ rev us"
      by (metis rev_append rev_rev_ident)
    then show ?thesis
      using kept by (metis hd_append2)
  qed
  ultimately show ?thesis
    unfolding zs_def by (metis dropWhile_eq_self_iff)
qed

lemma py_strip_idem: "py_strip (py_strip s) = py_strip s"
  by (simp add: py_strip_def dropWhile_rev_dropWhile dropWhile_idem)

lemma py_strip_pad:
  assumes "list_all is_space l" and "list_all is_space r"
  shows "py_strip (l @ s @ r) = py_strip s"
proof -
  have l: "\<And>ys. dropWhile is_space (l @ ys) = dropWhile is_space ys"
    by (rule dropWhile_append2) (use assms(1) in \<open>simp add: list_all_iff\<close>)
  have r: "\<And>ys. dropWhile is_space (rev r @ ys) = dropWhile is_space ys"
    by (rule dropWhile_append2) (use assms(2) in \<open>simp add: list_all_iff\<close>)
  show ?thesis
  proof (cases "list_all is_space s")
    case True
    have "dropWhile is_space (s @ r) = []"
      unfolding dropWhile_eq_Nil_conv using True assms(2) by (auto simp: list_all_iff)
    moreover have "dropWhile is_space s = []"
      unfolding dropWhile_eq_Nil_conv using True by (simp add: list_all_iff)
    ultimately show ?thesis by (simp only: py_strip_def l)
  next
    case False
    then have "dropWhile is_space s \<noteq> []" by (auto simp: list_all_iff)
    then have "dropWhile is_space (s @ r) = dropWhile is_space s @ r"
      by (metis dropWhile_append1 dropWhile_eq_Nil_conv)
    then show ?thesis by (simp add: py_strip_def l r)
  qed
qed

lemma case_pair_lower: "case_pair c d \<Longrightarrow> lower_char c = lower_char d"
  by (auto simp: case_pair_def lower_char_idem)

lemma case_pairs_lower: "list_all2 case_pair a b \<Longrightarrow> py_lower a = py_lower b"
  by (induction rule: list_all2_induct) (simp_all add: py_lower_def case_pair_lower)

lemma normalized_pad:
  assumes "list_all is_space l" and "list_all is_space r"
  shows "py_strip (py_lower (l @ s @ r)) = py_strip (py_lower s)"
  using assms by (simp add: py_lower_append py_lower_spaces py_strip_pad)

subsection \<open>Claim C7\<close>

text \<open>
  C7. The normalisation inside \<open>generate_actor_id\<close> (lower-case, then strip) is
  idempotent, so hashing a twice-normalised name gives the hash of the once-normalised
  name; and two non-empty names that differ only in letter case (\<open>a\<close> and \<open>b\<close>) and in
  leading or trailing whitespace (\<open>l1\<close>, \<open>r1\<close>, \<open>l2\<close>, \<open>r2\<close>) get the same actor id,
  whatever the digest function is.
\<close>

theorem generate_actor_id_normalization:
  assumes "list_all2 case_pair a b"
    and "list_all is_space l1" and "list_all is_space r1"
    and "list_all is_space l2" and "list_all is_space r2"
    and "l1 @ a @ r1 \<noteq> []" and "l2 @ b @ r2 \<noteq> []"
  shows "py_strip (py_lower (py_strip (py_lower x))) = py_strip (py_lower x)
       \<and> md5_hexdigest py (py_strip (py_lower (py_strip (py_lower x))))
           = md5_hexdigest py (py_strip (py_lower x))
       \<and> generate_actor_id py (l1 @ a @ r1) = generate_actor_id py (l2 @ b @ r2)"
proof -
  have idem: "py_strip (py_lower (py_strip (py_lower x))) = py_strip (py_lower x)"
    by (simp add: py_strip_lower py_strip_idem py_lower_idem)
  have "py_strip (py_lower (l1 @ a @ r1)) = py_strip (py_lower a)"
    using assms(2,3) by (rule normalized_pad)
  moreover have "py_strip (py_lower (l2 @ b @ r2)) = py_strip (py_lower b)"
    using assms(4,5) by (rule normalized_pad)
  moreover have "py_lower a = py_lower b"
    using assms(1) by (rule case_pairs_lower)
  ultimately have same: "py_strip (py_lower (l1 @ a @ r1)) = py_strip (py_lower (l2 @ b @ r2))"
    by simp
  have unfolded: "generate_actor_id py n
      = ''ACTOR_'' @ py_upper (take 12 (md5_hexdigest py (py_strip (py_lower n))))"
    if "n \<noteq> []" for n
    using that by (simp add: generate_actor_id_def Let_def)
  have "generate_actor_id py (l1 @ a @ r1) = generate_actor_id py (l2 @ b @ r2)"
    by (simp only: unfolded[OF assms(6)] unfolded[OF assms(7)] same)
  with idem show ?thesis by simp
qed

theorem generate_actor_id_normalization_witness:
  "list_all2 case_pair ''United States'' ''UNITED states''
   \<and> (\<forall>py. generate_actor_id py ''  United States '' = generate_actor_id py ''UNITED states'')"
proof -
  have h1: "list_all2 case_pair ''United States'' ''UNITED states''" by code_simp
  have h2: "list_all is_space ''  ''" by code_simp
  have h3: "list_all is_space '' ''" by code_simp
  have h4: "list_all is_space ''''" by simp
  have h5: "''  '' @ ''United States'' @ '' '' \<noteq> []" by simp
  have h6: "'''' @ ''UNITED states'' @ '''' \<noteq> []" by simp
  show ?thesis
    using h1 generate_actor_id_normalization[OF h1 h2 h3 h4 h4 h5 h6] by simp
qed

section \<open>Properties of temporal information\<close>

subsection \<open>Claim C4\<close>

text \<open>
  C4 as stated fails: with year 2000, month 13 and day 5 all present the date is
  invalid and \<open>calendar_date\<close> is absent, but \<open>precision\<close> still reports \<open>day\<close>; it does
  not fall back to a coarser field.
\<close>

theorem precision_invalid_date_counterexample:
  "\<not> valid_date 2000 13 5
   \<and> calendar_date \<lparr>year = Some 2000, month = Some 13, day = Some 5, date_type = None,
        julian_possible_start = None, julian_possible_end = None, julian_earliest = None,
        julian_latest = None, julian_start_date = None, julian_end_date = None,
        day_span = None, publication_date = None, code_date = None\<rparr> = Inr None
   \<and> precision \<lparr>year = Some 2000, month = Some 13, day = Some 5, date_type = None,
        julian_possible_start = None, julian_possible_end = None, julian_earliest = None,
        julian_latest = None, julian_start_date = None, julian_end_date = None,
        day_span = None, publication_date = None, code_date = None\<rparr> = ''day''"
  by (simp add: valid_date_def calendar_date_def precision_def truthy_int_def py_date_def c_int_def)

text \<open>
  C4 (amended). For every TemporalInfo whose year, month and day are all present, fit a
  C integer and do not form a valid calendar date, \<open>calendar_date\<close> raises nothing and
  is absent; \<open>precision\<close> is decided by presence alone: it names the finest field that is
  present and not zero, whether or not that field is in range.
\<close>

theorem calendar_date_invalid_absent:
  assumes "year t = Some y" and "month t = Some m" and "day t = Some d"
    and "c_int y" and "c_int m" and "c_int d"
    and "\<not> valid_date y m d"
  shows "calendar_date t = Inr None
       \<and> precision t = (if d \<noteq> 0 then ''day'' else if m \<noteq> 0 then ''month''
                         else if y \<noteq> 0 then ''year'' else ''unknown'')"
  using assms
  by (simp add: calendar_date_def precision_def truthy_int_def py_date_def)

theorem calendar_date_invalid_absent_witness:
  "c_int 2001 \<and> c_int 2 \<and> c_int 29 \<and> \<not> valid_date 2001 2 29
   \<and> calendar_date \<lparr>year = Some 2001, month = Some 2, day = Some 29, date_type = None,
        julian_possible_start = None, julian_possible_end = None, julian_earliest = None,
        julian_latest = None, julian_start_date = None, julian_end_date = None,
        day_span = None, publication_date = None, code_date = None\<rparr> = Inr None
   \<and> precision \<lparr>year = Some 2001, month = Some 2, day = Some 29, date_type = None,
        julian_possible_start = None, julian_possible_end = None, julian_earliest = None,
        julian_latest = None, julian_start_date = None, julian_end_date = None,
        day_span = None, publication_date = None, code_date = None\<rparr> = ''day''"
proof -
  have c: "c_int 2001" "c_int 2" "c_int 29" by (simp_all add: c_int_def)
  have nv: "\<not> valid_date 2001 2 29"
    by (simp add: valid_date_def days_in_month_def is_leap_def)
  show ?thesis
    using c nv
      calendar_date_invalid_absent[of
        "\<lparr>year = Some 2001, month = Some 2, day = Some 29, date_type = None,
          julian_possible_start = None, julian_possible_end = None, julian_earliest = None,
          julian_latest = None, julian_start_date = None, julian_end_date = None,
          day_span = None, publication_date = None, code_date = None\<rparr>" 2001 2 29]
    by simp
qed

section \<open>Properties of the CAMEO event-type parser\<close>

subsection \<open>Claim C8\<close>

text \<open>
  C8. Parsing an options file with the lines \<open>LABEL: 01= Make public statement\<close> and
  \<open>LABEL: 010= Make statement\<close> gives event types with codes \<open>01\<close> and \<open>010\<close>; the
  hierarchy built from them maps \<open>01\<close> to the child list \<open>[010]\<close>; and the event type
  \<open>010\<close> has root category \<open>01\<close>, is a cooperation type and is not a conflict type.
  The lines are given as the file iterator yields them, each ending in a line feed.
\<close>

theorem cameo_label_example:
  "map et_code (parse_event_types
      [''LABEL: 01= Make public statement'' @ [CHR 0x0A],
       ''LABEL: 010= Make statement'' @ [CHR 0x0A]]) = [''01'', ''010'']
   \<and> build_event_type_hierarchy (parse_event_types
      [''LABEL: 01= Make public statement'' @ [CHR 0x0A],
       ''LABEL: 010= Make statement'' @ [CHR 0x0A]]) = [(''01'', [''010''])]
   \<and> map_of (build_event_type_hierarchy (parse_event_types
      [''LABEL: 01= Make public statement'' @ [CHR 0x0A],
       ''LABEL: 010= Make statement'' @ [CHR 0x0A]])) ''01'' = Some [''010'']
   \<and> map root_category (parse_event_types
      [''LABEL: 01= Make public statement'' @ [CHR 0x0A],
       ''LABEL: 010= Make statement'' @ [CHR 0x0A]]) = [''01'', ''01'']
   \<and> map is_cooperation (parse_event_types
      [''LABEL: 01= Make public statement'' @ [CHR 0x0A],
       ''LABEL: 010= Make statement'' @ [CHR 0x0A]]) = [True, True]
   \<and> map is_conflict (parse_event_types
      [''LABEL: 01= Make public statement'' @ [CHR 0x0A],
       ''LABEL: 010= Make statement'' @ [CHR 0x0A]]) = [False, False]"
  by code_simp

section \<open>Properties of the record parser\<close>

lemma bindE_simps [simp]: "bindE (Inr v) f = f v" "bindE (Inl e) f = Inl e"
  by (simp_all add: bindE_def)

lemma bindE_eq_Inr: "bindE m f = Inr v \<longleftrightarrow> (\<exists>x. m = Inr x \<and> f x = Inr v)"
  by (cases m) simp_all

lemma extract_properties_id:
  "extract_properties py r ev = Inr ev' \<Longrightarrow> event_id ev' = event_id ev"
  by (auto simp: extract_properties_def bindE_eq_Inr)

lemma build_event_id: "build_event py r eid = Inr ev \<Longrightarrow> event_id ev = eid"
  unfolding build_event_def Let_def
  by (auto simp: bindE_eq_Inr dest!: extract_properties_id)

lemma parse_row_missing: "\<not> truthy_str (safe_get r ''eventid'') \<Longrightarrow> parse_row py r = Inr None"
  by (simp add: parse_row_def)

lemma parse_row_present:
  assumes "safe_get r ''eventid'' = Some eid" and "eid \<noteq> []" and "parse_row py r = Inr res"
  shows "\<exists>ev. res = Some ev \<and> event_id ev = eid"
  using assms
  by (auto simp: parse_row_def truthy_str_def bindE_eq_Inr build_event_id)

lemma parse_step_parsed:
  "parse_row py (snd ir) = Inr (Some ev) \<Longrightarrow>
   parse_step py st ir = ((fst st)\<lparr>parsed_count := parsed_count (fst st) + 1\<rparr>, snd st @ [ev])"
  by (simp add: parse_step_def)

lemma parse_step_skipped:
  "parse_row py (snd ir) = Inr None \<Longrightarrow>
   parse_step py st ir = ((fst st)\<lparr>skipped_count := skipped_count (fst st) + 1\<rparr>, snd st)"
  by (simp add: parse_step_def)

lemma parse_step_raised:
  "parse_row py (snd ir) = Inl e \<Longrightarrow>
   parse_step py st ir =
     ((log_error (fst st) (fst ir) (snd ir) e)\<lparr>skipped_count := skipped_count (fst st) + 1\<rparr>,
      snd st)"
  by (simp add: parse_step_def)

lemma parse_as_fold: "parse py ps chunks = foldl (parse_step py) (ps, []) (concat chunks)"
proof -
  have "foldl (parse_chunk py) st chunks = foldl (parse_step py) st (concat chunks)" for st
    by (induction chunks arbitrary: st) (simp_all add: parse_chunk_def)
  then show ?thesis by (simp add: parse_def)
qed

text \<open>
  The loop invariant, from any state: the parsed counter grows by the number of events
  yielded, and both counters together by the number of rows processed.
\<close>

lemma run_invariant:
  "parsed_count (fst (foldl (parse_step py) st rows)) + length (snd st)
     = parsed_count (fst st) + length (snd (foldl (parse_step py) st rows))
   \<and> parsed_count (fst (foldl (parse_step py) st rows))
       + skipped_count (fst (foldl (parse_step py) st rows))
     = parsed_count (fst st) + skipped_count (fst st) + length rows"
proof (induction rows arbitrary: st)
  case Nil
  show ?case by simp
next
  case (Cons ir rows)
  have step:
    "parsed_count (fst (parse_step py st ir)) + length (snd st)
       = parsed_count (fst st) + length (snd (parse_step py st ir))"
    "parsed_count (fst (parse_step py st ir)) + skipped_count (fst (parse_step py st ir))
       = parsed_count (fst st) + skipped_count (fst st) + 1"
    by (auto simp: parse_step_def log_error_def split: sum.splits option.splits)
  from Cons.IH[of "parse_step py st ir"] step show ?case by simp
qed

subsection \<open>Claim C9\<close>

text \<open>
  C9. Every processed row increments exactly one of \<open>parsed_count\<close> and
  \<open>skipped_count\<close>, the first together with yielding one Event; a row that raises is
  appended to the error log and counted as skipped. At every point of a run of \<open>parse\<close>
  on a new parser (after the chunks \<open>cs\<close> and the first \<open>n\<close> rows of the chunk \<open>c\<close>) the
  number of Events yielded equals \<open>parsed_count\<close>, and \<open>parsed_count + skipped_count\<close>
  equals the number of rows processed.
\<close>

theorem parse_counts_invariant:
  "(parsed_count (fst (parse_step py st ir)) = parsed_count (fst st) + 1
      \<and> skipped_count (fst (parse_step py st ir)) = skipped_count (fst st)
      \<and> length (snd (parse_step py st ir)) = length (snd st) + 1
    \<or> parsed_count (fst (parse_step py st ir)) = parsed_count (fst st)
      \<and> skipped_count (fst (parse_step py st ir)) = skipped_count (fst st) + 1
      \<and> snd (parse_step py st ir) = snd st)
   \<and> (case parse_row py (snd ir) of
         Inl e \<Rightarrow>
           errors (fst (parse_step py st ir)) = errors (fst st) @
             [\<lparr>row_index = Some (fst ir), err_event_id = safe_get (snd ir) ''eventid'',
               error_type = e\<rparr>]
           \<and> skipped_count (fst (parse_step py st ir)) = skipped_count (fst st) + 1
       | Inr res \<Rightarrow> errors (fst (parse_step py st ir)) = errors (fst st))
   \<and> parsed_count (fst (parse py init_parser (cs @ [take n c])))
       = length (snd (parse py init_parser (cs @ [take n c])))
   \<and> parsed_count (fst (parse py init_parser (cs @ [take n c])))
       + skipped_count (fst (parse py init_parser (cs @ [take n c])))
       = length (concat cs) + min n (length c)"
proof -
  have one: "parsed_count (fst (parse_step py st ir)) = parsed_count (fst st) + 1
      \<and> skipped_count (fst (parse_step py st ir)) = skipped_count (fst st)
      \<and> length (snd (parse_step py st ir)) = length (snd st) + 1
    \<or> parsed_count (fst (parse_step py st ir)) = parsed_count (fst st)
      \<and> skipped_count (fst (parse_step py st ir)) = skipped_count (fst st) + 1
      \<and> snd (parse_step py st ir) = snd st"
    by (auto simp: parse_step_def log_error_def split: sum.splits option.splits)
  have logged: "(case parse_row py (snd ir) of
         Inl e \<Rightarrow>
           errors (fst (parse_step py st ir)) = errors (fst st) @
             [\<lparr>row_index = Some (fst ir), err_event_id = safe_get (snd ir) ''eventid'',
               error_type = e\<rparr>]
           \<and> skipped_count (fst (parse_step py st ir)) = skipped_count (fst st) + 1
       | Inr res \<Rightarrow> errors (fst (parse_step py st ir)) = errors (fst st))"
    by (auto simp: parse_step_def log_error_def split: sum.splits option.splits)
  have run: "parsed_count (fst (parse py init_parser (cs @ [take n c])))
       = length (snd (parse py init_parser (cs @ [take n c])))
   \<and> parsed_count (fst (parse py init_parser (cs @ [take n c])))
       + skipped_count (fst (parse py init_parser (cs @ [take n c])))
       = length (concat cs) + min n (length c)"
    using run_invariant[of py "(init_parser, [])" "concat (cs @ [take n c])"]
    by (simp add: parse_as_fold init_parser_def min.commute)
  from one logged run show ?thesis by blast
qed

text \<open>
  The three outcomes of a row in one run, whenever \<open>int(float('inf'))\<close> raises
  \<open>OverflowError\<close> as it does in Python: the first row is parsed, the second has no
  identifier, the third raises while its \<open>linked\<close> column is converted.
\<close>

lemma parse_three_rows_example:
  assumes "int_of_float_str py ''inf'' = Inl OverflowError"
  shows "parse py init_parser
           [[(0, [(''eventid'', Text ''EID1'')]),
             (1, [(''eventid'', Text ''.'')]),
             (2, [(''eventid'', Text ''EID3''), (''linked'', Text ''inf'')])]]
         = (\<lparr>errors = [\<lparr>row_index = Some 2, err_event_id = Some ''EID3'',
                         error_type = OverflowError\<rparr>],
             parsed_count = 1, skipped_count = 2\<rparr>,
            [\<lparr>event_id = ''EID1'',
              temporal = Some \<lparr>year = None, month = None, day = None, date_type = None,
                julian_possible_start = None, julian_possible_end = None,
                julian_earliest = None, julian_latest = None, julian_start_date = None,
                julian_end_date = None, day_span = None, publication_date = None,
                code_date = None\<rparr>,
              event_type = None, pe_type = None, atk_type = None, dsa_type = None,
              news_source = None, article_id = None, initiator = None, target = None,
              victim = None, location = None, impact = None, is_quasi_event = False,
              is_state_action = False, is_coup = False, is_coup_failed = False,
              is_linked = False, link_type = None, linked_from = [], linked_to = [],
              is_posthoc = False, properties = []\<rparr>])"
proof -
  have strip1: "py_strip ''EID1'' = ''EID1''" "py_strip ''EID3'' = ''EID3''"
    "py_strip ''inf'' = ''inf''"
    by code_simp+
  show ?thesis
    using assms
    by (simp add: parse_def parse_chunk_def parse_step_def parse_row_def build_event_def
        parse_temporal_def parse_actor_def parse_location_def parse_impact_def
        extract_properties_def sparse_fields_def numeric_fields_def
        safe_int_def safe_get_def MISSING_VALUES_def try_date_def truthy_int_def
        truthy_str_def init_parser_def log_error_def strip1 Let_def)
qed

subsection \<open>Claim C6\<close>

text \<open>
  C6 as stated fails in its second half: a row whose identifier is a single
  blank is not one of the sentinels, and parsing it raises nothing, but no Event is
  yielded; the row is counted as skipped.
\<close>

theorem blank_identifier_counterexample:
  "map_of [(''eventid'', Text '' '')] ''eventid'' = Some (Text '' '')
   \<and> '' '' \<notin> set MISSING_VALUES
   \<and> (\<forall>py. parse_row py [(''eventid'', Text '' '')] = Inr None)
   \<and> (\<forall>py. parse py init_parser [[(0, [(''eventid'', Text '' '')])]]
        = (\<lparr>errors = [], parsed_count = 0, skipped_count = 1\<rparr>, []))"
proof -
  have strip: "py_strip '' '' = ''''" by code_simp
  have row: "parse_row py [(''eventid'', Text '' '')] = Inr None" for py
    by (simp add: parse_row_def safe_get_def MISSING_VALUES_def strip truthy_str_def)
  show ?thesis
    by (simp add: row parse_def parse_chunk_def parse_step_def init_parser_def
        MISSING_VALUES_def)
qed

text \<open>
  C6 (amended). A row whose identifier field is missing after sentinel normalisation
  (the column is absent, the cell is null, or it is \<open>''\<close>, \<open>.\<close>, \<open>nan\<close> or \<open>NaN\<close>)
  yields no Event and is counted as skipped, not as parsed. A row whose identifier is
  none of these, is not empty once its surrounding whitespace is trimmed, and whose
  parsing raises nothing yields exactly one Event, carrying the trimmed identifier, and
  is counted as parsed.
\<close>

theorem parse_row_identifier:
  "((map_of r ''eventid'' = None \<or> map_of r ''eventid'' = Some NA
       \<or> (\<exists>s \<in> set MISSING_VALUES. map_of r ''eventid'' = Some (Text s)))
      \<longrightarrow> parse_row py r = Inr None
          \<and> parse_step py st (i, r)
              = ((fst st)\<lparr>skipped_count := skipped_count (fst st) + 1\<rparr>, snd st))
   \<and> (\<forall>s res. map_of r ''eventid'' = Some (Text s) \<and> s \<notin> set MISSING_VALUES
         \<and> py_strip s \<noteq> [] \<and> parse_row py r = Inr res
      \<longrightarrow> (\<exists>ev. res = Some ev \<and> event_id ev = py_strip s
            \<and> parse_step py st (i, r)
                = ((fst st)\<lparr>parsed_count := parsed_count (fst st) + 1\<rparr>, snd st @ [ev])))"
proof (intro conjI impI allI)
  assume "map_of r ''eventid'' = None \<or> map_of r ''eventid'' = Some NA
       \<or> (\<exists>s \<in> set MISSING_VALUES. map_of r ''eventid'' = Some (Text s))"
  then have "safe_get r ''eventid'' = None"
    by (auto simp: safe_get_def)
  then have none: "parse_row py r = Inr None"
    by (simp add: parse_row_missing truthy_str_def)
  then show "parse_row py r = Inr None" .
  from none show "parse_step py st (i, r)
      = ((fst st)\<lparr>skipped_count := skipped_count (fst st) + 1\<rparr>, snd st)"
    by (simp add: parse_step_skipped)
next
  fix s res
  assume a: "map_of r ''eventid'' = Some (Text s) \<and> s \<notin> set MISSING_VALUES
         \<and> py_strip s \<noteq> [] \<and> parse_row py r = Inr res"
  then have "safe_get r ''eventid'' = Some (py_strip s)"
    by (simp add: safe_get_def)
  with a obtain ev where ev: "res = Some ev" "event_id ev = py_strip s"
    using parse_row_present by blast
  with a have "parse_step py st (i, r)
      = ((fst st)\<lparr>parsed_count := parsed_count (fst st) + 1\<rparr>, snd st @ [ev])"
    by (simp add: parse_step_parsed)
  with ev show "\<exists>ev. res = Some ev \<and> event_id ev = py_strip s
            \<and> parse_step py st (i, r)
                = ((fst st)\<lparr>parsed_count := parsed_count (fst st) + 1\<rparr>, snd st @ [ev])"
    by blast
qed

theorem parse_row_identifier_witness:
  "(\<forall>py. parse_row py [(''eventid'', Text ''.'')] = Inr None)
   \<and> (\<forall>py. \<exists>ev. parse_row py [(''eventid'', Text '' EID40124 '')] = Inr (Some ev)
          \<and> event_id ev = ''EID40124'')"
proof (intro conjI allI)
  fix py
  have "''.'' \<in> set MISSING_VALUES" by (simp add: MISSING_VALUES_def)
  then show "parse_row py [(''eventid'', Text ''.'')] = Inr None"
    using parse_row_identifier[of "[(''eventid'', Text ''.'')]" py "(init_parser, [])" 0] by auto
next
  fix py
  have strip: "py_strip '' EID40124 '' = ''EID40124''" by code_simp
  obtain res where res: "parse_row py [(''eventid'', Text '' EID40124 '')] = Inr res"
    by (simp add: parse_row_def build_event_def
        parse_temporal_def parse_actor_def parse_location_def parse_impact_def
        extract_properties_def sparse_fields_def numeric_fields_def
        safe_int_def safe_get_def MISSING_VALUES_def try_date_def truthy_int_def
        truthy_str_def strip Let_def)
  have "'' EID40124 '' \<notin> set MISSING_VALUES" by (simp add: MISSING_VALUES_def)
  with res strip
  show "\<exists>ev. parse_row py [(''eventid'', Text '' EID40124 '')] = Inr (Some ev)
          \<and> event_id ev = ''EID40124''"
    using parse_row_identifier[of "[(''eventid'', Text '' EID40124 '')]" py "(init_parser, [])" 0]
    by auto
qed

section \<open>Properties of the graph store\<close>

subsection \<open>Properties and node patterns\<close>

lemma map_of_dict_set: "map_of (dict_set d k v) k' = (if k' = k then Some v else map_of d k')"
  by (induction d k v rule: dict_set.induct) auto

lemma map_of_filter_key:
  "map_of (filter (\<lambda>p. fst p \<noteq> k) ps) k' = (if k' = k then None else map_of ps k')"
  by (induction ps) auto

lemma get_prop_set_prop:
  "get_prop (set_prop ps kv) k = (if k = fst kv then snd kv else get_prop ps k)"
  by (auto simp: get_prop_def set_prop_def map_of_dict_set map_of_filter_key)

lemma get_prop_set_props_other:
  "k \<notin> set (map fst kvs) \<Longrightarrow> get_prop (set_props ps kvs) k = get_prop ps k"
  unfolding set_props_def
  by (induction kvs arbitrary: ps) (auto simp: get_prop_set_prop)

lemma get_prop_single: "v \<noteq> Null \<Longrightarrow> get_prop [(k, v)] k = v"
  by (simp add: get_prop_def)

lemma count_nodes_append:
  "count_nodes (g\<lparr>nodes := nodes g @ [n]\<rparr>) l k v
     = count_nodes g l k v + (if node_matches l k v n then 1 else 0)"
  by (simp add: count_nodes_def)

lemma length_match_nodes: "length (match_nodes g l k v) = count_nodes g l k v"
proof -
  have "filter (node_matches l k v) (map ((!) (nodes g)) [0..<length (nodes g)])
      = map ((!) (nodes g)) (match_nodes g l k v)"
    by (simp add: match_nodes_def filter_map comp_def)
  then have "length (filter (node_matches l k v) (nodes g)) = length (match_nodes g l k v)"
    by (simp add: map_nth)
  then show ?thesis by (simp add: count_nodes_def)
qed

lemma match_nodes_Nil: "match_nodes g l k v = [] \<longleftrightarrow> count_nodes g l k v = 0"
  using length_match_nodes[of g l k v] by auto

lemma match_nodes_append:
  "match_nodes (g\<lparr>nodes := nodes g @ [n]\<rparr>) l k v
     = match_nodes g l k v @ (if node_matches l k v n then [length (nodes g)] else [])"
proof -
  have "filter (\<lambda>i. node_matches l k v ((nodes g @ [n]) ! i)) [0..<length (nodes g)]
      = filter (\<lambda>i. node_matches l k v (nodes g ! i)) [0..<length (nodes g)]"
    by (rule filter_cong) (auto simp: nth_append)
  then show ?thesis by (simp add: match_nodes_def)
qed

lemma match_nodes_rels [simp]: "match_nodes (g\<lparr>rels := rs\<rparr>) l k v = match_nodes g l k v"
  by (simp add: match_nodes_def)

lemma count_nodes_rels [simp]: "count_nodes (g\<lparr>rels := rs\<rparr>) l k v = count_nodes g l k v"
  by (simp add: count_nodes_def)

subsection \<open>Relationships\<close>

lemma merge_rel_nodes [simp]:
  "nodes (merge_rel t sets g sd) = nodes g" "constraints (merge_rel t sets g sd) = constraints g"
  by (simp_all add: merge_rel_def)

lemma list_ex_count: "list_ex (rel_between t s d) (rels g) \<longleftrightarrow> 0 < count_rels g t s d"
  by (auto simp: count_rels_def list_ex_iff filter_empty_conv)

lemma count_rels_update_comp:
  "length (filter (rel_between t' s' d' \<circ>
      (\<lambda>r. if rel_between t s d r then r\<lparr>rprops := f r\<rparr> else r)) rs)
   = length (filter (rel_between t' s' d') rs)"
  by (induction rs) (auto simp: rel_between_def)

lemma count_rels_merge_rel:
  "count_rels (merge_rel t sets g sd) t' s' d'
     = (if t' = t \<and> s' = fst sd \<and> d' = snd sd \<and> count_rels g t' s' d' = 0 then 1
        else count_rels g t' s' d')"
proof (cases "list_ex (rel_between t (fst sd) (snd sd)) (rels g)")
  case True
  then have "0 < count_rels g t (fst sd) (snd sd)" by (simp add: list_ex_count)
  moreover have "count_rels (merge_rel t sets g sd) t' s' d' = count_rels g t' s' d'"
    using True by (simp add: merge_rel_def count_rels_def count_rels_update_comp)
  ultimately show ?thesis by auto
next
  case False
  then have zero: "count_rels g t (fst sd) (snd sd) = 0" by (simp add: list_ex_count)
  have "count_rels (merge_rel t sets g sd) t' s' d'
      = count_rels g t' s' d' + (if t' = t \<and> s' = fst sd \<and> d' = snd sd then 1 else 0)"
    using False by (auto simp: merge_rel_def count_rels_def rel_between_def)
  with zero show ?thesis by auto
qed

lemma foldl_merge_rel_nodes [simp]:
  "nodes (foldl (merge_rel t sets) g pairs) = nodes g"
  "constraints (foldl (merge_rel t sets) g pairs) = constraints g"
  by (induction pairs arbitrary: g) simp_all

lemma count_rels_foldl_merge_rel:
  "count_rels (foldl (merge_rel t sets) g pairs) t' s' d'
     = (if t' = t \<and> (s', d') \<in> set pairs \<and> count_rels g t' s' d' = 0 then 1
        else count_rels g t' s' d')"
proof (induction pairs arbitrary: g)
  case Nil
  show ?case by simp
next
  case (Cons sd pairs)
  show ?case
    by (cases sd) (auto simp: Cons.IH count_rels_merge_rel)
qed

subsection \<open>Merging a node\<close>

lemma merge_node_fst:
  "fst (merge_node g l k v oc)
     = (if count_nodes g l k v = 0
        then g\<lparr>nodes := nodes g @ [\<lparr>nlabel = l, nprops = set_props [(k, v)] oc\<rparr>]\<rparr>
        else g)"
  by (simp add: merge_node_def match_nodes_Nil)

lemma merged_node_matches:
  assumes "v \<noteq> Null" and "k \<notin> set (map fst oc)"
  shows "node_matches l k v' \<lparr>nlabel = l, nprops = set_props [(k, v)] oc\<rparr> \<longleftrightarrow> v' = v"
  using assms by (auto simp: node_matches_def get_prop_set_props_other get_prop_single)

lemma merge_node_snd:
  assumes "v \<noteq> Null" and "k \<notin> set (map fst oc)"
  shows "snd (merge_node g l k v oc) = match_nodes (fst (merge_node g l k v oc)) l k v"
  using assms
  by (auto simp: merge_node_def match_nodes_append merged_node_matches)

lemma merge_node_bound_nonempty:
  assumes "v \<noteq> Null" and "k \<notin> set (map fst oc)"
  shows "0 < count_nodes (fst (merge_node g l k v oc)) l k v"
  using assms by (auto simp: merge_node_fst count_nodes_append merged_node_matches)

text \<open>What a merge changes for another pattern.\<close>

lemma merge_node_count_other:
  assumes "v \<noteq> Null" and "k \<notin> set (map fst oc)"
  shows "count_nodes (fst (merge_node g l k v oc)) l k v'
     = (if v' = v \<and> count_nodes g l k v = 0 then 1 else count_nodes g l k v')"
  using assms by (auto simp: merge_node_fst count_nodes_append merged_node_matches)

lemma merge_node_count_label:
  "l' \<noteq> l \<Longrightarrow> count_nodes (fst (merge_node g l k v oc)) l' k' v' = count_nodes g l' k' v'"
  by (auto simp: merge_node_fst count_nodes_append node_matches_def)

lemma merge_node_match_label:
  "l' \<noteq> l \<Longrightarrow> match_nodes (fst (merge_node g l k v oc)) l' k' v' = match_nodes g l' k' v'"
  by (auto simp: merge_node_fst match_nodes_append node_matches_def)

lemma merge_node_match_other:
  assumes "v \<noteq> Null" and "k \<notin> set (map fst oc)" and "0 < count_nodes g l k v'"
  shows "match_nodes (fst (merge_node g l k v oc)) l k v' = match_nodes g l k v'"
  using assms by (auto simp: merge_node_fst match_nodes_append merged_node_matches)

lemma merge_node_rels [simp]:
  "rels (fst (merge_node g l k v oc)) = rels g"
  "constraints (fst (merge_node g l k v oc)) = constraints g"
  by (simp_all add: merge_node_def)

lemma count_rels_nodes [simp]: "count_rels (g\<lparr>nodes := ns\<rparr>) t s d = count_rels g t s d"
  by (simp add: count_rels_def)

lemma count_rels_merge_node [simp]:
  "count_rels (fst (merge_node g l k v oc)) t s d = count_rels g t s d"
  by (simp add: count_rels_def)

subsection \<open>The merge-and-link statement\<close>

lemma merge_and_link_nodes:
  "nodes (merge_and_link g l k v oc eid t sets) = nodes (fst (merge_node g l k v oc))"
  "constraints (merge_and_link g l k v oc eid t sets) = constraints g"
  by (simp_all add: merge_and_link_def split_beta Let_def)

lemma merge_and_link_count_nodes [simp]:
  "count_nodes (merge_and_link g l k v oc eid t sets) l' k' v'
     = count_nodes (fst (merge_node g l k v oc)) l' k' v'"
  by (simp add: count_nodes_def merge_and_link_nodes)

lemma merge_and_link_match_nodes [simp]:
  "match_nodes (merge_and_link g l k v oc eid t sets) l' k' v'
     = match_nodes (fst (merge_node g l k v oc)) l' k' v'"
  by (simp add: match_nodes_def merge_and_link_nodes)

lemma merge_and_link_count_rels:
  assumes "v \<noteq> Null" and "k \<notin> set (map fst oc)"
  shows "count_rels (merge_and_link g l k v oc eid t sets) t' s' d'
     = (if t' = t
          \<and> s' \<in> set (match_nodes (fst (merge_node g l k v oc)) ''Event'' ''eventId'' eid)
          \<and> d' \<in> set (match_nodes (fst (merge_node g l k v oc)) l k v)
          \<and> count_rels g t' s' d' = 0
        then 1 else count_rels g t' s' d')"
  using merge_node_snd[OF assms, of g l]
  by (auto simp: merge_and_link_def split_beta Let_def count_rels_foldl_merge_rel)

section \<open>Properties of the graph loader\<close>

subsection \<open>Stores that only grow\<close>

lemma extends_refl [simp]: "extends g g"
  by (simp add: extends_def)

lemma extends_trans:
  assumes "extends g g'" and "extends g' g''"
  shows "extends g g''"
proof -
  have le: "length (nodes g) \<le> length (nodes g')" "length (nodes g') \<le> length (nodes g'')"
    using assms by (simp_all add: extends_def)
  have "take (length (nodes g)) (nodes g'')
      = take (length (nodes g)) (take (length (nodes g')) (nodes g''))"
    using le(1) by (simp add: min.absorb1)
  also have "\<dots> = take (length (nodes g)) (nodes g')"
    using assms(2) by (simp add: extends_def)
  also have "\<dots> = nodes g"
    using assms(1) by (simp add: extends_def)
  finally show ?thesis
    using le assms by (simp add: extends_def)
qed

lemma extends_append [simp]: "extends g (g\<lparr>nodes := nodes g @ ns\<rparr>)"
  by (simp add: extends_def)

lemma extends_rels [simp]: "extends g (g\<lparr>rels := rs\<rparr>)"
  by (simp add: extends_def)

lemma extends_same_nodes:
  "nodes g' = nodes g \<Longrightarrow> constraints g' = constraints g \<Longrightarrow> extends g g'"
  by (simp add: extends_def)

lemma extends_count: 
  assumes "extends g g'"
  shows "count_nodes g l k v \<le> count_nodes g' l k v"
proof -
  have "nodes g' = nodes g @ drop (length (nodes g)) (nodes g')"
    using assms by (metis append_take_drop_id extends_def)
  then have "filter (node_matches l k v) (nodes g')
      = filter (node_matches l k v) (nodes g)
        @ filter (node_matches l k v) (drop (length (nodes g)) (nodes g'))"
    by (metis filter_append)
  then show ?thesis by (simp add: count_nodes_def)
qed

lemma extends_violates:
  assumes "extends g g'" and "violates g n"
  shows "violates g' n"
proof -
  obtain c where c: "c \<in> set (constraints g)" "fst c = nlabel n"
      "get_prop (nprops n) (snd c) \<noteq> Null"
      "0 < count_nodes g (fst c) (snd c) (get_prop (nprops n) (snd c))"
    using assms(2) unfolding violates_def list_ex_iff by blast
  have "0 < count_nodes g' (fst c) (snd c) (get_prop (nprops n) (snd c))"
    using c(4) extends_count[OF assms(1), of "fst c" "snd c" "get_prop (nprops n) (snd c)"]
    by simp
  moreover have "c \<in> set (constraints g')"
    using c(1) assms(1) by (simp add: extends_def)
  ultimately show ?thesis
    unfolding violates_def list_ex_iff using c(2,3) by blast
qed

lemma extends_merge_node [simp]: "extends g (fst (merge_node g l k v oc))"
  by (simp add: merge_node_fst)

lemma extends_merge_and_link [simp]: "extends g (merge_and_link g l k v oc eid t sets)"
  by (rule extends_trans[OF extends_merge_node[of g l k v oc]])
     (simp add: extends_same_nodes merge_and_link_nodes)

lemma extends_link_actor [simp]: "extends g (link_actor py g ev a t sets)"
  by (simp add: link_actor_def)

lemma extends_create_actor_relationships [simp]:
  "extends g (create_actor_relationships py g ev)"
proof -
  define g1 where "g1 = (if actor_present (initiator ev)
                then link_actor py g ev (the (initiator ev)) ''INITIATED_BY''
                       (initiator_sets (the (initiator ev)))
                else g)"
  define g2 where "g2 = (if actor_present (target ev)
                then link_actor py g1 ev (the (target ev)) ''TARGETED''
                       (target_sets (the (target ev)))
                else g1)"
  define g3 where "g3 = (if actor_present (victim ev)
         then link_actor py g2 ev (the (victim ev)) ''VICTIMIZED''
                (target_sets (the (victim ev)))
         else g2)"
  have "extends g g1" "extends g1 g2" "extends g2 g3"
    by (simp_all add: g1_def g2_def g3_def)
  then have "extends g g3" by (blast intro: extends_trans)
  moreover have "create_actor_relationships py g ev = g3"
    by (simp add: create_actor_relationships_def g1_def g2_def g3_def Let_def)
  ultimately show ?thesis by simp
qed

lemma extends_create_location_relationship [simp]:
  "extends g (create_location_relationship py g ev)"
  by (simp add: create_location_relationship_def Let_def)

lemma extends_link_event_type [simp]: "extends g (link_event_type g ev)"
  by (simp add: link_event_type_def Let_def extends_same_nodes)

lemma extends_create_node: "create_node g n = Inr g1 \<Longrightarrow> extends g g1"
  by (auto simp: create_node_def split: if_splits)

subsection \<open>Node counts through Pass 1\<close>

lemma actor_key_fresh: "''actorId'' \<notin> set (map fst (actor_on_create a))"
  by (simp add: actor_on_create_def)

lemma location_key_fresh: "''locationId'' \<notin> set (map fst (location_on_create l))"
  by (simp add: location_on_create_def)

lemma S_not_Null: "S x \<noteq> Null"
  by simp

lemma link_actor_count_actor:
  "count_nodes (link_actor py g ev a t sets) ''Actor'' ''actorId'' v
     = (if v = S (generate_actor_id py (the (primary_name a)))
          \<and> count_nodes g ''Actor'' ''actorId'' (S (generate_actor_id py (the (primary_name a)))) = 0
        then 1 else count_nodes g ''Actor'' ''actorId'' v)"
  using merge_node_count_other[OF S_not_Null actor_key_fresh, of g "''Actor''"
      "generate_actor_id py (the (primary_name a))" a v]
  by (simp add: link_actor_def)

lemma link_actor_count_label:
  "l \<noteq> ''Actor'' \<Longrightarrow> count_nodes (link_actor py g ev a t sets) l k v = count_nodes g l k v"
  by (simp add: link_actor_def merge_node_count_label)

lemma link_actor_unique:
  assumes "\<forall>v. count_nodes g ''Actor'' ''actorId'' v \<le> 1"
  shows "\<forall>v. count_nodes (link_actor py g ev a t sets) ''Actor'' ''actorId'' v \<le> 1"
  using assms by (simp add: link_actor_count_actor)

lemma link_actor_stored:
  "0 < count_nodes (link_actor py g ev a t sets) ''Actor'' ''actorId''
         (S (generate_actor_id py (the (primary_name a))))"
  by (simp add: link_actor_count_actor)

text \<open>The three statements of the actor step, named.\<close>

lemma car_steps:
  obtains g1 g2 where
    "g1 = (if actor_present (initiator ev)
           then link_actor py g ev (the (initiator ev)) ''INITIATED_BY''
                  (initiator_sets (the (initiator ev)))
           else g)"
    "g2 = (if actor_present (target ev)
           then link_actor py g1 ev (the (target ev)) ''TARGETED''
                  (target_sets (the (target ev)))
           else g1)"
    "create_actor_relationships py g ev
       = (if actor_present (victim ev)
          then link_actor py g2 ev (the (victim ev)) ''VICTIMIZED''
                 (target_sets (the (victim ev)))
          else g2)"
  by (simp add: create_actor_relationships_def Let_def)

lemma car_count_label:
  "l \<noteq> ''Actor'' \<Longrightarrow> count_nodes (create_actor_relationships py g ev) l k v = count_nodes g l k v"
  by (simp add: create_actor_relationships_def Let_def link_actor_count_label)

lemma car_unique:
  assumes "\<forall>v. count_nodes g ''Actor'' ''actorId'' v \<le> 1"
  shows "\<forall>v. count_nodes (create_actor_relationships py g ev) ''Actor'' ''actorId'' v \<le> 1"
proof -
  obtain g1 g2 where s:
    "g1 = (if actor_present (initiator ev)
           then link_actor py g ev (the (initiator ev)) ''INITIATED_BY''
                  (initiator_sets (the (initiator ev)))
           else g)"
    "g2 = (if actor_present (target ev)
           then link_actor py g1 ev (the (target ev)) ''TARGETED''
                  (target_sets (the (target ev)))
           else g1)"
    "create_actor_relationships py g ev
       = (if actor_present (victim ev)
          then link_actor py g2 ev (the (victim ev)) ''VICTIMIZED''
                 (target_sets (the (victim ev)))
          else g2)"
    by (rule car_steps)
  have u1: "\<forall>v. count_nodes g1 ''Actor'' ''actorId'' v \<le> 1"
    unfolding s(1) using assms link_actor_unique[OF assms] by (cases "actor_present (initiator ev)") simp_all
  have u2: "\<forall>v. count_nodes g2 ''Actor'' ''actorId'' v \<le> 1"
    unfolding s(2) using u1 link_actor_unique[OF u1] by (cases "actor_present (target ev)") simp_all
  show ?thesis
    unfolding s(3) using u2 link_actor_unique[OF u2] by (cases "actor_present (victim ev)") simp_all
qed

text \<open>After the actor step every role that is present has its Actor node.\<close>

lemma car_stored:
  "actor_present (initiator ev) \<Longrightarrow>
     0 < count_nodes (create_actor_relationships py g ev) ''Actor'' ''actorId''
           (S (generate_actor_id py (the (primary_name (the (initiator ev))))))"
  "actor_present (target ev) \<Longrightarrow>
     0 < count_nodes (create_actor_relationships py g ev) ''Actor'' ''actorId''
           (S (generate_actor_id py (the (primary_name (the (target ev))))))"
  "actor_present (victim ev) \<Longrightarrow>
     0 < count_nodes (create_actor_relationships py g ev) ''Actor'' ''actorId''
           (S (generate_actor_id py (the (primary_name (the (victim ev))))))"
proof -
  obtain g1 g2 where s:
    "g1 = (if actor_present (initiator ev)
           then link_actor py g ev (the (initiator ev)) ''INITIATED_BY''
                  (initiator_sets (the (initiator ev)))
           else g)"
    "g2 = (if actor_present (target ev)
           then link_actor py g1 ev (the (target ev)) ''TARGETED''
                  (target_sets (the (target ev)))
           else g1)"
    "create_actor_relationships py g ev
       = (if actor_present (victim ev)
          then link_actor py g2 ev (the (victim ev)) ''VICTIMIZED''
                 (target_sets (the (victim ev)))
          else g2)"
    by (rule car_steps)
  have e12: "extends g1 g2" by (simp add: s(2))
  have e23: "extends g2 (create_actor_relationships py g ev)" by (simp add: s(3))
  have e13: "extends g1 (create_actor_relationships py g ev)"
    using e12 e23 by (rule extends_trans)
  {
    assume "actor_present (initiator ev)"
    then have "0 < count_nodes g1 ''Actor'' ''actorId''
           (S (generate_actor_id py (the (primary_name (the (initiator ev))))))"
      by (simp add: s(1) link_actor_stored)
    with extends_count[OF e13, of "''Actor''" "''actorId''"
        "S (generate_actor_id py (the (primary_name (the (initiator ev)))))"]
    show "0 < count_nodes (create_actor_relationships py g ev) ''Actor'' ''actorId''
           (S (generate_actor_id py (the (primary_name (the (initiator ev))))))"
      by linarith
  }
  {
    assume "actor_present (target ev)"
    then have "0 < count_nodes g2 ''Actor'' ''actorId''
           (S (generate_actor_id py (the (primary_name (the (target ev))))))"
      by (simp add: s(2) link_actor_stored)
    with extends_count[OF e23, of "''Actor''" "''actorId''"
        "S (generate_actor_id py (the (primary_name (the (target ev)))))"]
    show "0 < count_nodes (create_actor_relationships py g ev) ''Actor'' ''actorId''
           (S (generate_actor_id py (the (primary_name (the (target ev))))))"
      by linarith
  }
  {
    assume "actor_present (victim ev)"
    then show "0 < count_nodes (create_actor_relationships py g ev) ''Actor'' ''actorId''
           (S (generate_actor_id py (the (primary_name (the (victim ev))))))"
      by (simp add: s(3) link_actor_stored)
  }
qed

lemma clr_count_location:
  "count_nodes (create_location_relationship py g ev) ''Location'' ''locationId'' v
     = (if location_present (location ev)
          \<and> v = S (generate_location_id py (name_or_country (the (location ev)))
                    (latitude (the (location ev))) (longitude (the (location ev))))
          \<and> count_nodes g ''Location'' ''locationId'' v = 0
        then 1 else count_nodes g ''Location'' ''locationId'' v)"
  using merge_node_count_other[OF S_not_Null location_key_fresh, of g "''Location''"
      "generate_location_id py (name_or_country (the (location ev)))
         (latitude (the (location ev))) (longitude (the (location ev)))" "the (location ev)" v]
  by (auto simp: create_location_relationship_def Let_def)

lemma clr_count_label:
  "l \<noteq> ''Location'' \<Longrightarrow>
   count_nodes (create_location_relationship py g ev) l k v = count_nodes g l k v"
  by (simp add: create_location_relationship_def Let_def merge_node_count_label)

lemma link_event_type_nodes [simp]:
  "nodes (link_event_type g ev) = nodes g"
  "constraints (link_event_type g ev) = constraints g"
  by (simp_all add: link_event_type_def Let_def)

lemma link_event_type_count [simp]:
  "count_nodes (link_event_type g ev) l k v = count_nodes g l k v"
  by (simp add: count_nodes_def)

subsection \<open>Creating Event nodes under the uniqueness constraint\<close>

lemma event_node_label [simp]: "nlabel (event_node py ev) = ''Event''"
  by (simp add: event_node_def)

lemma event_node_id [simp]: "get_prop (nprops (event_node py ev)) ''eventId'' = S (event_id ev)"
  by (simp add: event_node_def set_props_def get_prop_set_prop)

lemma event_node_matches:
  "node_matches ''Event'' ''eventId'' v (event_node py ev) \<longleftrightarrow> v = S (event_id ev)"
  by (auto simp: node_matches_def)

lemma event_node_other_label:
  "l \<noteq> ''Event'' \<Longrightarrow> \<not> node_matches l k v (event_node py ev)"
  by (simp add: node_matches_def)

lemma create_event_node_Inl:
  "create_event_node py g ev = Inl e \<Longrightarrow> e = ConstraintError \<and> violates g (event_node py ev)"
  by (auto simp: create_event_node_def create_node_def split: if_splits)

lemma create_event_node_Inr:
  "create_event_node py g ev = Inr g1 \<Longrightarrow>
     g1 = g\<lparr>nodes := nodes g @ [event_node py ev]\<rparr> \<and> \<not> violates g (event_node py ev)"
  by (auto simp: create_event_node_def create_node_def split: if_splits)

lemma create_event_node_violates:
  "violates g (event_node py ev) \<Longrightarrow> create_event_node py g ev = Inl ConstraintError"
  by (simp add: create_event_node_def create_node_def)

lemma violates_event_iff:
  assumes "(''Event'', ''eventId'') \<in> set (constraints g)"
    and "0 < count_nodes g ''Event'' ''eventId'' (S (event_id ev))"
  shows "violates g (event_node py ev)"
  unfolding violates_def list_ex_iff
  using assms by (intro bexI[of _ "(''Event'', ''eventId'')"]) simp_all

lemma violates_after_create:
  assumes "(''Event'', ''eventId'') \<in> set (constraints g)"
  shows "violates (g\<lparr>nodes := nodes g @ [event_node py ev]\<rparr>) (event_node py ev)"
  by (rule violates_event_iff) (use assms in \<open>simp_all add: count_nodes_append event_node_matches\<close>)

lemma extends_constraints: "extends g g' \<Longrightarrow> constraints g' = constraints g"
  by (simp add: extends_def)

subsection \<open>Uniqueness of nodes through Pass 1\<close>

lemma pass1_tail_count:
  assumes "l \<noteq> ''Actor''" and "l \<noteq> ''Location''"
  shows "count_nodes (link_event_type
            (create_location_relationship py (create_actor_relationships py g ev) ev) ev) l k v
       = count_nodes g l k v"
  using assms by (simp add: clr_count_label car_count_label)

lemma not_violates_event:
  assumes "(''Event'', ''eventId'') \<in> set (constraints g)"
    and "\<not> violates g (event_node py ev)"
  shows "count_nodes g ''Event'' ''eventId'' (S (event_id ev)) = 0"
  using assms violates_event_iff[of g ev py] by auto

subsection \<open>The statements of one Event\<close>

lemma run_event_Inl:
  "run_event py g ev = Inl e \<Longrightarrow> e = ConstraintError \<and> violates g (event_node py ev)"
  by (cases "create_event_node py g ev")
     (auto simp: run_event_def bindE_def dest: create_event_node_Inl)

lemma run_event_Inr:
  "run_event py g ev = Inr g' \<Longrightarrow>
     g' = link_event_type
            (create_location_relationship py
               (create_actor_relationships py (g\<lparr>nodes := nodes g @ [event_node py ev]\<rparr>) ev) ev) ev
     \<and> \<not> violates g (event_node py ev)"
  by (cases "create_event_node py g ev")
     (auto simp: run_event_def bindE_def dest: create_event_node_Inr)

lemma run_event_violates:
  "violates g (event_node py ev) \<Longrightarrow> run_event py g ev = Inl ConstraintError"
  by (simp add: run_event_def bindE_def create_event_node_violates)

lemma extends_run_event:
  assumes "run_event py g ev = Inr g'"
  shows "extends g g'"
proof -
  define g1 where "g1 = g\<lparr>nodes := nodes g @ [event_node py ev]\<rparr>"
  have g': "g' = link_event_type
       (create_location_relationship py (create_actor_relationships py g1 ev) ev) ev"
    using run_event_Inr[OF assms] by (simp add: g1_def)
  have "extends g g1"
    by (simp add: g1_def extends_def)
  moreover have "extends g1 (create_actor_relationships py g1 ev)" by simp
  moreover have "extends (create_actor_relationships py g1 ev)
      (create_location_relationship py (create_actor_relationships py g1 ev) ev)" by simp
  moreover have "extends (create_location_relationship py (create_actor_relationships py g1 ev) ev)
      (link_event_type
       (create_location_relationship py (create_actor_relationships py g1 ev) ev) ev)" by simp
  ultimately show ?thesis
    unfolding g' by (blast intro: extends_trans)
qed

lemma run_event_unique_actor:
  assumes "run_event py g ev = Inr g'"
    and "\<forall>v. count_nodes g ''Actor'' ''actorId'' v \<le> 1"
  shows "\<forall>v. count_nodes g' ''Actor'' ''actorId'' v \<le> 1"
proof -
  define g1 where "g1 = g\<lparr>nodes := nodes g @ [event_node py ev]\<rparr>"
  have g': "g' = link_event_type
       (create_location_relationship py (create_actor_relationships py g1 ev) ev) ev"
    using run_event_Inr[OF assms(1)] by (simp add: g1_def)
  have "\<forall>v. count_nodes g1 ''Actor'' ''actorId'' v \<le> 1"
    using assms(2) by (simp add: g1_def count_nodes_append event_node_other_label)
  then have "\<forall>v. count_nodes (create_actor_relationships py g1 ev) ''Actor'' ''actorId'' v \<le> 1"
    by (rule car_unique)
  then show ?thesis
    by (simp add: g' clr_count_label)
qed

lemma run_event_unique_location:
  assumes "run_event py g ev = Inr g'"
    and "\<forall>v. count_nodes g ''Location'' ''locationId'' v \<le> 1"
  shows "\<forall>v. count_nodes g' ''Location'' ''locationId'' v \<le> 1"
proof -
  define g1 where "g1 = g\<lparr>nodes := nodes g @ [event_node py ev]\<rparr>"
  have g': "g' = link_event_type
       (create_location_relationship py (create_actor_relationships py g1 ev) ev) ev"
    using run_event_Inr[OF assms(1)] by (simp add: g1_def)
  have "\<forall>v. count_nodes g1 ''Location'' ''locationId'' v \<le> 1"
    using assms(2) by (simp add: g1_def count_nodes_append event_node_other_label)
  then have "\<forall>v. count_nodes (create_actor_relationships py g1 ev) ''Location'' ''locationId'' v \<le> 1"
    by (simp add: car_count_label)
  then show ?thesis
    by (simp add: g' clr_count_location)
qed

text \<open>Under the constraint a created Event is the only node with its identifier.\<close>

lemma run_event_event_count:
  assumes "run_event py g ev = Inr g'"
    and "(''Event'', ''eventId'') \<in> set (constraints g)"
  shows "count_nodes g' ''Event'' ''eventId'' v
           = (if v = S (event_id ev) then 1 else count_nodes g ''Event'' ''eventId'' v)"
proof -
  define g1 where "g1 = g\<lparr>nodes := nodes g @ [event_node py ev]\<rparr>"
  have g': "g' = link_event_type
       (create_location_relationship py (create_actor_relationships py g1 ev) ev) ev"
    and nv: "\<not> violates g (event_node py ev)"
    using run_event_Inr[OF assms(1)] by (simp_all add: g1_def)
  have zero: "count_nodes g ''Event'' ''eventId'' (S (event_id ev)) = 0"
    using assms(2) nv by (rule not_violates_event)
  have "count_nodes g' ''Event'' ''eventId'' v = count_nodes g1 ''Event'' ''eventId'' v"
    by (simp add: g' clr_count_label car_count_label)
  then show ?thesis
    using zero by (simp add: g1_def count_nodes_append event_node_matches)
qed

lemma run_event_stored:
  assumes "run_event py g ev = Inr g'"
  shows "actor_present (initiator ev) \<Longrightarrow> 0 < actor_count py g' (initiator ev)"
    and "actor_present (target ev) \<Longrightarrow> 0 < actor_count py g' (target ev)"
    and "actor_present (victim ev) \<Longrightarrow> 0 < actor_count py g' (victim ev)"
    and "location_present (location ev) \<Longrightarrow> 0 < location_count py g' (location ev)"
  using run_event_Inr[OF assms]
  by (simp_all add: actor_count_def location_count_def clr_count_label clr_count_location
        car_stored)

subsection \<open>The loop over a batch\<close>

lemma load_event_failed:
  "fst (snd st) = Some e \<Longrightarrow>
   load_event py st ev = (fst st, Some e, snd (snd st) @ [(event_id ev, TransactionError)])"
  by (simp add: load_event_def)

lemma load_event_raises:
  "fst (snd st) = None \<Longrightarrow> run_event py (fst st) ev = Inl e \<Longrightarrow>
   load_event py st ev = (fst st, Some e, snd (snd st) @ [(event_id ev, e)])"
  by (simp add: load_event_def)

lemma load_event_runs:
  "fst (snd st) = None \<Longrightarrow> run_event py (fst st) ev = Inr g1 \<Longrightarrow>
   load_event py st ev = (g1, None, snd (snd st))"
  by (simp add: load_event_def)

text \<open>Once the transaction has failed, every later Event is logged and nothing else happens.\<close>

lemma foldl_load_event_failed:
  "fst (snd st) = Some e \<Longrightarrow>
   foldl (load_event py) st evs
     = (fst st, Some e, snd (snd st) @ map (\<lambda>ev. (event_id ev, TransactionError)) evs)"
proof (induction evs arbitrary: st)
  case Nil
  then show ?case by (cases st) auto
next
  case (Cons x evs)
  have "load_event py st x = (fst st, Some e, snd (snd st) @ [(event_id x, TransactionError)])"
    using Cons.prems by (rule load_event_failed)
  then show ?case
    using Cons.IH[of "load_event py st x"] by simp
qed

text \<open>A loop that ends with the transaction alive has run the statements of every Event.\<close>

lemma load_event_alive:
  assumes "fst (snd (load_event py st ev)) = None"
  shows "fst (snd st) = None"
    and "run_event py (fst st) ev = Inr (fst (load_event py st ev))"
    and "snd (snd (load_event py st ev)) = snd (snd st)"
  using assms
  by (auto simp: load_event_def split: option.splits sum.splits)

lemma foldl_load_event_alive:
  assumes "fst (snd (foldl (load_event py) st (x # evs))) = None"
  shows "fst (snd (load_event py st x)) = None"
proof (rule ccontr)
  assume "fst (snd (load_event py st x)) \<noteq> None"
  then obtain e where "fst (snd (load_event py st x)) = Some e" by auto
  then have "fst (snd (foldl (load_event py) (load_event py st x) evs)) = Some e"
    by (simp add: foldl_load_event_failed)
  then show False using assms by simp
qed

lemma extends_foldl_load_event:
  "extends (fst st) (fst (foldl (load_event py) st evs))"
proof (induction evs arbitrary: st)
  case Nil
  show ?case by simp
next
  case (Cons x evs)
  have "extends (fst st) (fst (load_event py st x))"
    by (auto simp: load_event_def extends_run_event split: option.splits sum.splits)
  then show ?case
    using Cons[of "load_event py st x"] by (auto intro: extends_trans)
qed

lemma foldl_load_unique:
  assumes "\<forall>v. count_nodes (fst st) ''Actor'' ''actorId'' v \<le> 1"
    and "\<forall>v. count_nodes (fst st) ''Location'' ''locationId'' v \<le> 1"
  shows "(\<forall>v. count_nodes (fst (foldl (load_event py) st evs)) ''Actor'' ''actorId'' v \<le> 1)
       \<and> (\<forall>v. count_nodes (fst (foldl (load_event py) st evs)) ''Location'' ''locationId'' v \<le> 1)"
  using assms
proof (induction evs arbitrary: st)
  case Nil
  then show ?case by simp
next
  case (Cons x evs)
  have a: "\<forall>v. count_nodes (fst (load_event py st x)) ''Actor'' ''actorId'' v \<le> 1"
    using Cons.prems(1) run_event_unique_actor[of py "fst st" x]
    by (auto simp: load_event_def split: option.splits sum.splits)
  have l: "\<forall>v. count_nodes (fst (load_event py st x)) ''Location'' ''locationId'' v \<le> 1"
    using Cons.prems(2) run_event_unique_location[of py "fst st" x]
    by (auto simp: load_event_def split: option.splits sum.splits)
  show ?case
    using Cons.IH[OF a l] by simp
qed

text \<open>
  What a loop that ends alive leaves for each of its Events: one Event node with its
  identifier, and nodes for its actors and its location.
\<close>

lemma foldl_load_stored:
  assumes "fst (snd (foldl (load_event py) st evs)) = None"
    and "(''Event'', ''eventId'') \<in> set (constraints (fst st))"
    and "ev \<in> set evs"
  shows "count_nodes (fst (foldl (load_event py) st evs)) ''Event'' ''eventId''
           (S (event_id ev)) = 1
       \<and> (actor_present (initiator ev) \<longrightarrow>
            0 < actor_count py (fst (foldl (load_event py) st evs)) (initiator ev))
       \<and> (actor_present (target ev) \<longrightarrow>
            0 < actor_count py (fst (foldl (load_event py) st evs)) (target ev))
       \<and> (actor_present (victim ev) \<longrightarrow>
            0 < actor_count py (fst (foldl (load_event py) st evs)) (victim ev))
       \<and> (location_present (location ev) \<longrightarrow>
            0 < location_count py (fst (foldl (load_event py) st evs)) (location ev))"
  using assms
proof (induction evs arbitrary: st rule: rev_induct)
  case Nil
  then show ?case by simp
next
  case (snoc x evs)
  define st1 where "st1 = foldl (load_event py) st evs"
  have final: "foldl (load_event py) st (evs @ [x]) = load_event py st1 x"
    by (simp add: st1_def)
  have alive: "fst (snd (load_event py st1 x)) = None"
    using snoc.prems(1) unfolding final .
  note step = load_event_alive[OF alive]
  have c1: "(''Event'', ''eventId'') \<in> set (constraints (fst st1))"
    using snoc.prems(2) extends_constraints[OF extends_foldl_load_event[of st py evs]]
    by (simp add: st1_def)
  have ext: "extends (fst st1) (fst (load_event py st1 x))"
    using step(2) by (rule extends_run_event)
  have mono: "count_nodes (fst st1) l k v \<le> count_nodes (fst (load_event py st1 x)) l k v"
    for l k v
    using ext by (rule extends_count)
  have cnt: "count_nodes (fst (load_event py st1 x)) ''Event'' ''eventId'' v
      = (if v = S (event_id x) then 1 else count_nodes (fst st1) ''Event'' ''eventId'' v)" for v
    using step(2) c1 by (rule run_event_event_count)
  show ?case
  proof (cases "ev = x")
    case True
    show ?thesis
      unfolding final using run_event_stored[OF step(2)] cnt[of "S (event_id x)"] True
      by simp
  next
    case False
    then have mem: "ev \<in> set evs" using snoc.prems(3) by simp
    have ih: "count_nodes (fst st1) ''Event'' ''eventId'' (S (event_id ev)) = 1
       \<and> (actor_present (initiator ev) \<longrightarrow> 0 < actor_count py (fst st1) (initiator ev))
       \<and> (actor_present (target ev) \<longrightarrow> 0 < actor_count py (fst st1) (target ev))
       \<and> (actor_present (victim ev) \<longrightarrow> 0 < actor_count py (fst st1) (victim ev))
       \<and> (location_present (location ev) \<longrightarrow> 0 < location_count py (fst st1) (location ev))"
      using snoc.IH[OF _ snoc.prems(2) mem] step(1) unfolding st1_def by simp
    have pos: "0 < count_nodes (fst st1) l k v
        \<Longrightarrow> 0 < count_nodes (fst (load_event py st1 x)) l k v" for l k v
      using mono[of l k v] by linarith
    have "count_nodes (fst (load_event py st1 x)) ''Event'' ''eventId'' (S (event_id ev)) = 1"
      using ih by (simp add: cnt)
    then show ?thesis
      unfolding final using ih pos
      by (auto simp: actor_count_def location_count_def)
  qed
qed

subsection \<open>The batch call\<close>

lemma load_event_batch_committed:
  assumes "snd (snd (load_event_batch py g batch)) = None"
  shows "fst (snd (foldl (load_event py) (g, None, []) batch)) = None"
    and "fst (load_event_batch py g batch) = fst (foldl (load_event py) (g, None, []) batch)"
  using assms by (auto simp: load_event_batch_def Let_def split: option.splits)

text \<open>A batch with an Event whose identifier the store already holds, first in the batch.\<close>

lemma load_event_batch_known_first:
  assumes "(''Event'', ''eventId'') \<in> set (constraints g)"
    and "0 < count_nodes g ''Event'' ''eventId'' (S (event_id ev))"
  shows "load_event_batch py g (ev # evs)
       = (g, (event_id ev, ConstraintError) # map (\<lambda>ev. (event_id ev, TransactionError)) evs,
          Some TransactionError)"
proof -
  have "run_event py g ev = Inl ConstraintError"
    using assms by (intro run_event_violates violates_event_iff)
  then have "load_event py (g, None, []) ev = (g, Some ConstraintError, [(event_id ev, ConstraintError)])"
    by (simp add: load_event_def)
  then have "foldl (load_event py) (g, None, []) (ev # evs)
      = (g, Some ConstraintError,
         (event_id ev, ConstraintError) # map (\<lambda>ev. (event_id ev, TransactionError)) evs)"
    by (simp add: foldl_load_event_failed)
  then show ?thesis
    by (simp add: load_event_batch_def)
qed

text \<open>An Event whose identifier the store holds makes the whole batch fail, wherever it is.\<close>

lemma foldl_load_event_known:
  assumes "(''Event'', ''eventId'') \<in> set (constraints (fst st))"
    and "ev \<in> set evs"
    and "0 < count_nodes (fst st) ''Event'' ''eventId'' (S (event_id ev))"
  shows "fst (snd (foldl (load_event py) st evs)) \<noteq> None"
proof
  assume alive: "fst (snd (foldl (load_event py) st evs)) = None"
  have "count_nodes (fst (foldl (load_event py) st evs)) ''Event'' ''eventId'' (S (event_id ev)) = 1"
    using foldl_load_stored[OF alive assms(1,2)] by simp
  moreover obtain pre post where split: "evs = pre @ ev # post"
    using assms(2) by (meson split_list)
  define st1 where "st1 = foldl (load_event py) st pre"
  have alive2: "fst (snd (foldl (load_event py) st1 (ev # post))) = None"
    using alive unfolding split st1_def by simp
  have alive1: "fst (snd (load_event py st1 ev)) = None"
    using alive2 by (rule foldl_load_event_alive)
  have "extends (fst st) (fst st1)"
    unfolding st1_def by (rule extends_foldl_load_event)
  then have "0 < count_nodes (fst st1) ''Event'' ''eventId'' (S (event_id ev))"
    and "(''Event'', ''eventId'') \<in> set (constraints (fst st1))"
    using assms(1,3) extends_count[of "fst st" "fst st1" "''Event''" "''eventId''" "S (event_id ev)"]
      extends_constraints[of "fst st" "fst st1"]
    by auto
  then have "run_event py (fst st1) ev = Inl ConstraintError"
    by (intro run_event_violates violates_event_iff)
  then show False
    using load_event_alive(2)[OF alive1] by simp
qed

lemma load_event_batch_known:
  assumes "(''Event'', ''eventId'') \<in> set (constraints g)"
    and "ev \<in> set batch"
    and "0 < count_nodes g ''Event'' ''eventId'' (S (event_id ev))"
  shows "fst (load_event_batch py g batch) = g"
    and "snd (snd (load_event_batch py g batch)) = Some TransactionError"
  using foldl_load_event_known[of "(g, None, [])" ev batch py] assms
  by (auto simp: load_event_batch_def Let_def split: option.splits)

subsection \<open>Loading a batch\<close>

text \<open>Running the actor and location steps again on a store that holds their nodes.\<close>

lemma link_actor_nodes_same:
  assumes "0 < count_nodes g ''Actor'' ''actorId'' (S (generate_actor_id py (the (primary_name a))))"
  shows "nodes (link_actor py g ev a t sets) = nodes g"
  using assms by (simp add: link_actor_def merge_and_link_nodes merge_node_fst)

lemma car_nodes_same:
  assumes "actor_present (initiator ev) \<longrightarrow> 0 < actor_count py g (initiator ev)"
    and "actor_present (target ev) \<longrightarrow> 0 < actor_count py g (target ev)"
    and "actor_present (victim ev) \<longrightarrow> 0 < actor_count py g (victim ev)"
  shows "nodes (create_actor_relationships py g ev) = nodes g"
proof -
  obtain g1 g2 where s:
    "g1 = (if actor_present (initiator ev)
           then link_actor py g ev (the (initiator ev)) ''INITIATED_BY''
                  (initiator_sets (the (initiator ev)))
           else g)"
    "g2 = (if actor_present (target ev)
           then link_actor py g1 ev (the (target ev)) ''TARGETED''
                  (target_sets (the (target ev)))
           else g1)"
    "create_actor_relationships py g ev
       = (if actor_present (victim ev)
          then link_actor py g2 ev (the (victim ev)) ''VICTIMIZED''
                 (target_sets (the (victim ev)))
          else g2)"
    by (rule car_steps)
  have n1: "nodes g1 = nodes g"
    using assms(1) by (simp add: s(1) link_actor_nodes_same actor_count_def)
  then have c1: "count_nodes g1 l k v = count_nodes g l k v" for l k v
    by (simp add: count_nodes_def)
  have n2: "nodes g2 = nodes g1"
    using assms(2) by (simp add: s(2) link_actor_nodes_same actor_count_def c1)
  then have c2: "count_nodes g2 l k v = count_nodes g1 l k v" for l k v
    by (simp add: count_nodes_def)
  have "nodes (create_actor_relationships py g ev) = nodes g2"
    using assms(3) by (simp add: s(3) link_actor_nodes_same actor_count_def c1 c2)
  with n1 n2 show ?thesis by simp
qed

lemma clr_nodes_same:
  assumes "location_present (location ev) \<longrightarrow> 0 < location_count py g (location ev)"
  shows "nodes (create_location_relationship py g ev) = nodes g"
proof (cases "location_present (location ev)")
  case True
  then have "count_nodes g ''Location'' ''locationId''
      (S (generate_location_id py (name_or_country (the (location ev)))
            (latitude (the (location ev))) (longitude (the (location ev))))) \<noteq> 0"
    using assms by (simp add: location_count_def)
  then show ?thesis
    using True
    by (simp add: create_location_relationship_def Let_def merge_and_link_nodes merge_node_fst)
next
  case False
  then show ?thesis by (simp add: create_location_relationship_def)
qed

subsection \<open>Claim C2\<close>

text \<open>
  C2 does not hold of the code as it describes the second load. Let a batch be loaded
  into a store with the uniqueness constraint on \<open>Event.eventId\<close> and at most one
  Actor and one Location node for each identifier, and let that load commit. Then the
  store holds exactly one Event node for each Event of the batch and exactly one node
  for each of its actors and for its location, and the patterns of the Event's
  \<open>MERGE\<close> statements match these nodes: running them would add and change no node.
  But when the batch is loaded again, the statements are not run one Event after the
  other with an error for each \<open>CREATE\<close>: the \<open>CREATE\<close> of the first Event violates the
  constraint, the transaction has failed from there on, the statements of the later
  Events are not executed (these Events are logged with a transaction error), and
  the call raises at the commit. The store is left as the first load left it. The same
  happens to every batch that holds one of these Events: none of its Events is stored,
  the new ones included.
\<close>

theorem second_load_fails:
  assumes "(''Event'', ''eventId'') \<in> set (constraints g)"
    and "\<forall>v. count_nodes g ''Actor'' ''actorId'' v \<le> 1"
    and "\<forall>v. count_nodes g ''Location'' ''locationId'' v \<le> 1"
    and "snd (snd (load_event_batch py g batch)) = None"
    and "batch \<noteq> []"
  shows
    "(let G = fst (load_event_batch py g batch)
      in load_event_batch py G batch
           = (G, (event_id (hd batch), ConstraintError)
                   # map (\<lambda>ev. (event_id ev, TransactionError)) (tl batch),
              Some TransactionError)
       \<and> (\<forall>v. count_nodes G ''Actor'' ''actorId'' v \<le> 1)
       \<and> (\<forall>v. count_nodes G ''Location'' ''locationId'' v \<le> 1)
       \<and> (\<forall>ev \<in> set batch.
             count_nodes G ''Event'' ''eventId'' (S (event_id ev)) = 1
           \<and> (actor_present (initiator ev) \<longrightarrow> actor_count py G (initiator ev) = 1)
           \<and> (actor_present (target ev) \<longrightarrow> actor_count py G (target ev) = 1)
           \<and> (actor_present (victim ev) \<longrightarrow> actor_count py G (victim ev) = 1)
           \<and> (location_present (location ev) \<longrightarrow> location_count py G (location ev) = 1)
           \<and> nodes (create_location_relationship py (create_actor_relationships py G ev) ev)
               = nodes G
           \<and> (ev \<in> set other \<longrightarrow>
                 fst (load_event_batch py G other) = G
               \<and> snd (snd (load_event_batch py G other)) = Some TransactionError)))"
proof -
  define G where "G = fst (load_event_batch py g batch)"
  let ?run = "foldl (load_event py) (g, None, []) batch"
  have alive: "fst (snd ?run) = None" and G: "G = fst ?run"
    using load_event_batch_committed[OF assms(4)] by (simp_all add: G_def)
  have cG: "(''Event'', ''eventId'') \<in> set (constraints G)"
    using assms(1) extends_constraints[OF extends_foldl_load_event[of "(g, None, [])" py batch]]
    by (simp add: G)
  have stored: "count_nodes G ''Event'' ''eventId'' (S (event_id ev)) = 1
       \<and> (actor_present (initiator ev) \<longrightarrow> 0 < actor_count py G (initiator ev))
       \<and> (actor_present (target ev) \<longrightarrow> 0 < actor_count py G (target ev))
       \<and> (actor_present (victim ev) \<longrightarrow> 0 < actor_count py G (victim ev))
       \<and> (location_present (location ev) \<longrightarrow> 0 < location_count py G (location ev))"
    if "ev \<in> set batch" for ev
    unfolding G using foldl_load_stored[OF alive _ that] assms(1) by simp
  have ual: "(\<forall>v. count_nodes G ''Actor'' ''actorId'' v \<le> 1)
       \<and> (\<forall>v. count_nodes G ''Location'' ''locationId'' v \<le> 1)"
    unfolding G using foldl_load_unique[of "(g, None, [])" py batch] assms(2,3) by simp
  obtain x xs where batch: "batch = x # xs"
    using assms(5) by (cases batch) auto
  have "0 < count_nodes G ''Event'' ''eventId'' (S (event_id x))"
    using stored[of x] by (simp add: batch)
  then have second: "load_event_batch py G batch
      = (G, (event_id (hd batch), ConstraintError)
              # map (\<lambda>ev. (event_id ev, TransactionError)) (tl batch),
         Some TransactionError)"
    unfolding batch using load_event_batch_known_first[OF cG, of x py xs] by simp
  have each: "count_nodes G ''Event'' ''eventId'' (S (event_id ev)) = 1
           \<and> (actor_present (initiator ev) \<longrightarrow> actor_count py G (initiator ev) = 1)
           \<and> (actor_present (target ev) \<longrightarrow> actor_count py G (target ev) = 1)
           \<and> (actor_present (victim ev) \<longrightarrow> actor_count py G (victim ev) = 1)
           \<and> (location_present (location ev) \<longrightarrow> location_count py G (location ev) = 1)
           \<and> nodes (create_location_relationship py (create_actor_relationships py G ev) ev)
               = nodes G
           \<and> (ev \<in> set other \<longrightarrow>
                 fst (load_event_batch py G other) = G
               \<and> snd (snd (load_event_batch py G other)) = Some TransactionError)"
    if ev: "ev \<in> set batch" for ev
  proof -
    note pos = stored[OF ev]
    have le: "actor_count py G a \<le> 1" "location_count py G l \<le> 1" for a l
      using ual by (simp_all add: actor_count_def location_count_def)
    have n1: "nodes (create_actor_relationships py G ev) = nodes G"
      using pos by (intro car_nodes_same) simp_all
    have "location_count py (create_actor_relationships py G ev) (location ev)
        = location_count py G (location ev)"
      by (simp add: location_count_def car_count_label)
    then have n2: "nodes (create_location_relationship py (create_actor_relationships py G ev) ev)
        = nodes (create_actor_relationships py G ev)"
      using pos by (intro clr_nodes_same) simp
    have eq1: "n = 1" if "0 < n" "n \<le> 1" for n :: nat using that by simp
    have known: "fst (load_event_batch py G other) = G
               \<and> snd (snd (load_event_batch py G other)) = Some TransactionError"
      if "ev \<in> set other"
      using load_event_batch_known[OF cG that, of py] pos by simp
    show ?thesis
      using pos le(1)[of "initiator ev"] le(1)[of "target ev"] le(1)[of "victim ev"]
        le(2)[of "location ev"] n1 n2 known
      by (auto intro: eq1)
  qed
  show ?thesis
    unfolding Let_def G_def[symmetric] second
    using ual each by simp
qed

theorem second_load_fails_witness:
  "(let g = create_schema \<lparr>nodes = [], rels = [], constraints = []\<rparr>;
        army = \<lparr>role = INITIATOR, identity_group = None, sector_group = None,
          political_group = Some ''Army'', actor_type = None, government_type = None,
          government_level = None, non_gov_type = None, is_known = None, ambiguity = None,
          human_indicator = None, num_participants = None, num_armed = None\<rparr>;
        paris = \<lparr>loc_name = Some ''Paris'', loc_country = None, latitude = None,
          longitude = None, location_type = None, region = None, cow_code = None,
          pinpoint = None\<rparr>;
        e1 = \<lparr>event_id = ''EID1'', temporal = None, event_type = None, pe_type = None,
          atk_type = None, dsa_type = None, news_source = None, article_id = None,
          initiator = Some army, target = None, victim = None, location = Some paris,
          impact = None, is_quasi_event = False, is_state_action = False, is_coup = False,
          is_coup_failed = False, is_linked = False, link_type = None, linked_from = [],
          linked_to = [], is_posthoc = False, properties = []\<rparr>;
        e2 = e1\<lparr>event_id := ''EID2'',
               initiator := Some (army\<lparr>political_group := Some ''ARMY''\<rparr>),
               location := Some (paris\<lparr>loc_name := Some ''PARIS''\<rparr>)\<rparr>;
        e3 = e1\<lparr>event_id := ''EID3''\<rparr>
    in (''Event'', ''eventId'') \<in> set (constraints g)
     \<and> (\<forall>py. snd (snd (load_event_batch py g [e1, e2])) = None
           \<and> load_event_batch py (fst (load_event_batch py g [e1, e2])) [e1, e2]
               = (fst (load_event_batch py g [e1, e2]),
                  [(''EID1'', ConstraintError), (''EID2'', TransactionError)],
                  Some TransactionError)
           \<and> actor_count py (fst (load_event_batch py g [e1, e2])) (initiator e2) = 1
           \<and> location_count py (fst (load_event_batch py g [e1, e2])) (location e2) = 1
           \<and> load_event_batch py (fst (load_event_batch py g [e1, e2])) [e3, e1]
               = (fst (load_event_batch py g [e1, e2]),
                  [(''EID1'', ConstraintError)], Some TransactionError)
           \<and> count_nodes (fst (load_event_batch py (fst (load_event_batch py g [e1, e2]))
                 [e3, e1])) ''Event'' ''eventId'' (S ''EID3'') = 0))"
proof -
  define g where "g = create_schema \<lparr>nodes = [], rels = [], constraints = []\<rparr>"
  define army where "army = \<lparr>role = INITIATOR, identity_group = None, sector_group = None,
          political_group = Some ''Army'', actor_type = None, government_type = None,
          government_level = None, non_gov_type = None, is_known = None, ambiguity = None,
          human_indicator = None, num_participants = None, num_armed = None\<rparr>"
  define paris where "paris = \<lparr>loc_name = Some ''Paris'', loc_country = None, latitude = None,
          longitude = None, location_type = None, region = None, cow_code = None,
          pinpoint = None\<rparr>"
  define e1 where "e1 = \<lparr>event_id = ''EID1'', temporal = None, event_type = None, pe_type = None,
          atk_type = None, dsa_type = None, news_source = None, article_id = None,
          initiator = Some army, target = None, victim = None, location = Some paris,
          impact = None, is_quasi_event = False, is_state_action = False, is_coup = False,
          is_coup_failed = False, is_linked = False, link_type = None, linked_from = [],
          linked_to = [], is_posthoc = False, properties = []\<rparr>"
  define e2 where "e2 = e1\<lparr>event_id := ''EID2'',
               initiator := Some (army\<lparr>political_group := Some ''ARMY''\<rparr>),
               location := Some (paris\<lparr>loc_name := Some ''PARIS''\<rparr>)\<rparr>"
  define e3 where "e3 = e1\<lparr>event_id := ''EID3''\<rparr>"
  have c: "(''Event'', ''eventId'') \<in> set (constraints g)"
    unfolding g_def by code_simp
  have u: "\<forall>v. count_nodes g ''Actor'' ''actorId'' v \<le> 1"
    "\<forall>v. count_nodes g ''Location'' ''locationId'' v \<le> 1"
    by (simp_all add: g_def create_schema_def count_nodes_def)
  have main: "snd (snd (load_event_batch py g [e1, e2])) = None
           \<and> load_event_batch py (fst (load_event_batch py g [e1, e2])) [e1, e2]
               = (fst (load_event_batch py g [e1, e2]),
                  [(''EID1'', ConstraintError), (''EID2'', TransactionError)],
                  Some TransactionError)
           \<and> actor_count py (fst (load_event_batch py g [e1, e2])) (initiator e2) = 1
           \<and> location_count py (fst (load_event_batch py g [e1, e2])) (location e2) = 1
           \<and> load_event_batch py (fst (load_event_batch py g [e1, e2])) [e3, e1]
               = (fst (load_event_batch py g [e1, e2]),
                  [(''EID1'', ConstraintError)], Some TransactionError)
           \<and> count_nodes (fst (load_event_batch py (fst (load_event_batch py g [e1, e2]))
                 [e3, e1])) ''Event'' ''eventId'' (S ''EID3'') = 0" for py
  proof -
    define G where "G = fst (load_event_batch py g [e1, e2])"
    have committed: "snd (snd (load_event_batch py g [e1, e2])) = None"
      unfolding g_def e1_def e2_def army_def paris_def by code_simp
    have present: "actor_present (initiator e2)" "location_present (location e2)"
      unfolding e1_def e2_def army_def paris_def by code_simp+
    have ids: "event_id e1 = ''EID1''" "event_id e2 = ''EID2''" "event_id e3 = ''EID3''"
      by (simp_all add: e1_def e2_def e3_def)
    note T = second_load_fails[OF c u committed, of "[e3, e1]", unfolded Let_def G_def[symmetric]]
    have second: "load_event_batch py G [e1, e2]
        = (G, [(''EID1'', ConstraintError), (''EID2'', TransactionError)], Some TransactionError)"
      using T by (simp add: ids)
    have counts: "actor_count py G (initiator e2) = 1" "location_count py G (location e2) = 1"
      using T present by simp_all
    have lost: "fst (load_event_batch py G [e3, e1]) = G"
      "snd (snd (load_event_batch py G [e3, e1])) = Some TransactionError"
      using T by simp_all
    have log: "fst (snd (load_event_batch py G [e3, e1])) = [(''EID1'', ConstraintError)]"
      unfolding G_def g_def e1_def e2_def e3_def army_def paris_def by code_simp
    have zero: "count_nodes G ''Event'' ''eventId'' (S ''EID3'') = 0"
      unfolding G_def g_def e1_def e2_def army_def paris_def by code_simp
    show ?thesis
      unfolding G_def[symmetric]
      using committed second counts lost log zero by (simp add: prod_eq_iff G_def)
  qed
  show ?thesis
    unfolding Let_def g_def[symmetric] army_def[symmetric] paris_def[symmetric]
      e1_def[symmetric] e2_def[symmetric] e3_def[symmetric]
    using c main by blast
qed

subsection \<open>Relationships through the merge-and-link statement\<close>

lemma list_all_iff_set: "list_all P xs \<longleftrightarrow> (\<forall>x \<in> set xs. P x)"
  by (simp add: list_all_iff)

lemma linkedI:
  assumes "0 < count_nodes g l k v"
    and "\<And>e a. e \<in> set (match_nodes g ''Event'' ''eventId'' eid)
            \<Longrightarrow> a \<in> set (match_nodes g l k v) \<Longrightarrow> 0 < count_rels g t e a"
  shows "linked g l k v t eid"
  using assms by (simp add: linked_def list_all_iff)

lemma linkedD:
  assumes "linked g l k v t eid"
  shows "0 < count_nodes g l k v"
    and "e \<in> set (match_nodes g ''Event'' ''eventId'' eid)
            \<Longrightarrow> a \<in> set (match_nodes g l k v) \<Longrightarrow> 0 < count_rels g t e a"
  using assms by (simp_all add: linked_def list_all_iff)

lemma merge_and_link_count_mono:
  assumes "v \<noteq> Null" and "k \<notin> set (map fst oc)"
  shows "count_rels g t' s' d' \<le> count_rels (merge_and_link g l k v oc eid t sets) t' s' d'"
    and "count_rels g t' s' d' \<le> 1
         \<Longrightarrow> count_rels (merge_and_link g l k v oc eid t sets) t' s' d' \<le> 1"
  by (auto simp: merge_and_link_count_rels[OF assms])

lemma merge_and_link_linked:
  assumes "v \<noteq> Null" and "k \<notin> set (map fst oc)"
  shows "linked (merge_and_link g l k v oc eid t sets) l k v t eid"
proof (rule linkedI)
  show "0 < count_nodes (merge_and_link g l k v oc eid t sets) l k v"
    using merge_node_bound_nonempty[OF assms] by simp
next
  fix e a
  assume "e \<in> set (match_nodes (merge_and_link g l k v oc eid t sets) ''Event'' ''eventId'' eid)"
    and "a \<in> set (match_nodes (merge_and_link g l k v oc eid t sets) l k v)"
  then show "0 < count_rels (merge_and_link g l k v oc eid t sets) t e a"
    by (simp add: merge_and_link_count_rels[OF assms])
qed

text \<open>
  A later statement for the same kind of node, or for another label, keeps what an
  earlier one established.
\<close>

lemma merge_and_link_stable:
  assumes "linked g l' k' v' t' eid'"
    and "v \<noteq> Null" and "k \<notin> set (map fst oc)" and "l \<noteq> ''Event''"
    and "l' \<noteq> ''Event''"
    and "(l = l' \<and> k = k') \<or> l \<noteq> l'"
  shows "linked (merge_and_link g l k v oc eid t sets) l' k' v' t' eid'"
proof -
  have pos: "0 < count_nodes g l' k' v'" using assms(1) by (rule linkedD)
  have m: "match_nodes (fst (merge_node g l k v oc)) l' k' v' = match_nodes g l' k' v'"
    using assms(6) pos merge_node_match_other[OF assms(2,3), of g l v']
      merge_node_match_label[of l' l g k v oc k' v']
    by auto
  have ev: "match_nodes (fst (merge_node g l k v oc)) ''Event'' ''eventId'' eid'
      = match_nodes g ''Event'' ''eventId'' eid'"
    using assms(4) by (simp add: merge_node_match_label)
  show ?thesis
  proof (rule linkedI)
    show "0 < count_nodes (merge_and_link g l k v oc eid t sets) l' k' v'"
      using pos m length_match_nodes[of g l' k' v']
        length_match_nodes[of "fst (merge_node g l k v oc)" l' k' v'] by simp
  next
    fix e a
    assume "e \<in> set (match_nodes (merge_and_link g l k v oc eid t sets) ''Event'' ''eventId'' eid')"
      and "a \<in> set (match_nodes (merge_and_link g l k v oc eid t sets) l' k' v')"
    then have "0 < count_rels g t' e a"
      using linkedD(2)[OF assms(1)] by (simp add: m ev)
    then show "0 < count_rels (merge_and_link g l k v oc eid t sets) t' e a"
      using merge_and_link_count_mono(1)[OF assms(2,3), of g t' e a l eid t sets] by linarith
  qed
qed

text \<open>Where the links are already there, the statement changes no node and adds no
  relationship.\<close>

lemma merge_and_link_again:
  assumes "linked g l k v t eid" and "v \<noteq> Null" and "k \<notin> set (map fst oc)"
  shows "nodes (merge_and_link g l k v oc eid t sets) = nodes g"
    and "count_rels (merge_and_link g l k v oc eid t sets) t' s' d' = count_rels g t' s' d'"
proof -
  have pos: "0 < count_nodes g l k v" using assms(1) by (rule linkedD)
  then have same: "fst (merge_node g l k v oc) = g" by (simp add: merge_node_fst)
  show "nodes (merge_and_link g l k v oc eid t sets) = nodes g"
    by (simp add: merge_and_link_nodes same)
  show "count_rels (merge_and_link g l k v oc eid t sets) t' s' d' = count_rels g t' s' d'"
    using linkedD(2)[OF assms(1), of s' d']
    by (auto simp: merge_and_link_count_rels[OF assms(2,3)] same)
qed

lemma linked_cong:
  assumes "nodes g' = nodes g" and "\<And>t s d. count_rels g' t s d = count_rels g t s d"
  shows "linked g' l k v t eid = linked g l k v t eid"
  using assms by (simp add: linked_def count_nodes_def match_nodes_def)

subsection \<open>Role edges of the actor step\<close>

lemma link_actor_linked:
  "linked (link_actor py g ev a t sets) ''Actor'' ''actorId''
     (S (generate_actor_id py (the (primary_name a)))) t (S (event_id ev))"
  unfolding link_actor_def by (rule merge_and_link_linked[OF S_not_Null actor_key_fresh])

lemma link_actor_stable:
  assumes "linked g ''Actor'' ''actorId'' v t' eid'"
  shows "linked (link_actor py g ev a t sets) ''Actor'' ''actorId'' v t' eid'"
  unfolding link_actor_def
  by (rule merge_and_link_stable[OF assms S_not_Null actor_key_fresh]) simp_all

lemma link_actor_again:
  assumes "linked g ''Actor'' ''actorId'' (S (generate_actor_id py (the (primary_name a)))) t
             (S (event_id ev))"
  shows "nodes (link_actor py g ev a t sets) = nodes g"
    and "count_rels (link_actor py g ev a t sets) t' s' d' = count_rels g t' s' d'"
  unfolding link_actor_def
  by (rule merge_and_link_again[OF assms S_not_Null actor_key_fresh])+

lemma link_actor_count_rels:
  "count_rels g t' s' d' \<le> count_rels (link_actor py g ev a t sets) t' s' d'"
  "count_rels g t' s' d' \<le> 1 \<Longrightarrow> count_rels (link_actor py g ev a t sets) t' s' d' \<le> 1"
  unfolding link_actor_def
  by (rule merge_and_link_count_mono[OF S_not_Null actor_key_fresh], assumption?)+

lemma car_count_rels:
  "count_rels g t s d \<le> count_rels (create_actor_relationships py g ev) t s d"
  "count_rels g t s d \<le> 1 \<Longrightarrow> count_rels (create_actor_relationships py g ev) t s d \<le> 1"
proof -
  obtain g1 g2 where s:
    "g1 = (if actor_present (initiator ev)
           then link_actor py g ev (the (initiator ev)) ''INITIATED_BY''
                  (initiator_sets (the (initiator ev)))
           else g)"
    "g2 = (if actor_present (target ev)
           then link_actor py g1 ev (the (target ev)) ''TARGETED''
                  (target_sets (the (target ev)))
           else g1)"
    "create_actor_relationships py g ev
       = (if actor_present (victim ev)
          then link_actor py g2 ev (the (victim ev)) ''VICTIMIZED''
                 (target_sets (the (victim ev)))
          else g2)"
    by (rule car_steps)
  have m1: "count_rels g t s d \<le> count_rels g1 t s d"
    and m2: "count_rels g1 t s d \<le> count_rels g2 t s d"
    and m3: "count_rels g2 t s d \<le> count_rels (create_actor_relationships py g ev) t s d"
    by (simp_all add: s link_actor_count_rels(1))
  show "count_rels g t s d \<le> count_rels (create_actor_relationships py g ev) t s d"
    using m1 m2 m3 by linarith
  assume le: "count_rels g t s d \<le> 1"
  have l1: "count_rels g1 t s d \<le> 1"
    using le link_actor_count_rels(2)[of g t s d] by (auto simp: s(1))
  have l2: "count_rels g2 t s d \<le> 1"
    using l1 link_actor_count_rels(2)[of g1 t s d] by (auto simp: s(2))
  show "count_rels (create_actor_relationships py g ev) t s d \<le> 1"
    using l2 link_actor_count_rels(2)[of g2 t s d] by (auto simp: s(3))
qed

lemma car_linked:
  "actor_present (initiator ev) \<Longrightarrow>
     linked (create_actor_relationships py g ev) ''Actor'' ''actorId''
       (S (generate_actor_id py (the (primary_name (the (initiator ev))))))
       ''INITIATED_BY'' (S (event_id ev))"
  "actor_present (target ev) \<Longrightarrow>
     linked (create_actor_relationships py g ev) ''Actor'' ''actorId''
       (S (generate_actor_id py (the (primary_name (the (target ev))))))
       ''TARGETED'' (S (event_id ev))"
  "actor_present (victim ev) \<Longrightarrow>
     linked (create_actor_relationships py g ev) ''Actor'' ''actorId''
       (S (generate_actor_id py (the (primary_name (the (victim ev))))))
       ''VICTIMIZED'' (S (event_id ev))"
proof -
  obtain g1 g2 where s:
    "g1 = (if actor_present (initiator ev)
           then link_actor py g ev (the (initiator ev)) ''INITIATED_BY''
                  (initiator_sets (the (initiator ev)))
           else g)"
    "g2 = (if actor_present (target ev)
           then link_actor py g1 ev (the (target ev)) ''TARGETED''
                  (target_sets (the (target ev)))
           else g1)"
    "create_actor_relationships py g ev
       = (if actor_present (victim ev)
          then link_actor py g2 ev (the (victim ev)) ''VICTIMIZED''
                 (target_sets (the (victim ev)))
          else g2)"
    by (rule car_steps)
  have st2: "linked g1 ''Actor'' ''actorId'' v t eid \<Longrightarrow> linked g2 ''Actor'' ''actorId'' v t eid"
    for v t eid
    by (simp add: s(2) link_actor_stable)
  have st3: "linked g2 ''Actor'' ''actorId'' v t eid
      \<Longrightarrow> linked (create_actor_relationships py g ev) ''Actor'' ''actorId'' v t eid"
    for v t eid
    by (simp add: s(3) link_actor_stable)
  {
    assume "actor_present (initiator ev)"
    then have "linked g1 ''Actor'' ''actorId''
       (S (generate_actor_id py (the (primary_name (the (initiator ev))))))
       ''INITIATED_BY'' (S (event_id ev))"
      by (simp add: s(1) link_actor_linked)
    then show "linked (create_actor_relationships py g ev) ''Actor'' ''actorId''
       (S (generate_actor_id py (the (primary_name (the (initiator ev))))))
       ''INITIATED_BY'' (S (event_id ev))"
      by (intro st3 st2)
  }
  {
    assume "actor_present (target ev)"
    then have "linked g2 ''Actor'' ''actorId''
       (S (generate_actor_id py (the (primary_name (the (target ev))))))
       ''TARGETED'' (S (event_id ev))"
      by (simp add: s(2) link_actor_linked)
    then show "linked (create_actor_relationships py g ev) ''Actor'' ''actorId''
       (S (generate_actor_id py (the (primary_name (the (target ev))))))
       ''TARGETED'' (S (event_id ev))"
      by (rule st3)
  }
  {
    assume "actor_present (victim ev)"
    then show "linked (create_actor_relationships py g ev) ''Actor'' ''actorId''
       (S (generate_actor_id py (the (primary_name (the (victim ev))))))
       ''VICTIMIZED'' (S (event_id ev))"
      by (simp add: s(3) link_actor_linked)
  }
qed

text \<open>Running the actor step where its links are in place changes nothing that is counted.\<close>

lemma car_again:
  assumes "actor_present (initiator ev) \<longrightarrow>
     linked g ''Actor'' ''actorId''
       (S (generate_actor_id py (the (primary_name (the (initiator ev))))))
       ''INITIATED_BY'' (S (event_id ev))"
    and "actor_present (target ev) \<longrightarrow>
     linked g ''Actor'' ''actorId''
       (S (generate_actor_id py (the (primary_name (the (target ev))))))
       ''TARGETED'' (S (event_id ev))"
    and "actor_present (victim ev) \<longrightarrow>
     linked g ''Actor'' ''actorId''
       (S (generate_actor_id py (the (primary_name (the (victim ev))))))
       ''VICTIMIZED'' (S (event_id ev))"
  shows "nodes (create_actor_relationships py g ev) = nodes g
       \<and> (\<forall>t s d. count_rels (create_actor_relationships py g ev) t s d = count_rels g t s d)"
proof -
  obtain g1 g2 where s:
    "g1 = (if actor_present (initiator ev)
           then link_actor py g ev (the (initiator ev)) ''INITIATED_BY''
                  (initiator_sets (the (initiator ev)))
           else g)"
    "g2 = (if actor_present (target ev)
           then link_actor py g1 ev (the (target ev)) ''TARGETED''
                  (target_sets (the (target ev)))
           else g1)"
    "create_actor_relationships py g ev
       = (if actor_present (victim ev)
          then link_actor py g2 ev (the (victim ev)) ''VICTIMIZED''
                 (target_sets (the (victim ev)))
          else g2)"
    by (rule car_steps)
  have n1: "nodes g1 = nodes g" and c1: "\<And>t s d. count_rels g1 t s d = count_rels g t s d"
    using assms(1) by (simp_all add: s(1) link_actor_again)
  have l1: "linked g1 l k v t eid = linked g l k v t eid" for l k v t eid
    using n1 c1 by (rule linked_cong)
  have n2: "nodes g2 = nodes g1" and c2: "\<And>t s d. count_rels g2 t s d = count_rels g1 t s d"
    using assms(2) by (simp_all add: s(2) link_actor_again l1)
  have l2: "linked g2 l k v t eid = linked g1 l k v t eid" for l k v t eid
    using n2 c2 by (rule linked_cong)
  have n3: "nodes (create_actor_relationships py g ev) = nodes g2"
    and c3: "\<And>t s d. count_rels (create_actor_relationships py g ev) t s d = count_rels g2 t s d"
    using assms(3) by (simp_all add: s(3) link_actor_again l1 l2)
  show ?thesis
    using n1 n2 n3 c1 c2 c3 by simp
qed

subsection \<open>Claim C3\<close>

text \<open>
  C3 as stated fails: the role edge is merged, not created. An Event with an
  initiator is loaded into an empty store; running the actor step again for it leaves
  the store as it is, with one \<open>INITIATED_BY\<close> edge from the Event (node 0) to the
  Actor (node 1).
\<close>

theorem role_edge_merged_counterexample:
  "\<forall>py. (let army = \<lparr>role = INITIATOR, identity_group = None, sector_group = None,
          political_group = Some ''Army'', actor_type = Some 2, government_type = Some 5,
          government_level = None, non_gov_type = None, is_known = None, ambiguity = None,
          human_indicator = None, num_participants = None, num_armed = None\<rparr>;
        e1 = \<lparr>event_id = ''EID1'', temporal = None, event_type = None, pe_type = None,
          atk_type = None, dsa_type = None, news_source = None, article_id = None,
          initiator = Some army, target = None, victim = None, location = None,
          impact = None, is_quasi_event = False, is_state_action = False, is_coup = False,
          is_coup_failed = False, is_linked = False, link_type = None, linked_from = [],
          linked_to = [], is_posthoc = False, properties = []\<rparr>
    in rels (fst (load_event_batch py \<lparr>nodes = [], rels = [], constraints = []\<rparr> [e1]))
           = [\<lparr>rtype = ''INITIATED_BY'', rsrc = 0, rdst = 1,
               rprops = [(''actorType'', I 2), (''governmentType'', I 5)]\<rparr>]
       \<and> create_actor_relationships py
            (fst (load_event_batch py \<lparr>nodes = [], rels = [], constraints = []\<rparr> [e1])) e1
           = fst (load_event_batch py \<lparr>nodes = [], rels = [], constraints = []\<rparr> [e1]))"
  by (intro allI) code_simp

text \<open>
  C3 (amended). In Pass 1, for every Event and every one of its three actor roles that
  is present with a non-empty primary name, the loader upserts the Actor node by its
  hashed id, leaving every existing node as it is, and merges a directed role-specific
  edge (\<open>INITIATED_BY\<close>, \<open>TARGETED\<close>, \<open>VICTIMIZED\<close>) from each Event node with the
  Event's id to that Actor. Where no two edges of one type join the same pair of nodes
  before, none do after, and repeating the step for the Event adds no node and no
  edge.
\<close>

theorem actor_edges_merged:
  assumes "\<forall>t s d. count_rels g t s d \<le> 1"
  shows
    "extends g (create_actor_relationships py g ev)
     \<and> (actor_present (initiator ev) \<longrightarrow>
          linked (create_actor_relationships py g ev) ''Actor'' ''actorId''
            (S (generate_actor_id py (the (primary_name (the (initiator ev))))))
            ''INITIATED_BY'' (S (event_id ev)))
     \<and> (actor_present (target ev) \<longrightarrow>
          linked (create_actor_relationships py g ev) ''Actor'' ''actorId''
            (S (generate_actor_id py (the (primary_name (the (target ev))))))
            ''TARGETED'' (S (event_id ev)))
     \<and> (actor_present (victim ev) \<longrightarrow>
          linked (create_actor_relationships py g ev) ''Actor'' ''actorId''
            (S (generate_actor_id py (the (primary_name (the (victim ev))))))
            ''VICTIMIZED'' (S (event_id ev)))
     \<and> (\<forall>t s d. count_rels g t s d \<le> count_rels (create_actor_relationships py g ev) t s d
                \<and> count_rels (create_actor_relationships py g ev) t s d \<le> 1)
     \<and> nodes (create_actor_relationships py (create_actor_relationships py g ev) ev)
         = nodes (create_actor_relationships py g ev)
     \<and> (\<forall>t s d. count_rels (create_actor_relationships py
                                (create_actor_relationships py g ev) ev) t s d
                  = count_rels (create_actor_relationships py g ev) t s d)"
proof -
  have again: "nodes (create_actor_relationships py (create_actor_relationships py g ev) ev)
         = nodes (create_actor_relationships py g ev)
     \<and> (\<forall>t s d. count_rels (create_actor_relationships py
                                (create_actor_relationships py g ev) ev) t s d
                  = count_rels (create_actor_relationships py g ev) t s d)"
    by (rule car_again) (simp_all add: car_linked)
  have counts: "\<forall>t s d. count_rels g t s d \<le> count_rels (create_actor_relationships py g ev) t s d
                \<and> count_rels (create_actor_relationships py g ev) t s d \<le> 1"
    using assms car_count_rels[of g _ _ _ py ev] by blast
  show ?thesis
    using again counts by (simp add: car_linked)
qed

theorem actor_edges_merged_witness:
  "\<forall>py. (let army = \<lparr>role = INITIATOR, identity_group = None, sector_group = None,
          political_group = Some ''Army'', actor_type = Some 2, government_type = Some 5,
          government_level = None, non_gov_type = None, is_known = None, ambiguity = None,
          human_indicator = None, num_participants = None, num_armed = None\<rparr>;
        e1 = \<lparr>event_id = ''EID1'', temporal = None, event_type = None, pe_type = None,
          atk_type = None, dsa_type = None, news_source = None, article_id = None,
          initiator = Some army, target = None, victim = None, location = None,
          impact = None, is_quasi_event = False, is_state_action = False, is_coup = False,
          is_coup_failed = False, is_linked = False, link_type = None, linked_from = [],
          linked_to = [], is_posthoc = False, properties = []\<rparr>;
        g = \<lparr>nodes = [\<lparr>nlabel = ''Event'', nprops = [(''eventId'', S ''EID1'')]\<rparr>],
             rels = [], constraints = []\<rparr>
    in (\<forall>t s d. count_rels g t s d \<le> 1)
     \<and> linked (create_actor_relationships py g e1) ''Actor'' ''actorId''
         (S (generate_actor_id py ''Army'')) ''INITIATED_BY'' (S ''EID1'')
     \<and> count_rels (create_actor_relationships py g e1) ''INITIATED_BY'' 0 1 = 1
     \<and> count_rels (create_actor_relationships py (create_actor_relationships py g e1) e1)
         ''INITIATED_BY'' 0 1 = 1)"
proof (intro allI)
  fix py
  define army where "army = \<lparr>role = INITIATOR, identity_group = None, sector_group = None,
          political_group = Some ''Army'', actor_type = Some 2, government_type = Some 5,
          government_level = None, non_gov_type = None, is_known = None, ambiguity = None,
          human_indicator = None, num_participants = None, num_armed = None\<rparr>"
  define e1 where "e1 = \<lparr>event_id = ''EID1'', temporal = None, event_type = None, pe_type = None,
          atk_type = None, dsa_type = None, news_source = None, article_id = None,
          initiator = Some army, target = None, victim = None, location = None,
          impact = None, is_quasi_event = False, is_state_action = False, is_coup = False,
          is_coup_failed = False, is_linked = False, link_type = None, linked_from = [],
          linked_to = [], is_posthoc = False, properties = []\<rparr>"
  define g where "g = \<lparr>nodes = [\<lparr>nlabel = ''Event'', nprops = [(''eventId'', S ''EID1'')]\<rparr>],
             rels = [], constraints = []\<rparr>"
  have h: "\<forall>t s d. count_rels g t s d \<le> 1"
    by (simp add: g_def count_rels_def)
  have present: "actor_present (initiator e1)"
    unfolding e1_def army_def by code_simp
  have name: "the (primary_name (the (initiator e1))) = ''Army''" "event_id e1 = ''EID1''"
    unfolding e1_def army_def by code_simp+
  have one: "count_rels (create_actor_relationships py g e1) ''INITIATED_BY'' 0 1 = 1"
    unfolding e1_def army_def g_def by code_simp
  have "(\<forall>t s d. count_rels g t s d \<le> 1)
     \<and> linked (create_actor_relationships py g e1) ''Actor'' ''actorId''
         (S (generate_actor_id py ''Army'')) ''INITIATED_BY'' (S ''EID1'')
     \<and> count_rels (create_actor_relationships py g e1) ''INITIATED_BY'' 0 1 = 1
     \<and> count_rels (create_actor_relationships py (create_actor_relationships py g e1) e1)
         ''INITIATED_BY'' 0 1 = 1"
    using h actor_edges_merged[OF h, of py e1] present name one by simp
  then show "let army = \<lparr>role = INITIATOR, identity_group = None, sector_group = None,
          political_group = Some ''Army'', actor_type = Some 2, government_type = Some 5,
          government_level = None, non_gov_type = None, is_known = None, ambiguity = None,
          human_indicator = None, num_participants = None, num_armed = None\<rparr>;
        e1 = \<lparr>event_id = ''EID1'', temporal = None, event_type = None, pe_type = None,
          atk_type = None, dsa_type = None, news_source = None, article_id = None,
          initiator = Some army, target = None, victim = None, location = None,
          impact = None, is_quasi_event = False, is_state_action = False, is_coup = False,
          is_coup_failed = False, is_linked = False, link_type = None, linked_from = [],
          linked_to = [], is_posthoc = False, properties = []\<rparr>;
        g = \<lparr>nodes = [\<lparr>nlabel = ''Event'', nprops = [(''eventId'', S ''EID1'')]\<rparr>],
             rels = [], constraints = []\<rparr>
    in (\<forall>t s d. count_rels g t s d \<le> 1)
     \<and> linked (create_actor_relationships py g e1) ''Actor'' ''actorId''
         (S (generate_actor_id py ''Army'')) ''INITIATED_BY'' (S ''EID1'')
     \<and> count_rels (create_actor_relationships py g e1) ''INITIATED_BY'' 0 1 = 1
     \<and> count_rels (create_actor_relationships py (create_actor_relationships py g e1) e1)
         ''INITIATED_BY'' 0 1 = 1"
    unfolding Let_def army_def[symmetric] e1_def[symmetric] g_def[symmetric] .
qed

subsection \<open>Pass 2\<close>

text \<open>
  Whatever the records hold, the loop of Pass 2 runs no linking statement: a record
  whose \<open>props\<close> is null (or false) is replaced by the empty dictionary, in which neither
  key is found, and any other property value has no \<open>get\<close>, so the loop ends there with
  an exception.
\<close>

lemma links_loop_fixed:
  "fst (links_loop g c recs) = g \<and> fst (snd (links_loop g c recs)) = c"
  by (induction recs arbitrary: g c)
     (auto simp: or_empty_dict_def obj_get_def get_prop_def truthy_val_def Let_def)

text \<open>No statement of Pass 1 touches an edge of another type than its own.\<close>

lemma merge_and_link_other_type:
  "t' \<noteq> t \<Longrightarrow> count_rels (merge_and_link g l k v oc eid t sets) t' s d = count_rels g t' s d"
  by (simp add: merge_and_link_def split_beta Let_def count_rels_foldl_merge_rel)

lemma car_linked_to:
  "count_rels (create_actor_relationships py g ev) ''LINKED_TO'' s d = count_rels g ''LINKED_TO'' s d"
  by (simp add: create_actor_relationships_def link_actor_def Let_def merge_and_link_other_type)

lemma clr_linked_to:
  "count_rels (create_location_relationship py g ev) ''LINKED_TO'' s d
     = count_rels g ''LINKED_TO'' s d"
  by (simp add: create_location_relationship_def Let_def merge_and_link_other_type)

lemma link_event_type_linked_to:
  "count_rels (link_event_type g ev) ''LINKED_TO'' s d = count_rels g ''LINKED_TO'' s d"
  by (simp add: link_event_type_def Let_def count_rels_foldl_merge_rel)

lemma run_event_linked_to:
  assumes "run_event py g ev = Inr g'"
  shows "count_rels g' ''LINKED_TO'' s d = count_rels g ''LINKED_TO'' s d"
  using run_event_Inr[OF assms]
  by (simp add: link_event_type_linked_to clr_linked_to car_linked_to)

lemma load_event_linked_to:
  "count_rels (fst (load_event py st ev)) ''LINKED_TO'' s d = count_rels (fst st) ''LINKED_TO'' s d"
  by (auto simp: load_event_def run_event_linked_to split: option.splits sum.splits)

lemma foldl_load_event_linked_to:
  "count_rels (fst (foldl (load_event py) st evs)) ''LINKED_TO'' s d
     = count_rels (fst st) ''LINKED_TO'' s d"
  by (induction evs arbitrary: st) (simp_all add: load_event_linked_to)

lemma load_event_batch_linked_to:
  "count_rels (fst (load_event_batch py g evs)) ''LINKED_TO'' s d = count_rels g ''LINKED_TO'' s d"
  using foldl_load_event_linked_to[of py "(g, None, [])" evs s d]
  by (simp add: load_event_batch_def Let_def split: option.splits)

lemma pass1_linked_to:
  "count_rels (fst (load_batches py g bs)) ''LINKED_TO'' s d = count_rels g ''LINKED_TO'' s d"
  by (induction bs arbitrary: g) (simp_all add: load_event_batch_linked_to split: option.splits)

text \<open>
  An example: two Events are loaded into the provisioned empty store, the second
  flagged as linked from the first. Pass 2 finds the second Event, reads \<open>null\<close> for
  its \<open>properties\<close>, and returns with no link counted and the store as it was, holding
  both Event nodes and no edge.
\<close>

lemma pass2_example:
  "\<forall>py. (let e1 = \<lparr>event_id = ''EID1'', temporal = None, event_type = None, pe_type = None,
          atk_type = None, dsa_type = None, news_source = None, article_id = None,
          initiator = None, target = None, victim = None, location = None,
          impact = None, is_quasi_event = False, is_state_action = False, is_coup = False,
          is_coup_failed = False, is_linked = False, link_type = None, linked_from = [],
          linked_to = [], is_posthoc = False, properties = []\<rparr>;
        e2 = e1\<lparr>event_id := ''EID2'', is_linked := True, linked_from := [''EID1'']\<rparr>;
        G = fst (load_event_batch py
                   (create_schema \<lparr>nodes = [], rels = [], constraints = []\<rparr>) [e1, e2])
    in match_nodes G ''Event'' ''eventId'' (S ''EID1'') = [0]
     \<and> match_nodes G ''Event'' ''eventId'' (S ''EID2'') = [1]
     \<and> linked_records G = [(S ''EID2'', Null)]
     \<and> create_event_links G = (G, 0, None)
     \<and> rels G = [])"
  by (intro allI) code_simp

subsection \<open>Claim C1\<close>

text \<open>
  C1 does not hold of the code. Pass 2 leaves every store as it finds it and counts no
  link; and since no statement of Pass 1 writes a \<open>LINKED_TO\<close> edge either, a whole
  load (Pass 1 in batches, then Pass 2) of any parsed file ends with exactly the
  \<open>LINKED_TO\<close> edges the store had before: loading into a store without such edges,
  no linkage edge exists after Pass 2, whatever the \<open>linked\<close>, \<open>FROM_EID\<close> and \<open>TO_EID\<close>
  fields of the rows.
\<close>

theorem pass2_creates_no_link:
  "fst (create_event_links g) = g
   \<and> fst (snd (create_event_links g)) = 0
   \<and> count_rels (fst (load_events py g chunks batch_size)) ''LINKED_TO'' s d
       = count_rels g ''LINKED_TO'' s d"
proof -
  have "count_rels (fst (load_events py g chunks batch_size)) ''LINKED_TO'' s d
      = count_rels (fst (load_batches py g
          (batches batch_size [] (snd (parse py init_parser chunks))))) ''LINKED_TO'' s d"
    by (simp add: load_events_def Let_def create_event_links_def links_loop_fixed
        split: prod.splits option.splits)
  then show ?thesis
    by (simp add: create_event_links_def links_loop_fixed pass1_linked_to)
qed

subsection \<open>Location identifiers\<close>

lemma upper_char_hex: "is_hex_lower c \<Longrightarrow> is_hex_upper (upper_char c)"
proof -
  have "\<forall>c \<in> set ''0123456789abcdef''. is_hex_upper (upper_char c)"
    by code_simp
  then show "is_hex_lower c \<Longrightarrow> is_hex_upper (upper_char c)"
    unfolding is_hex_lower_def by blast
qed

lemma py_upper_hex: "list_all is_hex_lower s \<Longrightarrow> list_all is_hex_upper (py_upper s)"
  by (induction s) (simp_all add: py_upper_def upper_char_hex)

lemma generate_location_id_key:
  "generate_location_id py name lat lon
     = ''LOC_'' @ py_upper (take 12 (md5_hexdigest py
         (py_lower name @ py_lower (''_'' @ fmt_float py lat @ ''_'' @ fmt_float py lon))))"
  by (simp add: generate_location_id_def Let_def py_lower_append)

lemma generate_location_id_case:
  assumes "list_all2 case_pair n1 n2"
  shows "generate_location_id py n1 lat lon = generate_location_id py n2 lat lon"
  by (simp add: generate_location_id_key case_pairs_lower[OF assms])

lemma generate_location_id_form:
  assumes "\<forall>s. length (md5_hexdigest py s) = 32 \<and> list_all is_hex_lower (md5_hexdigest py s)"
  shows "take 4 (generate_location_id py n lat lon) = ''LOC_''"
    and "length (generate_location_id py n lat lon) = 16"
    and "list_all is_hex_upper (drop 4 (generate_location_id py n lat lon))"
proof -
  let ?d = "md5_hexdigest py (py_lower (n @ ''_'' @ fmt_float py lat @ ''_'' @ fmt_float py lon))"
  have id: "generate_location_id py n lat lon = ''LOC_'' @ py_upper (take 12 ?d)"
    by (simp add: generate_location_id_def Let_def)
  have len: "length ?d = 32" and hex: "list_all is_hex_lower ?d"
    using assms by blast+
  have "list_all is_hex_lower (take 12 ?d)"
    using hex by (auto simp: list_all_iff dest: in_set_takeD)
  then have up: "list_all is_hex_upper (py_upper (take 12 ?d))"
    by (rule py_upper_hex)
  show "take 4 (generate_location_id py n lat lon) = ''LOC_''"
    unfolding id by simp
  show "length (generate_location_id py n lat lon) = 16"
    unfolding id using len by (simp add: py_upper_def)
  show "list_all is_hex_upper (drop 4 (generate_location_id py n lat lon))"
    unfolding id using up by simp
qed

subsection \<open>Two Events at one Location\<close>

lemma clr_two_events:
  assumes same: "generate_location_id py (name_or_country l2) (latitude l2) (longitude l2)
                   = generate_location_id py (name_or_country l1) (latitude l1) (longitude l1)"
    and ev: "location ev1 = Some l1" "location ev2 = Some l2"
    and present: "location_present (location ev1)" "location_present (location ev2)"
  shows "nodes (create_location_relationship py (create_location_relationship py g ev1) ev2)
           = nodes (create_location_relationship py g ev1)"
    and "linked (create_location_relationship py (create_location_relationship py g ev1) ev2)
           ''Location'' ''locationId''
           (S (generate_location_id py (name_or_country l1) (latitude l1) (longitude l1)))
           ''OCCURRED_AT'' (S (event_id ev1))"
    and "linked (create_location_relationship py (create_location_relationship py g ev1) ev2)
           ''Location'' ''locationId''
           (S (generate_location_id py (name_or_country l1) (latitude l1) (longitude l1)))
           ''OCCURRED_AT'' (S (event_id ev2))"
    and "count_nodes g ''Location'' ''locationId''
           (S (generate_location_id py (name_or_country l1) (latitude l1) (longitude l1))) = 0
         \<Longrightarrow> nodes (create_location_relationship py g ev1)
               = nodes g @ [\<lparr>nlabel = ''Location'',
                    nprops = set_props
                      [(''locationId'',
                        S (generate_location_id py (name_or_country l1) (latitude l1) (longitude l1)))]
                      (location_on_create l1)\<rparr>]"
    and "count_nodes g ''Location'' ''locationId''
           (S (generate_location_id py (name_or_country l1) (latitude l1) (longitude l1))) = 0
         \<Longrightarrow> count_nodes (create_location_relationship py (create_location_relationship py g ev1) ev2)
               ''Location'' ''locationId''
               (S (generate_location_id py (name_or_country l1) (latitude l1) (longitude l1))) = 1"
proof -
  define lid where "lid = generate_location_id py (name_or_country l1) (latitude l1) (longitude l1)"
  define g1 where "g1 = create_location_relationship py g ev1"
  have g1: "g1 = merge_and_link g ''Location'' ''locationId'' (S lid) (location_on_create l1)
                   (S (event_id ev1)) ''OCCURRED_AT'' []"
    using ev(1) present(1) by (simp add: g1_def create_location_relationship_def Let_def lid_def)
  have g2: "create_location_relationship py g1 ev2
              = merge_and_link g1 ''Location'' ''locationId'' (S lid) (location_on_create l2)
                   (S (event_id ev2)) ''OCCURRED_AT'' []"
    using ev(2) present(2) same
    by (simp add: create_location_relationship_def Let_def lid_def)
  have l1: "linked g1 ''Location'' ''locationId'' (S lid) ''OCCURRED_AT'' (S (event_id ev1))"
    unfolding g1 by (rule merge_and_link_linked[OF S_not_Null location_key_fresh])
  have pos: "0 < count_nodes g1 ''Location'' ''locationId'' (S lid)"
    using l1 by (rule linkedD)
  show n: "nodes (create_location_relationship py (create_location_relationship py g ev1) ev2)
           = nodes (create_location_relationship py g ev1)"
    unfolding g1_def[symmetric] g2 using pos
    by (simp add: merge_and_link_nodes merge_node_fst)
  show "linked (create_location_relationship py (create_location_relationship py g ev1) ev2)
           ''Location'' ''locationId''
           (S (generate_location_id py (name_or_country l1) (latitude l1) (longitude l1)))
           ''OCCURRED_AT'' (S (event_id ev1))"
    unfolding g1_def[symmetric] lid_def[symmetric] g2
    by (rule merge_and_link_stable[OF l1 S_not_Null location_key_fresh]) simp_all
  show "linked (create_location_relationship py (create_location_relationship py g ev1) ev2)
           ''Location'' ''locationId''
           (S (generate_location_id py (name_or_country l1) (latitude l1) (longitude l1)))
           ''OCCURRED_AT'' (S (event_id ev2))"
    unfolding g1_def[symmetric] lid_def[symmetric] g2
    by (rule merge_and_link_linked[OF S_not_Null location_key_fresh])
  assume zero: "count_nodes g ''Location'' ''locationId''
           (S (generate_location_id py (name_or_country l1) (latitude l1) (longitude l1))) = 0"
  show "nodes (create_location_relationship py g ev1)
               = nodes g @ [\<lparr>nlabel = ''Location'',
                    nprops = set_props
                      [(''locationId'',
                        S (generate_location_id py (name_or_country l1) (latitude l1) (longitude l1)))]
                      (location_on_create l1)\<rparr>]"
    unfolding g1_def[symmetric] lid_def[symmetric] g1 using zero
    by (simp add: merge_and_link_nodes merge_node_fst lid_def)
  have "count_nodes g1 ''Location'' ''locationId'' (S lid) = 1"
    unfolding g1_def using zero ev(1) present(1)
    by (simp add: clr_count_location lid_def)
  then show "count_nodes (create_location_relationship py (create_location_relationship py g ev1) ev2)
               ''Location'' ''locationId''
               (S (generate_location_id py (name_or_country l1) (latitude l1) (longitude l1))) = 1"
    unfolding g1_def[symmetric] lid_def[symmetric]
    by (simp add: count_nodes_def n[unfolded g1_def[symmetric]])
qed

subsection \<open>Claim C10\<close>

text \<open>
  C10 as stated fails for coordinates that are equal but not formatted alike. The
  latitudes \<open>0.0\<close> and \<open>-0.0\<close> are equal, and \<open>str\<close> writes them \<open>0.0\<close> and \<open>-0.0\<close>: with
  the longitude \<open>-0.2\<close> the keys of \<open>Accra\<close> and \<open>ACCRA\<close> are \<open>accra_0.0_-0.2\<close> and
  \<open>accra_-0.0_-0.2\<close>. The library functions are given here by the values \<open>str\<close> and
  \<open>hashlib.md5\<close> have at these arguments. The two locations get different identifiers,
  and their Events (nodes 0 and 1) attach to two Location nodes (nodes 2 and 3).
\<close>

theorem equal_coordinates_counterexample:
  "(let py = \<lparr>md5_hexdigest =
                 (\<lambda>s. if s = ''accra_0.0_-0.2'' then ''9f08bdceae7515884dad0bc01b6e5b26''
                      else if s = ''accra_-0.0_-0.2'' then ''e15d6fae8365ace9ea1ba572e1a78a7f''
                      else ''d41d8cd98f00b204e9800998ecf8427e''),
               int_of_float_str = (\<lambda>s. Inl ValueError), float_of_str = (\<lambda>s. None),
               str_of_float =
                 (\<lambda>x. if x = 0 then ''0.0''
                      else if x = 0x8000000000000000 then ''-0.0'' else ''-0.2''),
               json_dumps = (\<lambda>d. ''{}'')\<rparr>;
        l1 = \<lparr>loc_name = Some ''Accra'', loc_country = None, latitude = Some 0,
               longitude = Some 0xBFC999999999999A, location_type = None, region = None,
               cow_code = None, pinpoint = None\<rparr>;
        l2 = \<lparr>loc_name = Some ''ACCRA'', loc_country = None,
               latitude = Some 0x8000000000000000,
               longitude = Some 0xBFC999999999999A, location_type = None, region = None,
               cow_code = None, pinpoint = None\<rparr>;
        e1 = \<lparr>event_id = ''EID1'', temporal = None, event_type = None, pe_type = None,
          atk_type = None, dsa_type = None, news_source = None, article_id = None,
          initiator = None, target = None, victim = None, location = Some l1,
          impact = None, is_quasi_event = False, is_state_action = False, is_coup = False,
          is_coup_failed = False, is_linked = False, link_type = None, linked_from = [],
          linked_to = [], is_posthoc = False, properties = []\<rparr>;
        e2 = e1\<lparr>event_id := ''EID2'', location := Some l2\<rparr>;
        g = \<lparr>nodes = [\<lparr>nlabel = ''Event'', nprops = [(''eventId'', S ''EID1'')]\<rparr>,
                      \<lparr>nlabel = ''Event'', nprops = [(''eventId'', S ''EID2'')]\<rparr>],
             rels = [], constraints = []\<rparr>;
        g2 = create_location_relationship py (create_location_relationship py g e1) e2
    in list_all2 case_pair (name_or_country l1) (name_or_country l2)
     \<and> coord_eq (latitude l1) (latitude l2)
     \<and> coord_eq (longitude l1) (longitude l2)
     \<and> generate_location_id py (name_or_country l1) (latitude l1) (longitude l1)
         = ''LOC_9F08BDCEAE75''
     \<and> generate_location_id py (name_or_country l2) (latitude l2) (longitude l2)
         = ''LOC_E15D6FAE8365''
     \<and> map nlabel (nodes g2) = [''Event'', ''Event'', ''Location'', ''Location'']
     \<and> map (\<lambda>r. (rtype r, rsrc r, rdst r)) (rels g2)
         = [(''OCCURRED_AT'', 0, 2), (''OCCURRED_AT'', 1, 3)])"
proof -
  define py :: pylib where "py = \<lparr>md5_hexdigest =
                 (\<lambda>s. if s = ''accra_0.0_-0.2'' then ''9f08bdceae7515884dad0bc01b6e5b26''
                      else if s = ''accra_-0.0_-0.2'' then ''e15d6fae8365ace9ea1ba572e1a78a7f''
                      else ''d41d8cd98f00b204e9800998ecf8427e''),
               int_of_float_str = (\<lambda>s. Inl ValueError), float_of_str = (\<lambda>s. None),
               str_of_float =
                 (\<lambda>x. if x = 0 then ''0.0''
                      else if x = 0x8000000000000000 then ''-0.0'' else ''-0.2''),
               json_dumps = (\<lambda>d. ''{}'')\<rparr>"
  define l1 where "l1 = \<lparr>loc_name = Some ''Accra'', loc_country = None,
               latitude = Some (0 :: pyfloat),
               longitude = Some (0xBFC999999999999A :: pyfloat), location_type = None,
               region = None, cow_code = None, pinpoint = None\<rparr>"
  define l2 where "l2 = \<lparr>loc_name = Some ''ACCRA'', loc_country = None,
               latitude = Some (0x8000000000000000 :: pyfloat),
               longitude = Some (0xBFC999999999999A :: pyfloat), location_type = None,
               region = None, cow_code = None, pinpoint = None\<rparr>"
  define e1 where "e1 = \<lparr>event_id = ''EID1'', temporal = None, event_type = None, pe_type = None,
          atk_type = None, dsa_type = None, news_source = None, article_id = None,
          initiator = None, target = None, victim = None, location = Some l1,
          impact = None, is_quasi_event = False, is_state_action = False, is_coup = False,
          is_coup_failed = False, is_linked = False, link_type = None, linked_from = [],
          linked_to = [], is_posthoc = False, properties = []\<rparr>"
  define e2 where "e2 = e1\<lparr>event_id := ''EID2'', location := Some l2\<rparr>"
  define g where "g = \<lparr>nodes = [\<lparr>nlabel = ''Event'', nprops = [(''eventId'', S ''EID1'')]\<rparr>,
                      \<lparr>nlabel = ''Event'', nprops = [(''eventId'', S ''EID2'')]\<rparr>],
             rels = [], constraints = []\<rparr>"
  define g2 where "g2 = create_location_relationship py (create_location_relationship py g e1) e2"
  have names: "name_or_country l1 = ''Accra''" "name_or_country l2 = ''ACCRA''"
    by (simp_all add: name_or_country_def truthy_str_def l1_def l2_def)
  have present: "location_present (Some l1)" "location_present (Some l2)"
    by (simp_all add: location_present_def truthy_str_def l1_def l2_def)
  have sel: "location e1 = Some l1" "location e2 = Some l2"
    "event_id e1 = ''EID1''" "event_id e2 = ''EID2''"
    by (simp_all add: e1_def e2_def)
  have coords: "latitude l1 = Some 0" "longitude l1 = Some 0xBFC999999999999A"
    "latitude l2 = Some 0x8000000000000000" "longitude l2 = Some 0xBFC999999999999A"
    by (simp_all add: l1_def l2_def)
  have cp: "list_all2 case_pair ''Accra'' ''ACCRA''"
    by code_simp
  have eq: "coord_eq (Some 0) (Some 0x8000000000000000)"
    "coord_eq (Some 0xBFC999999999999A) (Some 0xBFC999999999999A)"
    by (simp_all add: coord_eq_def float_eq_def float_is_nan_def)
  have fmt: "fmt_float py (Some 0) = ''0.0''" "fmt_float py (Some 0x8000000000000000) = ''-0.0''"
    "fmt_float py (Some 0xBFC999999999999A) = ''-0.2''"
    by (simp_all add: fmt_float_def py_def)
  have keys: "py_lower ''Accra_0.0_-0.2'' = ''accra_0.0_-0.2''"
    "py_lower ''ACCRA_-0.0_-0.2'' = ''accra_-0.0_-0.2''"
    by code_simp+
  have md5: "md5_hexdigest py ''accra_0.0_-0.2'' = ''9f08bdceae7515884dad0bc01b6e5b26''"
    "md5_hexdigest py ''accra_-0.0_-0.2'' = ''e15d6fae8365ace9ea1ba572e1a78a7f''"
    by (simp_all add: py_def)
  have up: "py_upper (take 12 ''9f08bdceae7515884dad0bc01b6e5b26'') = ''9F08BDCEAE75''"
    "py_upper (take 12 ''e15d6fae8365ace9ea1ba572e1a78a7f'') = ''E15D6FAE8365''"
    by code_simp+
  have id1: "generate_location_id py ''Accra'' (Some 0) (Some 0xBFC999999999999A)
      = ''LOC_9F08BDCEAE75''"
    using keys(1) md5(1) up(1) by (simp add: generate_location_id_def Let_def fmt)
  have id2: "generate_location_id py ''ACCRA'' (Some 0x8000000000000000) (Some 0xBFC999999999999A)
      = ''LOC_E15D6FAE8365''"
    using keys(2) md5(2) up(2) by (simp add: generate_location_id_def Let_def fmt)
  have step: "map nlabel (nodes
         (merge_and_link
            (merge_and_link g ''Location'' ''locationId'' (S ''LOC_9F08BDCEAE75'')
               (location_on_create
                  \<lparr>loc_name = Some ''Accra'', loc_country = None, latitude = Some x,
                   longitude = Some y, location_type = None, region = None, cow_code = None,
                   pinpoint = None\<rparr>)
               (S ''EID1'') ''OCCURRED_AT'' [])
            ''Location'' ''locationId'' (S ''LOC_E15D6FAE8365'')
            (location_on_create
               \<lparr>loc_name = Some ''ACCRA'', loc_country = None, latitude = Some z,
                longitude = Some y, location_type = None, region = None, cow_code = None,
                pinpoint = None\<rparr>)
            (S ''EID2'') ''OCCURRED_AT'' []))
       = [''Event'', ''Event'', ''Location'', ''Location'']
     \<and> map (\<lambda>r. (rtype r, rsrc r, rdst r)) (rels
         (merge_and_link
            (merge_and_link g ''Location'' ''locationId'' (S ''LOC_9F08BDCEAE75'')
               (location_on_create
                  \<lparr>loc_name = Some ''Accra'', loc_country = None, latitude = Some x,
                   longitude = Some y, location_type = None, region = None, cow_code = None,
                   pinpoint = None\<rparr>)
               (S ''EID1'') ''OCCURRED_AT'' [])
            ''Location'' ''locationId'' (S ''LOC_E15D6FAE8365'')
            (location_on_create
               \<lparr>loc_name = Some ''ACCRA'', loc_country = None, latitude = Some z,
                longitude = Some y, location_type = None, region = None, cow_code = None,
                pinpoint = None\<rparr>)
            (S ''EID2'') ''OCCURRED_AT'' []))
       = [(''OCCURRED_AT'', 0, 2), (''OCCURRED_AT'', 1, 3)]" for x y z :: pyfloat
    unfolding g_def by code_simp
  have g2: "g2 = merge_and_link
            (merge_and_link g ''Location'' ''locationId'' (S ''LOC_9F08BDCEAE75'')
               (location_on_create l1) (S ''EID1'') ''OCCURRED_AT'' [])
            ''Location'' ''locationId'' (S ''LOC_E15D6FAE8365'')
            (location_on_create l2) (S ''EID2'') ''OCCURRED_AT'' []"
    unfolding g2_def
    by (simp add: create_location_relationship_def Let_def present sel names coords id1 id2)
  have store: "map nlabel (nodes g2) = [''Event'', ''Event'', ''Location'', ''Location'']
     \<and> map (\<lambda>r. (rtype r, rsrc r, rdst r)) (rels g2)
         = [(''OCCURRED_AT'', 0, 2), (''OCCURRED_AT'', 1, 3)]"
    unfolding g2 l1_def l2_def by (rule step)
  have "list_all2 case_pair (name_or_country l1) (name_or_country l2)
     \<and> coord_eq (latitude l1) (latitude l2)
     \<and> coord_eq (longitude l1) (longitude l2)
     \<and> generate_location_id py (name_or_country l1) (latitude l1) (longitude l1)
         = ''LOC_9F08BDCEAE75''
     \<and> generate_location_id py (name_or_country l2) (latitude l2) (longitude l2)
         = ''LOC_E15D6FAE8365''
     \<and> map nlabel (nodes g2) = [''Event'', ''Event'', ''Location'', ''Location'']
     \<and> map (\<lambda>r. (rtype r, rsrc r, rdst r)) (rels g2)
         = [(''OCCURRED_AT'', 0, 2), (''OCCURRED_AT'', 1, 3)]"
    using cp eq id1 id2 store by (simp add: names coords)
  then show ?thesis
    unfolding Let_def py_def[symmetric] l1_def[symmetric] l2_def[symmetric] e1_def[symmetric]
      e2_def[symmetric] g_def[symmetric] g2_def[symmetric] .
qed

text \<open>
  C10 (amended). The identifier is \<open>LOC_\<close> followed by the first 12 digits, in upper
  case, of the digest of the key \<open>name_lat_lon\<close> in lower case; no upper-case letter is
  left in what is hashed. Hence two location names (the name, or the country when the
  name is absent) that differ only in letter case, with coordinates that are formatted
  alike (as they are when each is the same float in both, or absent in both), get the
  same \<open>locationId\<close>. When the location steps of two such Events run one after the
  other, the second step adds no node and changes none, both Events are linked by
  \<open>OCCURRED_AT\<close> to the Location nodes that carry the identifier, and where the store
  held no such node before there is exactly one afterwards, with the attributes of the
  variant loaded first. Where \<open>hexdigest\<close> returns 32 lower-case hexadecimal digits,
  every identifier returned is \<open>LOC_\<close> followed by 12 upper-case hexadecimal digits.
\<close>

theorem location_id_case_insensitive:
  assumes "\<forall>s. length (md5_hexdigest py s) = 32 \<and> list_all is_hex_lower (md5_hexdigest py s)"
    and "list_all2 case_pair (name_or_country l1) (name_or_country l2)"
    and "fmt_float py (latitude l1) = fmt_float py (latitude l2)"
    and "fmt_float py (longitude l1) = fmt_float py (longitude l2)"
    and "location ev1 = Some l1" and "location ev2 = Some l2"
    and "location_present (location ev1)" and "location_present (location ev2)"
  shows "(let lid = generate_location_id py (name_or_country l1) (latitude l1) (longitude l1);
              g1 = create_location_relationship py g ev1;
              g2 = create_location_relationship py g1 ev2
          in generate_location_id py (name_or_country l2) (latitude l2) (longitude l2) = lid
           \<and> nodes g2 = nodes g1
           \<and> linked g2 ''Location'' ''locationId'' (S lid) ''OCCURRED_AT'' (S (event_id ev1))
           \<and> linked g2 ''Location'' ''locationId'' (S lid) ''OCCURRED_AT'' (S (event_id ev2))
           \<and> (count_nodes g ''Location'' ''locationId'' (S lid) = 0 \<longrightarrow>
                nodes g1 = nodes g @
                  [\<lparr>nlabel = ''Location'',
                    nprops = set_props [(''locationId'', S lid)] (location_on_create l1)\<rparr>]
                \<and> count_nodes g2 ''Location'' ''locationId'' (S lid) = 1))
         \<and> (let key = py_lower (n @ ''_'' @ fmt_float py lat @ ''_'' @ fmt_float py lon)
            in generate_location_id py n lat lon
                 = ''LOC_'' @ py_upper (take 12 (md5_hexdigest py key))
             \<and> list_all (\<lambda>c. \<not> is_upper c) key)
         \<and> take 4 (generate_location_id py n lat lon) = ''LOC_''
         \<and> length (generate_location_id py n lat lon) = 16
         \<and> list_all is_hex_upper (drop 4 (generate_location_id py n lat lon))"
proof -
  have same: "generate_location_id py (name_or_country l2) (latitude l2) (longitude l2)
                = generate_location_id py (name_or_country l1) (latitude l1) (longitude l1)"
    using case_pairs_lower[OF assms(2)] assms(3,4)
    by (simp add: generate_location_id_key)
  note two = clr_two_events[OF same assms(5-8), of g]
  note form = generate_location_id_form[OF assms(1), of n lat lon]
  have key: "generate_location_id py n lat lon
      = ''LOC_'' @ py_upper (take 12 (md5_hexdigest py
          (py_lower (n @ ''_'' @ fmt_float py lat @ ''_'' @ fmt_float py lon))))"
    by (simp add: generate_location_id_def Let_def)
  have low: "list_all (\<lambda>c. \<not> is_upper c)
      (py_lower (n @ ''_'' @ fmt_float py lat @ ''_'' @ fmt_float py lon))"
    by (auto simp: py_lower_def list_all_iff is_upper_lower_char)
  show ?thesis
    unfolding Let_def using same two form key low by blast
qed

theorem location_id_case_insensitive_witness:
  "(let py = \<lparr>md5_hexdigest = (\<lambda>s. ''d41d8cd98f00b204e9800998ecf8427e''),
               int_of_float_str = (\<lambda>s. Inl ValueError), float_of_str = (\<lambda>s. None),
               str_of_float = (\<lambda>x. ''0.0''), json_dumps = (\<lambda>d. ''{}'')\<rparr>;
        l1 = \<lparr>loc_name = Some ''Paris'', loc_country = Some ''France'', latitude = None,
               longitude = None, location_type = Some 1, region = None, cow_code = None,
               pinpoint = None\<rparr>;
        l2 = \<lparr>loc_name = Some ''PARIS'', loc_country = None, latitude = None,
               longitude = None, location_type = Some 2, region = None, cow_code = None,
               pinpoint = None\<rparr>;
        e1 = \<lparr>event_id = ''EID1'', temporal = None, event_type = None, pe_type = None,
          atk_type = None, dsa_type = None, news_source = None, article_id = None,
          initiator = None, target = None, victim = None, location = Some l1,
          impact = None, is_quasi_event = False, is_state_action = False, is_coup = False,
          is_coup_failed = False, is_linked = False, link_type = None, linked_from = [],
          linked_to = [], is_posthoc = False, properties = []\<rparr>;
        e2 = e1\<lparr>event_id := ''EID2'', location := Some l2\<rparr>;
        g = \<lparr>nodes = [\<lparr>nlabel = ''Event'', nprops = [(''eventId'', S ''EID1'')]\<rparr>,
                      \<lparr>nlabel = ''Event'', nprops = [(''eventId'', S ''EID2'')]\<rparr>],
             rels = [], constraints = []\<rparr>;
        g2 = create_location_relationship py (create_location_relationship py g e1) e2
    in (\<forall>s. length (md5_hexdigest py s) = 32 \<and> list_all is_hex_lower (md5_hexdigest py s))
     \<and> list_all2 case_pair (name_or_country l1) (name_or_country l2)
     \<and> generate_location_id py ''Paris'' None None = ''LOC_D41D8CD98F00''
     \<and> generate_location_id py ''PARIS'' None None = ''LOC_D41D8CD98F00''
     \<and> nodes g2 = nodes g @
           [\<lparr>nlabel = ''Location'',
             nprops = [(''locationId'', S ''LOC_D41D8CD98F00''), (''name'', S ''Paris''),
                       (''country'', S ''France''), (''locationType'', I 1)]\<rparr>]
     \<and> linked g2 ''Location'' ''locationId'' (S ''LOC_D41D8CD98F00'') ''OCCURRED_AT'' (S ''EID1'')
     \<and> linked g2 ''Location'' ''locationId'' (S ''LOC_D41D8CD98F00'') ''OCCURRED_AT'' (S ''EID2'')
     \<and> count_nodes g2 ''Location'' ''locationId'' (S ''LOC_D41D8CD98F00'') = 1)"
proof -
  define py where "py = \<lparr>md5_hexdigest = (\<lambda>s::string. ''d41d8cd98f00b204e9800998ecf8427e''),
               int_of_float_str = (\<lambda>s::string. (Inl ValueError :: exn + int)),
               float_of_str = (\<lambda>s::string. (None :: pyfloat option)),
               str_of_float = (\<lambda>x::pyfloat. ''0.0''),
               json_dumps = (\<lambda>d::(string \<times> propval) list. ''{}'')\<rparr>"
  define l1 where "l1 = \<lparr>loc_name = Some ''Paris'', loc_country = Some ''France'', latitude = None,
               longitude = None, location_type = Some 1, region = None, cow_code = None,
               pinpoint = None\<rparr>"
  define l2 where "l2 = \<lparr>loc_name = Some ''PARIS'', loc_country = None, latitude = None,
               longitude = None, location_type = Some 2, region = None, cow_code = None,
               pinpoint = None\<rparr>"
  define e1 where "e1 = \<lparr>event_id = ''EID1'', temporal = None, event_type = None, pe_type = None,
          atk_type = None, dsa_type = None, news_source = None, article_id = None,
          initiator = None, target = None, victim = None, location = Some l1,
          impact = None, is_quasi_event = False, is_state_action = False, is_coup = False,
          is_coup_failed = False, is_linked = False, link_type = None, linked_from = [],
          linked_to = [], is_posthoc = False, properties = []\<rparr>"
  define e2 where "e2 = e1\<lparr>event_id := ''EID2'', location := Some l2\<rparr>"
  define g where "g = \<lparr>nodes = [\<lparr>nlabel = ''Event'', nprops = [(''eventId'', S ''EID1'')]\<rparr>,
                      \<lparr>nlabel = ''Event'', nprops = [(''eventId'', S ''EID2'')]\<rparr>],
             rels = [], constraints = []\<rparr>"
  define g2 where "g2 = create_location_relationship py (create_location_relationship py g e1) e2"
  have h1: "\<forall>s. length (md5_hexdigest py s) = 32 \<and> list_all is_hex_lower (md5_hexdigest py s)"
  proof -
    have "length ''d41d8cd98f00b204e9800998ecf8427e'' = 32
          \<and> list_all is_hex_lower ''d41d8cd98f00b204e9800998ecf8427e''"
      by code_simp
    then show ?thesis by (simp add: py_def)
  qed
  have names: "name_or_country l1 = ''Paris''" "name_or_country l2 = ''PARIS''"
    unfolding l1_def l2_def by code_simp+
  have h2: "list_all2 case_pair (name_or_country l1) (name_or_country l2)"
    unfolding l1_def l2_def by code_simp
  have h3: "fmt_float py (latitude l1) = fmt_float py (latitude l2)"
    "fmt_float py (longitude l1) = fmt_float py (longitude l2)"
    by (simp_all add: l1_def l2_def)
  have coords: "latitude l1 = None" "longitude l1 = None"
    by (simp_all add: l1_def)
  have h5: "location e1 = Some l1" "location e2 = Some l2"
    by (simp_all add: e1_def e2_def)
  have h7: "location_present (location e1)" "location_present (location e2)"
    unfolding e2_def e1_def l1_def l2_def by code_simp+
  have ids: "event_id e1 = ''EID1''" "event_id e2 = ''EID2''"
    by (simp_all add: e1_def e2_def)
  have lid: "generate_location_id py ''Paris'' None None = ''LOC_D41D8CD98F00''"
            "generate_location_id py ''PARIS'' None None = ''LOC_D41D8CD98F00''"
    unfolding py_def by code_simp+
  have zero: "count_nodes g ''Location'' ''locationId'' (S ''LOC_D41D8CD98F00'') = 0"
    unfolding g_def by code_simp
  have oc: "set_props [(''locationId'', S ''LOC_D41D8CD98F00'')] (location_on_create l1)
              = [(''locationId'', S ''LOC_D41D8CD98F00''), (''name'', S ''Paris''),
                 (''country'', S ''France''), (''locationType'', I 1)]"
    unfolding l1_def by code_simp
  have coords2: "latitude l2 = None" "longitude l2 = None"
    by (simp_all add: l2_def)
  have concl: "generate_location_id py ''Paris'' None None = ''LOC_D41D8CD98F00''
     \<and> generate_location_id py ''PARIS'' None None = ''LOC_D41D8CD98F00''
     \<and> nodes g2 = nodes g @
           [\<lparr>nlabel = ''Location'',
             nprops = [(''locationId'', S ''LOC_D41D8CD98F00''), (''name'', S ''Paris''),
                       (''country'', S ''France''), (''locationType'', I 1)]\<rparr>]
     \<and> linked g2 ''Location'' ''locationId'' (S ''LOC_D41D8CD98F00'') ''OCCURRED_AT'' (S ''EID1'')
     \<and> linked g2 ''Location'' ''locationId'' (S ''LOC_D41D8CD98F00'') ''OCCURRED_AT'' (S ''EID2'')
     \<and> count_nodes g2 ''Location'' ''locationId'' (S ''LOC_D41D8CD98F00'') = 1"
    using location_id_case_insensitive[OF h1 h2 h3 h5 h7, of g "[]" None None,
        unfolded Let_def, THEN conjunct1]
    by (simp add: names coords coords2 ids lid zero oc g2_def)
  have "(\<forall>s. length (md5_hexdigest py s) = 32 \<and> list_all is_hex_lower (md5_hexdigest py s))
     \<and> list_all2 case_pair (name_or_country l1) (name_or_country l2)
     \<and> generate_location_id py ''Paris'' None None = ''LOC_D41D8CD98F00''
     \<and> generate_location_id py ''PARIS'' None None = ''LOC_D41D8CD98F00''
     \<and> nodes g2 = nodes g @
           [\<lparr>nlabel = ''Location'',
             nprops = [(''locationId'', S ''LOC_D41D8CD98F00''), (''name'', S ''Paris''),
                       (''country'', S ''France''), (''locationType'', I 1)]\<rparr>]
     \<and> linked g2 ''Location'' ''locationId'' (S ''LOC_D41D8CD98F00'') ''OCCURRED_AT'' (S ''EID1'')
     \<and> linked g2 ''Location'' ''locationId'' (S ''LOC_D41D8CD98F00'') ''OCCURRED_AT'' (S ''EID2'')
     \<and> count_nodes g2 ''Location'' ''locationId'' (S ''LOC_D41D8CD98F00'') = 1"
    using h1 h2 concl by blast
  then show ?thesis
    unfolding Let_def py_def[symmetric] l1_def[symmetric] l2_def[symmetric] e1_def[symmetric]
      e2_def[symmetric] g_def[symmetric] g2_def[symmetric] .
qed

section \<open>Schema validator: the checks and the handler\<close>

lemma outside_no_text:
  "\<not> list_ex is_text xs \<Longrightarrow>
   outside xs lo hi
     = Inr (length (filter (\<lambda>c. case c of VNum x \<Rightarrow> x < lo \<or> hi < x | _ \<Rightarrow> False) xs))"
proof -
  have "length (filter (\<lambda>p. fst p \<or> snd p)
           (zip (map (\<lambda>c. case c of VNum x \<Rightarrow> x < lo | _ \<Rightarrow> False) xs)
                (map (\<lambda>c. case c of VNum x \<Rightarrow> x > hi | _ \<Rightarrow> False) xs)))
        = length (filter (\<lambda>c. case c of VNum x \<Rightarrow> x < lo \<or> hi < x | _ \<Rightarrow> False) xs)"
    by (induction xs) (auto split: vcell.splits)
  then show "\<not> list_ex is_text xs \<Longrightarrow> ?thesis"
    by (simp add: outside_def series_cmp_def bindE_def)
qed

lemma outside_text: "list_ex is_text xs \<Longrightarrow> outside xs lo hi = Inl TypeError"
  by (simp add: outside_def series_cmp_def bindE_def)

lemma check_range_no_text:
  "\<not> holds_text df field \<Longrightarrow>
   check_range df field lo hi message = Inr (range_errors df field lo hi message)"
  by (auto simp: check_range_def holds_text_def range_errors_def outside_no_text bindE_def Let_def)

lemma check_range_text:
  "holds_text df field \<Longrightarrow> check_range df field lo hi message = Inl TypeError"
  by (simp add: check_range_def holds_text_def outside_text bindE_def)

text \<open>What \<open>validate\<close> returns on a frame: the checks in order, up to the first that raises.\<close>

lemma validate_frame_errors:
  "snd (validate_frame s)
     = check_field_count (map fst s) @ check_required_fields (map fst s)
         @ check_duplicate_columns (map fst s) @ check_event_ids s
         @ (if holds_text s ''year'' then [ValidationException TypeError]
            else range_errors s ''year'' MIN_YEAR MAX_YEAR InvalidYear
              @ (if holds_text s ''month'' then [ValidationException TypeError]
                 else range_errors s ''month'' MIN_MONTH MAX_MONTH InvalidMonth
                   @ (if holds_text s ''day'' then [ValidationException TypeError]
                      else range_errors s ''day'' MIN_DAY MAX_DAY InvalidDay
                        @ check_ev_type s @ check_low_completeness s
                        @ check_critical_fields s)))"
  by (simp add: validate_frame_def Let_def check_range_no_text check_range_text)

lemma validate_frame_valid: "fst (validate_frame s) \<longleftrightarrow> snd (validate_frame s) = []"
  by (simp add: validate_frame_def Let_def split: sum.splits)

lemma validate_valid: "fst (validate csv n) \<longleftrightarrow> snd (validate csv n) = []"
  by (simp add: validate_def validate_frame_valid split: sum.splits)

text \<open>No other check writes a field-count error.\<close>

lemma no_field_count:
  "filter is_field_count (check_required_fields cs) = []"
  "filter is_field_count (check_duplicate_columns cs) = []"
  "filter is_field_count (check_event_ids s) = []"
  "filter is_field_count (check_ev_type s) = []"
  "filter is_field_count (check_low_completeness s) = []"
  "filter is_field_count (check_critical_fields s) = []"
  "filter is_field_count (range_errors s f MIN_YEAR MAX_YEAR InvalidYear) = []"
  "filter is_field_count (range_errors s f MIN_MONTH MAX_MONTH InvalidMonth) = []"
  "filter is_field_count (range_errors s f MIN_DAY MAX_DAY InvalidDay) = []"
  by (simp_all add: is_field_count_def check_required_fields_def check_duplicate_columns_def
        check_event_ids_def check_ev_type_def check_low_completeness_def
        check_critical_fields_def range_errors_def Let_def)

subsection \<open>Claim C5\<close>

text \<open>
  C5 as stated fails: a check that raises ends the validation. The header has 105
  columns; the one sample row has the text \<open>unknown\<close> for the year and 13 for the
  month. The range check of the year raises \<open>TypeError\<close>, the handler appends its
  message to the field-count error and returns: the month, day, event-type,
  completeness and critical-field checks do not run, and the month out of range is not
  reported. With 1990 for the year it is.
\<close>

theorem validate_short_circuit_counterexample:
  "length ([(''eventid'', [VStr ''E1'']), (''year'', [VStr ''unknown'']), (''month'', [VNum 13]),
           (''day'', [VNum 1]), (''EV_TYPE'', [VNum 1]), (''NEWS_SOURCE'', [VStr ''NYT''])]
          @ map (\<lambda>i. (''c'' @ str_int (int i), [VNum 0])) [0..<99]) = 105
   \<and> validate (Inr ([(''eventid'', [VStr ''E1'']), (''year'', [VStr ''unknown'']), (''month'', [VNum 13]),
           (''day'', [VNum 1]), (''EV_TYPE'', [VNum 1]), (''NEWS_SOURCE'', [VStr ''NYT''])]
          @ map (\<lambda>i. (''c'' @ str_int (int i), [VNum 0])) [0..<99])) 1000
       = (False, [FieldCount 106 105, ValidationException TypeError])
   \<and> validate (Inr ([(''eventid'', [VStr ''E1'']), (''year'', [VNum 1990]), (''month'', [VNum 13]),
           (''day'', [VNum 1]), (''EV_TYPE'', [VNum 1]), (''NEWS_SOURCE'', [VStr ''NYT''])]
          @ map (\<lambda>i. (''c'' @ str_int (int i), [VNum 0])) [0..<99])) 1000
       = (False, [FieldCount 106 105, InvalidMonth 1])"
  by code_simp

text \<open>
  C5 (amended). On a file that is read and whose header has 105 columns, \<open>validate\<close>
  returns exactly one field-count error, at the head of the list, followed by the
  errors of the remaining checks in order, each a function of the frame alone:
  required fields, duplicate columns, duplicate identifiers, then the range checks of
  year, month and day, event types, completeness and critical fields. All of them run
  unless a range check meets a column that holds text: that check raises, one
  validation-exception error is appended to the errors collected so far, and the
  checks after it do not run. For every file, read or not, the boolean returned is
  true exactly when the list of errors is empty.
\<close>

theorem validate_105_columns:
  assumes "length df = 105"
  shows "(let s = map (\<lambda>c. (fst c, take n (snd c))) df; cols = map fst s
          in filter is_field_count (snd (validate (Inr df) n)) = [FieldCount 106 105]
           \<and> snd (validate (Inr df) n)
               = FieldCount 106 105 # check_required_fields cols @ check_duplicate_columns cols
                  @ check_event_ids s
                  @ (if holds_text s ''year'' then [ValidationException TypeError]
                     else range_errors s ''year'' MIN_YEAR MAX_YEAR InvalidYear
                       @ (if holds_text s ''month'' then [ValidationException TypeError]
                          else range_errors s ''month'' MIN_MONTH MAX_MONTH InvalidMonth
                            @ (if holds_text s ''day'' then [ValidationException TypeError]
                               else range_errors s ''day'' MIN_DAY MAX_DAY InvalidDay
                                 @ check_ev_type s @ check_low_completeness s
                                 @ check_critical_fields s))))
         \<and> (fst (validate csv m) \<longleftrightarrow> snd (validate csv m) = [])"
proof -
  define s where "s = map (\<lambda>c. (fst c, take n (snd c))) df"
  have "length (map fst s) = 105"
    using assms by (simp add: s_def)
  then have fc: "check_field_count (map fst s) = [FieldCount 106 105]"
    by (simp add: check_field_count_def EXPECTED_FIELD_COUNT_def)
  have v: "validate (Inr df) n = validate_frame s"
    by (simp add: validate_def s_def)
  have errs: "snd (validate (Inr df) n)
      = FieldCount 106 105 # check_required_fields (map fst s) @ check_duplicate_columns (map fst s)
          @ check_event_ids s
          @ (if holds_text s ''year'' then [ValidationException TypeError]
             else range_errors s ''year'' MIN_YEAR MAX_YEAR InvalidYear
               @ (if holds_text s ''month'' then [ValidationException TypeError]
                  else range_errors s ''month'' MIN_MONTH MAX_MONTH InvalidMonth
                    @ (if holds_text s ''day'' then [ValidationException TypeError]
                       else range_errors s ''day'' MIN_DAY MAX_DAY InvalidDay
                         @ check_ev_type s @ check_low_completeness s
                         @ check_critical_fields s)))"
    unfolding v validate_frame_errors fc by simp
  have one: "filter is_field_count (snd (validate (Inr df) n)) = [FieldCount 106 105]"
    unfolding errs by (simp add: no_field_count) (simp add: is_field_count_def)
  show ?thesis
    unfolding Let_def s_def[symmetric] using one errs validate_valid[of csv m] by blast
qed

theorem validate_105_columns_witness:
  "length ([(''eventid'', [VStr ''E1'']), (''year'', [VNum 1800]), (''month'', [VNum 13]),
           (''day'', [VNum 40]), (''EV_TYPE'', [VNum 3]), (''NEWS_SOURCE'', [VStr ''NYT''])]
          @ map (\<lambda>i. (''c'' @ str_int (int i), [VNum 0])) [0..<99]) = 105
   \<and> validate (Inr ([(''eventid'', [VStr ''E1'']), (''year'', [VNum 1800]), (''month'', [VNum 13]),
           (''day'', [VNum 40]), (''EV_TYPE'', [VNum 3]), (''NEWS_SOURCE'', [VStr ''NYT''])]
          @ map (\<lambda>i. (''c'' @ str_int (int i), [VNum 0])) [0..<99])) 1000
       = (False, [FieldCount 106 105, InvalidYear 1, InvalidMonth 1, InvalidDay 1, InvalidEvType 1])
   \<and> length ([(''eventid'', [VStr ''E1'']), (''year'', [VNum 1800]), (''month'', [VStr ''May'']),
           (''day'', [VNum 40]), (''EV_TYPE'', [VNum 3]), (''NEWS_SOURCE'', [VStr ''NYT''])]
          @ map (\<lambda>i. (''c'' @ str_int (int i), [VNum 0])) [0..<99]) = 105
   \<and> validate (Inr ([(''eventid'', [VStr ''E1'']), (''year'', [VNum 1800]), (''month'', [VStr ''May'']),
           (''day'', [VNum 40]), (''EV_TYPE'', [VNum 3]), (''NEWS_SOURCE'', [VStr ''NYT''])]
          @ map (\<lambda>i. (''c'' @ str_int (int i), [VNum 0])) [0..<99])) 1000
       = (False, [FieldCount 106 105, InvalidYear 1, ValidationException TypeError])"
proof -
  define a where "a = [(''eventid'', [VStr ''E1'']), (''year'', [VNum 1800]), (''month'', [VNum 13]),
           (''day'', [VNum 40]), (''EV_TYPE'', [VNum 3]), (''NEWS_SOURCE'', [VStr ''NYT''])]
          @ map (\<lambda>i. (''c'' @ str_int (int i), [VNum 0])) [0..<99]"
  define b where "b = [(''eventid'', [VStr ''E1'']), (''year'', [VNum 1800]), (''month'', [VStr ''May'']),
           (''day'', [VNum 40]), (''EV_TYPE'', [VNum 3]), (''NEWS_SOURCE'', [VStr ''NYT''])]
          @ map (\<lambda>i. (''c'' @ str_int (int i), [VNum 0])) [0..<99]"
  define sa where "sa = map (\<lambda>c. (fst c, take 1000 (snd c))) a"
  define sb where "sb = map (\<lambda>c. (fst c, take 1000 (snd c))) b"
  have la: "length a = 105" and lb: "length b = 105"
    unfolding a_def b_def by code_simp+
  have ea: "check_required_fields (map fst sa) = []" "check_duplicate_columns (map fst sa) = []"
      "check_event_ids sa = []" "\<not> holds_text sa ''year''" "\<not> holds_text sa ''month''"
      "\<not> holds_text sa ''day''"
      "range_errors sa ''year'' MIN_YEAR MAX_YEAR InvalidYear = [InvalidYear 1]"
      "range_errors sa ''month'' MIN_MONTH MAX_MONTH InvalidMonth = [InvalidMonth 1]"
      "range_errors sa ''day'' MIN_DAY MAX_DAY InvalidDay = [InvalidDay 1]"
      "check_ev_type sa = [InvalidEvType 1]" "check_low_completeness sa = []"
      "check_critical_fields sa = []"
    unfolding sa_def a_def by code_simp+
  have eb: "check_required_fields (map fst sb) = []" "check_duplicate_columns (map fst sb) = []"
      "check_event_ids sb = []" "\<not> holds_text sb ''year''" "holds_text sb ''month''"
      "range_errors sb ''year'' MIN_YEAR MAX_YEAR InvalidYear = [InvalidYear 1]"
    unfolding sb_def b_def by code_simp+
  have ra: "snd (validate (Inr a) 1000)
      = [FieldCount 106 105, InvalidYear 1, InvalidMonth 1, InvalidDay 1, InvalidEvType 1]"
    using validate_105_columns[OF la, of 1000 "Inr a" 1000]
    by (simp add: Let_def sa_def[symmetric] ea)
  have fa: "\<not> fst (validate (Inr a) 1000)"
    using validate_105_columns[OF la, of 1000 "Inr a" 1000] ra by simp
  have rb: "snd (validate (Inr b) 1000)
      = [FieldCount 106 105, InvalidYear 1, ValidationException TypeError]"
    using validate_105_columns[OF lb, of 1000 "Inr b" 1000]
    by (simp add: Let_def sb_def[symmetric] eb)
  have fb: "\<not> fst (validate (Inr b) 1000)"
    using validate_105_columns[OF lb, of 1000 "Inr b" 1000] rb by simp
  have "length a = 105
   \<and> validate (Inr a) 1000
       = (False, [FieldCount 106 105, InvalidYear 1, InvalidMonth 1, InvalidDay 1, InvalidEvType 1])
   \<and> length b = 105
   \<and> validate (Inr b) 1000
       = (False, [FieldCount 106 105, InvalidYear 1, ValidationException TypeError])"
    using la lb ra fa rb fb by (simp add: prod_eq_iff)
  then show ?thesis
    unfolding a_def b_def .
qed

end
